(* ===== verification/Prelude.thy ===== *)
theory Prelude
  imports Main "HOL-Library.Sublist"
begin

text \<open>
  The prelude of the development: the theorem collections the components add to, and the
  generic facts on lists of rows that every table operation needs. A table is a list of
  rows in insertion order; an \<open>UPDATE ... SET ... WHERE\<close> is \<open>update_rows\<close>, a
  \<open>SELECT ... WHERE key = ?\<close> with \<open>.first()\<close> is \<open>find_row\<close>, a \<open>COUNT(*)\<close> is
  \<open>count_rows\<close>. The relation \<open>extends\<close> says that a table has only had rows appended
  and rows rewritten by an allowed column change.
\<close>

named_theorems safe_rules \<open>rules for one step of an asynchronous handler\<close>

section \<open>Tables as lists of rows\<close>

definition update_rows :: "('r \<Rightarrow> bool) \<Rightarrow> ('r \<Rightarrow> 'r) \<Rightarrow> 'r list \<Rightarrow> 'r list" where
  "update_rows P f rs = map (\<lambda>r. if P r then f r else r) rs"

definition count_rows :: "('r \<Rightarrow> bool) \<Rightarrow> 'r list \<Rightarrow> nat" where
  "count_rows P rs = length (filter P rs)"

definition find_row :: "('r \<Rightarrow> 'k) \<Rightarrow> 'k \<Rightarrow> 'r list \<Rightarrow> 'r option" where
  "find_row key k rs = find (\<lambda>r. key r = k) rs"

lemma update_rows_simps [simp]:
  "update_rows P f [] = []"
  "update_rows P f (r # rs) = (if P r then f r else r) # update_rows P f rs"
  "length (update_rows P f rs) = length rs"
  "update_rows P f (rs @ rs') = update_rows P f rs @ update_rows P f rs'"
  by (simp_all add: update_rows_def)

lemma update_rows_none: "\<forall>r \<in> set rs. \<not> P r \<Longrightarrow> update_rows P f rs = rs"
  by (induction rs) auto

lemma update_rows_cong:
  "(\<And>r. r \<in> set rs \<Longrightarrow> P r = Q r) \<Longrightarrow> update_rows P f rs = update_rows Q f rs"
  by (induction rs) auto

lemma set_update_rows: "set (update_rows P f rs) = (\<lambda>r. if P r then f r else r) ` set rs"
  by (simp add: update_rows_def)

lemma in_update_rowsE:
  assumes "r \<in> set (update_rows P f rs)"
  obtains r0 where "r0 \<in> set rs" "r = (if P r0 then f r0 else r0)"
  using assms by (auto simp: set_update_rows)

lemma map_update_rows:
  "(\<And>r. g (f r) = g r) \<Longrightarrow> map g (update_rows P f rs) = map g rs"
  by (induction rs) auto

lemma filter_update_rows:
  "(\<And>r. Q (f r) = Q r) \<Longrightarrow> filter Q (update_rows P f rs) = update_rows P f (filter Q rs)"
  by (induction rs) auto

lemma count_rows_simps [simp]:
  "count_rows P [] = 0"
  "count_rows P (r # rs) = (if P r then Suc (count_rows P rs) else count_rows P rs)"
  "count_rows P (rs @ rs') = count_rows P rs + count_rows P rs'"
  by (simp_all add: count_rows_def)

lemma count_rows_zero: "count_rows P rs = 0 \<longleftrightarrow> (\<forall>r \<in> set rs. \<not> P r)"
  by (induction rs) auto

lemma count_rows_cong:
  "(\<And>r. r \<in> set rs \<Longrightarrow> P r = Q r) \<Longrightarrow> count_rows P rs = count_rows Q rs"
  by (induction rs) auto

lemma count_update_rows:
  "(\<And>r. Q (f r) = Q r) \<Longrightarrow> count_rows Q (update_rows P f rs) = count_rows Q rs"
  by (induction rs) auto

lemma find_row_simps [simp]:
  "find_row key k [] = None"
  "find_row key k (r # rs) = (if key r = k then Some r else find_row key k rs)"
  by (simp_all add: find_row_def)

lemma find_row_Some: "find_row key k rs = Some r \<Longrightarrow> r \<in> set rs \<and> key r = k"
  by (induction rs) (auto split: if_splits)

lemma find_row_None: "find_row key k rs = None \<longleftrightarrow> k \<notin> key ` set rs"
  by (induction rs) auto

lemma find_row_append:
  "find_row key k (rs @ rs') = (case find_row key k rs of None \<Rightarrow> find_row key k rs' | Some r \<Rightarrow> Some r)"
  by (induction rs) auto

lemma find_row_distinct:
  "distinct (map key rs) \<Longrightarrow> r \<in> set rs \<Longrightarrow> find_row key (key r) rs = Some r"
  by (induction rs) (auto simp: image_iff)

lemma distinct_key_eq:
  "distinct (map key rs) \<Longrightarrow> r \<in> set rs \<Longrightarrow> r' \<in> set rs \<Longrightarrow> key r = key r' \<Longrightarrow> r = r'"
  by (auto simp: distinct_map inj_on_def)

section \<open>Updates that keep the primary key\<close>

text \<open>
  The contract of a column update: it does not touch the primary key. Every
  \<open>UPDATE\<close> of the program satisfies it, so a lookup after it is the lookup before it
  with the row rewritten, and the set of keys is unchanged.
\<close>

locale keyed_update =
  fixes key :: "'r \<Rightarrow> 'k" and set_cols :: "'r \<Rightarrow> 'r"
  assumes key_kept: "key (set_cols r) = key r"
begin

lemma find_after_update:
  "find_row key k (update_rows P set_cols rs) =
     map_option (\<lambda>r. if P r then set_cols r else r) (find_row key k rs)"
  by (induction rs) (auto simp: key_kept)

lemma keys_after_update: "map key (update_rows P set_cols rs) = map key rs"
  by (rule map_update_rows) (rule key_kept)

end

section \<open>Tables that only grow and change allowed columns\<close>

definition extends :: "('r \<Rightarrow> 'r \<Rightarrow> bool) \<Rightarrow> 'r list \<Rightarrow> 'r list \<Rightarrow> bool" where
  "extends ev rs rs' \<longleftrightarrow> length rs \<le> length rs' \<and> list_all2 ev rs (take (length rs) rs')"

lemma extends_refl: "(\<And>r. ev r r) \<Longrightarrow> extends ev rs rs"
  by (simp add: extends_def list_all2_refl)

lemma extends_append: "(\<And>r. ev r r) \<Longrightarrow> extends ev rs (rs @ rs')"
  by (simp add: extends_def list_all2_refl)

lemma extends_update:
  assumes "\<And>r. ev r r" and "\<And>r. r \<in> set rs \<Longrightarrow> P r \<Longrightarrow> ev r (f r)"
  shows "extends ev rs (update_rows P f rs)"
  using assms by (auto simp: extends_def list_all2_conv_all_nth update_rows_def)

lemma extends_trans:
  assumes tr: "\<And>a b c. ev a b \<Longrightarrow> ev b c \<Longrightarrow> ev a c"
    and 1: "extends ev rs rs'" and 2: "extends ev rs' rs''"
  shows "extends ev rs rs''"
proof -
  have "ev (rs ! i) (rs'' ! i)" if i: "i < length rs" for i
  proof (rule tr)
    show "ev (rs ! i) (rs' ! i)" "ev (rs' ! i) (rs'' ! i)"
      using 1 2 i by (auto simp: extends_def list_all2_conv_all_nth)
  qed
  then show ?thesis using 1 2 by (auto simp: extends_def list_all2_conv_all_nth)
qed

lemma extends_member:
  assumes "extends ev rs rs'" and "r \<in> set rs"
  obtains r' where "r' \<in> set rs'" "ev r r'"
proof -
  from assms(2) obtain i where i: "i < length rs" "r = rs ! i"
    by (auto simp: in_set_conv_nth)
  with assms(1) have "ev r (rs' ! i)" "rs' ! i \<in> set rs'"
    by (auto simp: extends_def list_all2_conv_all_nth)
  with that show ?thesis by blast
qed

end
