(* ===== verification/JsNumber.thy ===== *)
theory JsNumber
  imports Prelude Complex_Main "HOL-Library.Log_Nat"
begin

text \<open>
  JavaScript's \<open>Number\<close>: an IEEE-754 double, modelled as \<open>NaN\<close>, the two infinities or
  a finite rational. The arithmetic operators compute the exact rational result and round
  it to the nearest double, ties to even (\<open>fl\<close>), overflowing to an infinity at \<open>2 ^ 1024\<close>.
  The sign of zero is not represented: no branch of the program depends on it.
  The comparisons are JavaScript's: every comparison with \<open>NaN\<close> is false.
\<close>

section \<open>Rounding to a double\<close>

definition round_even :: "rat \<Rightarrow> int" where
  "round_even x =
     (let f = \<lfloor>x\<rfloor>; r = x - of_int f
      in if r < 1 / 2 then f else if 1 / 2 < r then f + 1 else if even f then f else f + 1)"

text \<open>\<open>expo x\<close> is the greatest \<open>e\<close> with \<open>2 ^ e \<le> x\<close>, for positive \<open>x\<close>.\<close>

definition expo :: "rat \<Rightarrow> int" where
  "expo x =
     (if 1 \<le> x then int (floorlog 2 (nat \<lfloor>x\<rfloor>)) - 1
      else - int (floorlog 2 (nat (\<lceil>1 / x\<rceil> - 1))))"

definition ulp_expo :: "rat \<Rightarrow> int" where
  "ulp_expo x = max (expo \<bar>x\<bar> - 52) (- 1074)"

definition fl :: "rat \<Rightarrow> rat" where
  "fl x = (if x = 0 then 0
           else of_int (round_even (x / 2 powi ulp_expo x)) * 2 powi ulp_expo x)"

lemma round_even_of_int [simp]: "round_even (of_int n) = n"
  by (simp add: round_even_def)

lemma round_even_bounds: "\<lfloor>x\<rfloor> \<le> round_even x" "round_even x \<le> \<lfloor>x\<rfloor> + 1"
  by (auto simp: round_even_def Let_def)

lemma round_even_mono:
  assumes "x \<le> y" shows "round_even x \<le> round_even y"
proof (cases "\<lfloor>x\<rfloor> = \<lfloor>y\<rfloor>")
  case True
  with assms show ?thesis by (auto simp: round_even_def Let_def)
next
  case False
  with floor_mono[OF assms] have "\<lfloor>x\<rfloor> + 1 \<le> \<lfloor>y\<rfloor>" by simp
  with round_even_bounds[of x] round_even_bounds[of y] show ?thesis by linarith
qed

lemma floorlog_2_bounds:
  assumes "0 < n" shows "2 ^ (floorlog 2 n - 1) \<le> n" "n < 2 ^ floorlog 2 n" "0 < floorlog 2 n"
  using floorlog_bounds[of n 2] assms by (auto simp: floorlog_def)

lemma expo_bounds:
  assumes "0 < x" shows "2 powi expo x \<le> x" "x < 2 powi (expo x + 1)"
proof -
  have "2 powi expo x \<le> x \<and> x < 2 powi (expo x + 1)"
  proof (cases "1 \<le> x")
    case True
    define n where "n = nat \<lfloor>x\<rfloor>"
    from True have "1 \<le> \<lfloor>x\<rfloor>" by (simp add: le_floor_iff)
    then have n: "0 < n" "of_nat n \<le> x" "x < of_nat n + 1"
      by (auto simp: n_def of_nat_nat real_of_int_floor_add_one_gt) linarith
    define k where "k = floorlog 2 n"
    have k: "2 ^ (k - 1) \<le> n" "n < 2 ^ k" "0 < k"
      using floorlog_2_bounds[OF n(1)] by (auto simp: k_def)
    have "(2::rat) ^ (k - 1) \<le> of_nat n" using k(1) by (metis of_nat_le_iff of_nat_numeral of_nat_power)
    moreover have "of_nat n + 1 \<le> (2::rat) ^ k"
      using k(2) by (metis Suc_leI of_nat_Suc of_nat_le_iff of_nat_numeral of_nat_power add.commute)
    moreover have e: "expo x = int (k - 1)" "expo x + 1 = int k"
      using True k(3) by (auto simp: expo_def k_def n_def of_nat_diff)
    ultimately have "2 powi int (k - 1) \<le> x" "x < 2 powi int k"
      using n unfolding power_int_of_nat by linarith+
    then show ?thesis unfolding e(2) unfolding e(1) by blast
  next
    case False
    define n where "n = nat (\<lceil>1 / x\<rceil> - 1)"
    from False assms have gt: "1 < 1 / x" by simp
    then have "1 < \<lceil>1 / x\<rceil>" by (simp add: less_ceiling_iff)
    then have z: "0 < \<lceil>1 / x\<rceil> - 1" by linarith
    then have "(of_nat n :: rat) = of_int (\<lceil>1 / x\<rceil> - 1)"
      unfolding n_def by (intro of_nat_nat) linarith
    with z assms have n0: "0 < n" "(of_nat n :: rat) = of_int \<lceil>1 / x\<rceil> - 1"
      by (simp_all add: n_def)
    have n: "0 < n" "of_nat n < 1 / x" "1 / x \<le> of_nat n + 1"
      using ceiling_correct[of "1 / x"] n0 by linarith+
    define k where "k = floorlog 2 n"
    have k: "2 ^ (k - 1) \<le> n" "n < 2 ^ k" "0 < k"
      using floorlog_2_bounds[OF n(1)] by (auto simp: k_def)
    have lo: "(2::rat) ^ (k - 1) < 1 / x"
      using k(1) n(2) by (metis of_nat_le_iff of_nat_numeral of_nat_power order_le_less_trans)
    have hi: "1 / x \<le> (2::rat) ^ k"
      using k(2) n(3) by (metis Suc_leI of_nat_Suc of_nat_le_iff of_nat_numeral of_nat_power
          add.commute order_trans)
    have e: "expo x = - int k" using False by (simp add: expo_def k_def n_def)
    have "2 powi (- int k) \<le> x"
      using hi assms by (simp add: power_int_minus field_simps)
    moreover have "x < 2 powi (- int k + 1)"
    proof -
      have e': "- int k + 1 = - int (k - 1)" using k(3) by simp
      have "x < 2 powi (- int (k - 1))"
      proof -
        have "x * 2 ^ (k - 1) < 1" using lo assms by (simp add: less_divide_eq mult.commute)
        then have "x < 1 / 2 ^ (k - 1)" by (simp add: less_divide_eq)
        then show ?thesis by (simp only: power_int_minus power_int_of_nat inverse_eq_divide)
      qed
      then show ?thesis unfolding e' .
    qed
    ultimately show ?thesis unfolding e by blast
  qed
  then show "2 powi expo x \<le> x" "x < 2 powi (expo x + 1)" by auto
qed

lemma two_powi_le: "a \<le> b \<longleftrightarrow> (2::rat) powi a \<le> 2 powi b"
  using power_int_strict_increasing[of b a "2::rat"] power_int_increasing[of a b "2::rat"]
  by (cases "a \<le> b") auto

lemma two_powi_less: "a < b \<longleftrightarrow> (2::rat) powi a < 2 powi b"
  using two_powi_le[of b a] by auto

lemma two_powi_add: "(2::rat) powi (a + b) = 2 powi a * 2 powi b"
  by (simp add: power_int_add)

lemma expo_mono:
  assumes "0 < x" "x \<le> y" shows "expo x \<le> expo y"
proof -
  have "2 powi expo x < (2::rat) powi (expo y + 1)"
    using expo_bounds[of x] expo_bounds[of y] assms by linarith
  then show ?thesis using two_powi_less[of "expo x" "expo y + 1"] by simp
qed

lemma expo_unique:
  assumes "2 powi e \<le> x" "x < 2 powi (e + 1)"
  shows "expo x = e"
proof -
  have "(0::rat) < 2 powi e" by simp
  then have "0 < x" using assms by linarith
  then have "2 powi e < (2::rat) powi (expo x + 1)" "2 powi expo x < (2::rat) powi (e + 1)"
    using expo_bounds[of x] assms by linarith+
  then have "e < expo x + 1" "expo x < e + 1" unfolding two_powi_less by blast+
  then show ?thesis by simp
qed

text \<open>
  An integer multiple \<open>m * 2 ^ k\<close> with a 53-bit \<open>m\<close> is a double, so it is not changed by
  rounding. In particular every integer of magnitude up to \<open>2 ^ 53\<close> is exact.
\<close>

lemma fl_exact:
  assumes m: "\<bar>m\<bar> \<le> 2 ^ 53" and k: "- 1074 \<le> k"
  shows "fl (of_int m * 2 powi k) = of_int m * 2 powi k"
proof (cases "m = 0")
  case False
  define x :: rat where "x = of_int m * 2 powi k"
  define q where "q = ulp_expo x"
  from False have ax: "\<bar>x\<bar> = of_int \<bar>m\<bar> * 2 powi k" "0 < \<bar>x\<bar>" by (auto simp: x_def abs_mult)
  have "\<exists>n. x / 2 powi q = of_int n"
  proof (cases "q \<le> k")
    case True
    have "x / 2 powi q = of_int m * 2 powi (k - q)"
      by (simp add: x_def power_int_diff)
    also have "\<dots> = of_int (m * 2 ^ nat (k - q))"
      using True by (simp add: power_int_def)
    finally show ?thesis by blast
  next
    case gt: False
    then have "q = expo \<bar>x\<bar> - 52" using k by (auto simp: q_def ulp_expo_def)
    then have "2 powi (q + 52) \<le> \<bar>x\<bar>" using expo_bounds(1)[OF ax(2)] by simp
    also have "\<bar>x\<bar> \<le> 2 ^ 53 * 2 powi k"
    proof -
      have "(of_int \<bar>m\<bar> :: rat) \<le> 2 ^ 53" using m by (metis of_int_le_iff of_int_numeral of_int_power)
      then show ?thesis unfolding ax(1) by (intro mult_right_mono) auto
    qed
    also have "\<dots> = 2 powi (k + 53)" by (simp add: two_powi_add)
    finally have "q \<le> k + 1" using two_powi_le[of "q + 52" "k + 53"] by simp
    with gt have q: "q = k + 1" by simp
    have "2 powi (q + 52) \<le> \<bar>x\<bar>" by fact
    moreover have "(2 powi (q + 52) :: rat) = 2 ^ 53 * 2 powi k"
      unfolding q by (simp add: power_int_add)
    ultimately have "2 ^ 53 * 2 powi k \<le> of_int \<bar>m\<bar> * (2 powi k :: rat)"
      unfolding ax(1) by metis
    then have "(2 ^ 53 :: rat) \<le> of_int \<bar>m\<bar>" by (rule mult_right_le_imp_le) simp
    then have "2 ^ 53 \<le> \<bar>m\<bar>" by (metis of_int_le_iff of_int_numeral of_int_power)
    with m have "m = 2 ^ 53 \<or> m = - (2 ^ 53)" by linarith
    then have "x / 2 powi q = of_int (2 ^ 52) \<or> x / 2 powi q = of_int (- (2 ^ 52))"
      unfolding x_def q by (auto simp: power_int_add)
    then show ?thesis by blast
  qed
  then obtain n where n: "x / 2 powi q = of_int n" by blast
  have "fl x = of_int n * 2 powi q"
    using False n by (simp add: fl_def q_def[symmetric]) (simp add: x_def)
  also have "\<dots> = x" using n by (simp add: field_simps)
  finally show ?thesis by (simp add: x_def)
qed (simp add: fl_def)

lemma fl_of_int: "\<bar>n\<bar> \<le> 2 ^ 53 \<Longrightarrow> fl (of_int n) = of_int n"
  using fl_exact[of n 0] by simp

lemma fl_mono:
  assumes "0 < x" "x \<le> y" shows "fl x \<le> fl y"
proof -
  define a b where "a = ulp_expo x" and "b = ulp_expo y"
  have ab: "a \<le> b" using expo_mono[OF assms] assms by (simp add: a_def b_def ulp_expo_def)
  have fx: "fl x = of_int (round_even (x / 2 powi a)) * 2 powi a"
    and fy: "fl y = of_int (round_even (y / 2 powi b)) * 2 powi b"
    using assms by (auto simp: fl_def a_def b_def)
  show ?thesis
  proof (cases "a = b")
    case True
    have "round_even (x / 2 powi a) \<le> round_even (y / 2 powi a)"
      using assms by (intro round_even_mono divide_right_mono) auto
    then show ?thesis unfolding fx fy True[symmetric] by (intro mult_right_mono) auto
  next
    case False
    with ab have lt: "a + 1 \<le> b" by simp
    then have b: "b = expo y - 52" using assms by (auto simp: a_def b_def ulp_expo_def)
    have "expo x - 52 \<le> a" using assms by (simp add: a_def ulp_expo_def)
    then have "x < 2 powi (a + 53)"
      using expo_bounds(2)[of x] assms two_powi_le[of "expo x + 1" "a + 53"] by linarith
    then have "x / 2 powi a \<le> of_int (2 ^ 53)"
      by (simp add: two_powi_add field_simps)
    then have "round_even (x / 2 powi a) \<le> 2 ^ 53"
      using round_even_mono round_even_of_int by metis
    then have "(of_int (round_even (x / 2 powi a)) :: rat) \<le> 2 ^ 53"
      by (metis of_int_le_iff of_int_numeral of_int_power)
    then have "fl x \<le> 2 ^ 53 * 2 powi a" unfolding fx by (intro mult_right_mono) auto
    also have "\<dots> = 2 powi (a + 53)" by (simp add: two_powi_add)
    also have "\<dots> \<le> 2 powi (b + 52)" using lt two_powi_le[of "a + 53" "b + 52"] by simp
    also have "\<dots> \<le> fl y"
    proof -
      have "2 powi (b + 52) \<le> y" using expo_bounds(1)[of y] assms b by simp
      then have "of_int (2 ^ 52) \<le> y / 2 powi b" by (simp add: two_powi_add field_simps)
      then have "2 ^ 52 \<le> round_even (y / 2 powi b)"
        using round_even_mono round_even_of_int by metis
      then have "(2 ^ 52 :: rat) \<le> of_int (round_even (y / 2 powi b))"
        by (metis of_int_le_iff of_int_numeral of_int_power)
      then have "2 ^ 52 * 2 powi b \<le> fl y" unfolding fy by (intro mult_right_mono) auto
      then show ?thesis by (simp add: two_powi_add mult.commute)
    qed
    finally show ?thesis .
  qed
qed

text \<open>
  The quotient of two integers, rounded to a double and then floored, is the integer
  quotient, as long as both are well inside the exact range: the rounding never reaches
  the next integer, because a double lies between the quotient and it.
\<close>

lemma power_two_between:
  assumes "0 < (b :: int)"
  obtains k where "b \<le> 2 ^ k" "2 ^ k < 2 * b"
proof -
  define n where "n = nat b"
  define f where "f = floorlog 2 n"
  have n: "0 < n" "b = int n" using assms by (auto simp: n_def)
  have f: "2 ^ (f - 1) \<le> n" "n < 2 ^ f" "0 < f"
    using floorlog_2_bounds[OF n(1)] by (auto simp: f_def)
  have dbl: "(2::nat) ^ f = 2 * 2 ^ (f - 1)" using f(3) by (cases f) auto
  show ?thesis
  proof (cases "n = 2 ^ (f - 1)")
    case True
    then have "b = 2 ^ (f - 1)" using n(2) by simp
    with assms show ?thesis by (intro that[of "f - 1"]) auto
  next
    case False
    with f dbl have "n \<le> 2 ^ f" "2 ^ f < 2 * n" by linarith+
    then have "b \<le> int (2 ^ f)" "int (2 ^ f) < 2 * b" unfolding n(2) by linarith+
    moreover have "int (2 ^ f) = 2 ^ f" by simp
    ultimately show ?thesis using that[of f] by metis
  qed
qed

lemma div_bounds:
  assumes "0 < (b :: int)" shows "a div b * b \<le> a" "a < (a div b + 1) * b"
proof -
  have e: "a div b * b + a mod b = a" and m: "0 \<le> a mod b" "a mod b < b"
    using assms by simp_all
  show "a div b * b \<le> a" using e m by linarith
  have "(a div b + 1) * b = a div b * b + b" by (simp add: distrib_right)
  then show "a < (a div b + 1) * b" using e m by linarith
qed

lemma div_le_int:
  assumes "0 \<le> (a :: int)" "0 < b" shows "0 \<le> a div b" "a div b \<le> a"
proof -
  show "0 \<le> a div b" using assms by (simp add: pos_imp_zdiv_nonneg_iff)
  then have "a div b * 1 \<le> a div b * b" using assms by (intro mult_left_mono) auto
  with div_bounds(1)[OF assms(2), of a] show "a div b \<le> a" by simp
qed

lemma fl_quotient_less:
  fixes a b :: int
  assumes a: "0 < a" and b: "0 < b" and bnd: "a + b \<le> 2 ^ 52"
  shows "fl (of_int a / of_int b) < of_int (a div b + 1)"
proof -
  define q where "q = a div b"
  have q0: "0 \<le> q" using a b by (simp add: q_def pos_imp_zdiv_nonneg_iff)
  have qb: "q * b \<le> a" "a < (q + 1) * b" using div_bounds[OF b, of a] by (auto simp: q_def)
  from power_two_between[OF b] obtain k where k: "b \<le> 2 ^ k" "(2::int) ^ k < 2 * b" by blast
  have "(2::int) ^ k < 2 ^ 53" using k(2) a bnd by simp
  then have k53: "k < 53" by (rule power_less_imp_less_exp[rotated]) simp
  define m where "m = (q + 1) * 2 ^ k - 1"
  define y :: rat where "y = of_int m * 2 powi (- int k)"
  have "(q + 1) * 2 ^ k \<le> (q + 1) * (2 * b)" using k(2) q0 by (intro mult_left_mono) auto
  also have "\<dots> = 2 * (q * b + b)" by (simp add: algebra_simps)
  also have "\<dots> \<le> 2 ^ 53" using qb(1) bnd by simp
  finally have m_hi: "m \<le> 2 ^ 53" by (simp add: m_def)
  have "1 * 1 \<le> (q + 1) * 2 ^ k" using q0 by (intro mult_mono) auto
  with m_hi have m: "\<bar>m\<bar> \<le> 2 ^ 53" by (simp add: m_def)
  have y: "y = of_int (q + 1) - 1 / 2 ^ k"
    by (simp add: y_def m_def power_int_minus field_simps)
  have "a + 1 \<le> (q + 1) * b" using qb(2) by simp
  then have "(of_int a :: rat) + 1 \<le> of_int (q + 1) * of_int b"
    by (metis of_int_1 of_int_add of_int_le_iff of_int_mult)
  then have "of_int a / of_int b \<le> (of_int (q + 1) - 1 / of_int b :: rat)"
    using b by (simp add: field_simps)
  also have "\<dots> \<le> y"
  proof -
    have "(of_int b :: rat) \<le> 2 ^ k" using k(1) by (metis of_int_le_iff of_int_numeral of_int_power)
    then have "1 / (2 ^ k :: rat) \<le> 1 / of_int b" using b by (intro divide_left_mono) auto
    then show ?thesis unfolding y by simp
  qed
  finally have "fl (of_int a / of_int b) \<le> fl y" using a b by (intro fl_mono) auto
  also have "fl y = y" unfolding y_def using m k53 by (intro fl_exact) auto
  also have "y < of_int (q + 1)" unfolding y by simp
  finally show ?thesis by (simp add: q_def)
qed

lemma fl_quotient:
  fixes a b :: int
  assumes a: "0 \<le> a" and b: "0 < b" and bnd: "a + b \<le> 2 ^ 52"
  shows "\<lfloor>fl (of_int a / of_int b)\<rfloor> = a div b"
proof (cases "a = 0")
  case False
  then have a': "0 < a" using a by simp
  have q0: "0 \<le> a div b" "a div b \<le> a" using div_le_int[OF a b] by simp_all
  have qb: "a div b * b \<le> a" using div_bounds[OF b, of a] by simp
  have qs: "\<bar>a div b\<bar> \<le> 2 ^ 53" using bnd b q0 by simp
  have x: "(0::rat) < of_int a / of_int b" using a' b by simp
  have "of_int (a div b) \<le> fl (of_int a / of_int b)"
  proof (cases "a div b = 0")
    case True
    have "0 \<le> \<lfloor>of_int a / of_int b / (2::rat) powi ulp_expo (of_int a / of_int b)\<rfloor>"
      using a' b by (simp add: le_floor_iff)
    then have "0 \<le> round_even (of_int a / of_int b / 2 powi ulp_expo (of_int a / of_int b))"
      using round_even_bounds(1) order_trans by blast
    then show ?thesis using True x by (simp add: fl_def)
  next
    case False
    have "(of_int (a div b * b) :: rat) \<le> of_int a" using qb by (simp only: of_int_le_iff)
    then have "(of_int (a div b) :: rat) \<le> of_int a / of_int b" using b by (simp add: field_simps)
    then have "fl (of_int (a div b)) \<le> fl (of_int a / of_int b)"
      using False q0 by (intro fl_mono) auto
    then show ?thesis using fl_of_int[OF qs] by simp
  qed
  with fl_quotient_less[OF a' b bnd] show ?thesis by (simp add: floor_eq_iff)
qed (simp add: fl_def)

section \<open>The number type and its operators\<close>

datatype js_number = NaN | PInf | NInf | Fin rat

definition js_round :: "rat \<Rightarrow> js_number" where
  "js_round x =
     (let y = fl x
      in if 2 ^ 1024 \<le> y then PInf else if y \<le> - (2 ^ 1024) then NInf else Fin y)"

text \<open>\<open><\<close>, \<open><=\<close>, \<open>+\<close>, \<open>*\<close> and \<open>/\<close> on numbers are JavaScript's operators.\<close>

instantiation js_number :: "{ord, plus, times, divide, modulo, zero}"
begin

fun less_js_number :: "js_number \<Rightarrow> js_number \<Rightarrow> bool" where
  "less_js_number NaN _ = False"
| "less_js_number _ NaN = False"
| "less_js_number PInf _ = False"
| "less_js_number NInf y = (y \<noteq> NInf)"
| "less_js_number (Fin x) PInf = True"
| "less_js_number (Fin x) NInf = False"
| "less_js_number (Fin x) (Fin y) = (x < y)"

definition less_eq_js_number :: "js_number \<Rightarrow> js_number \<Rightarrow> bool" where
  "less_eq_js_number x y = (x < y \<or> (x = y \<and> x \<noteq> NaN))"

definition zero_js_number :: js_number where
  "zero_js_number = Fin 0"

fun plus_js_number :: "js_number \<Rightarrow> js_number \<Rightarrow> js_number" where
  "plus_js_number NaN _ = NaN"
| "plus_js_number _ NaN = NaN"
| "plus_js_number PInf y = (if y = NInf then NaN else PInf)"
| "plus_js_number NInf y = (if y = PInf then NaN else NInf)"
| "plus_js_number (Fin x) PInf = PInf"
| "plus_js_number (Fin x) NInf = NInf"
| "plus_js_number (Fin x) (Fin y) = js_round (x + y)"

definition signed_inf :: "bool \<Rightarrow> js_number" where
  "signed_inf pos = (if pos then PInf else NInf)"

fun times_js_number :: "js_number \<Rightarrow> js_number \<Rightarrow> js_number" where
  "times_js_number NaN _ = NaN"
| "times_js_number _ NaN = NaN"
| "times_js_number (Fin x) (Fin y) = js_round (x * y)"
| "times_js_number (Fin x) y = (if x = 0 then NaN else signed_inf ((0 < x) = (y = PInf)))"
| "times_js_number x (Fin y) = (if y = 0 then NaN else signed_inf ((0 < y) = (x = PInf)))"
| "times_js_number x y = signed_inf (x = y)"

fun divide_js_number :: "js_number \<Rightarrow> js_number \<Rightarrow> js_number" where
  "divide_js_number NaN _ = NaN"
| "divide_js_number _ NaN = NaN"
| "divide_js_number (Fin x) (Fin y) =
     (if y = 0 then (if x = 0 then NaN else signed_inf (0 < x)) else js_round (x / y))"
| "divide_js_number (Fin x) y = Fin 0"
| "divide_js_number x (Fin y) = signed_inf ((x = PInf) = (0 \<le> y))"
| "divide_js_number x y = NaN"

text \<open>The remainder \<open>%\<close> truncates its quotient towards zero; it is always exact.\<close>

fun modulo_js_number :: "js_number \<Rightarrow> js_number \<Rightarrow> js_number" where
  "modulo_js_number (Fin x) (Fin y) =
     (if y = 0 then NaN
      else Fin (x - y * of_int (if 0 \<le> x / y then \<lfloor>x / y\<rfloor> else \<lceil>x / y\<rceil>)))"
| "modulo_js_number (Fin x) PInf = Fin x"
| "modulo_js_number (Fin x) NInf = Fin x"
| "modulo_js_number _ _ = NaN"

instance ..

end

text \<open>\<open>Math.floor\<close> and \<open>Number.isFinite\<close>; \<open>js_int\<close> embeds an integer.\<close>

fun math_floor :: "js_number \<Rightarrow> js_number" where
  "math_floor (Fin x) = Fin (of_int \<lfloor>x\<rfloor>)"
| "math_floor x = x"

fun is_finite :: "js_number \<Rightarrow> bool" where
  "is_finite (Fin _) = True"
| "is_finite _ = False"

definition js_int :: "int \<Rightarrow> js_number" where
  "js_int n = Fin (of_int n)"

text \<open>
  On integers inside the exact range the operators are the integer operations. The bundle
  \<open>js_int_simps\<close> carries every computation of the program over to the integers.
\<close>

lemma js_int_eq [simp]: "js_int a = js_int b \<longleftrightarrow> a = b"
  by (simp add: js_int_def)

lemma js_int_order [simp]:
  "js_int a < js_int b \<longleftrightarrow> a < b" "js_int a \<le> js_int b \<longleftrightarrow> a \<le> b"
  by (auto simp: js_int_def less_eq_js_number_def)

lemma js_int_zero: "(0 :: js_number) = js_int 0"
  by (simp add: zero_js_number_def js_int_def)

lemma is_finite_js_int [simp]: "is_finite (js_int n)"
  by (simp add: js_int_def)

lemma math_floor_js_int [simp]: "math_floor (js_int n) = js_int n"
  by (simp add: js_int_def)

lemma is_finite_iff: "is_finite x \<longleftrightarrow> (\<exists>r. x = Fin r)"
  by (cases x) auto

lemma finite_floor_int: "is_finite (math_floor x) \<Longrightarrow> \<exists>n. math_floor x = js_int n"
  by (cases x) (auto simp: js_int_def)

lemma js_not_le: "is_finite x \<Longrightarrow> is_finite y \<Longrightarrow> \<not> x \<le> y \<longleftrightarrow> y < (x :: js_number)"
  by (auto simp: is_finite_iff less_eq_js_number_def)

lemma js_round_of_int: "\<bar>n\<bar> \<le> 2 ^ 53 \<Longrightarrow> js_round (of_int n) = js_int n"
proof -
  assume n: "\<bar>n\<bar> \<le> 2 ^ 53"
  then have "(of_int n :: rat) \<le> of_int (2 ^ 53)" "of_int (- (2 ^ 53)) \<le> (of_int n :: rat)"
    by (auto simp only: of_int_le_iff abs_le_iff minus_le_iff)
  moreover have "(of_int (2 ^ 53) :: rat) < 2 ^ 1024" by simp
  ultimately have "\<not> 2 ^ 1024 \<le> (of_int n :: rat)" "\<not> of_int n \<le> (- (2 ^ 1024) :: rat)"
    by linarith+
  then show ?thesis by (simp add: js_round_def fl_of_int[OF n] js_int_def Let_def)
qed

lemma js_int_add: "\<bar>a + b\<bar> \<le> 2 ^ 53 \<Longrightarrow> js_int a + js_int b = js_int (a + b)"
  using js_round_of_int[of "a + b"] by (simp add: js_int_def)

lemma js_int_mult: "\<bar>a * b\<bar> \<le> 2 ^ 53 \<Longrightarrow> js_int a * js_int b = js_int (a * b)"
  using js_round_of_int[of "a * b"] by (simp add: js_int_def)

lemma js_int_mod: "0 \<le> a \<Longrightarrow> 0 < b \<Longrightarrow> js_int a mod js_int b = js_int (a mod b)"
  by (simp add: js_int_def floor_divide_of_int_eq minus_div_mult_eq_mod[symmetric] mult.commute)

lemma js_int_floor_div:
  assumes "0 \<le> a" "0 < b" "a + b \<le> 2 ^ 52"
  shows "math_floor (js_int a div js_int b) = js_int (a div b)"
proof -
  define y where "y = fl (of_int a / of_int b)"
  have f: "\<lfloor>y\<rfloor> = a div b" using fl_quotient[OF assms] by (simp add: y_def)
  have "0 \<le> a div b" "a div b \<le> 2 ^ 52" using div_le_int[OF assms(1,2)] assms by simp_all
  then have "(of_int (a div b) :: rat) \<le> of_int (2 ^ 52)" "(0::rat) \<le> of_int (a div b)"
    by (simp_all only: of_int_le_iff of_int_0_le_iff)
  moreover have "of_int (a div b) \<le> y" "y < of_int (a div b) + 1" using f by linarith+
  moreover have "(of_int (2 ^ 52) :: rat) + 1 < 2 ^ 1024" by simp
  ultimately have "\<not> 2 ^ 1024 \<le> y" "\<not> y \<le> - (2 ^ 1024)" by linarith+
  then show ?thesis using assms f
    by (simp add: js_int_def js_round_def Let_def y_def[symmetric])
qed

lemmas js_int_simps = js_int_add js_int_mult js_int_mod js_int_floor_div js_int_zero

section \<open>Reading a number from a string\<close>

text \<open>
  \<open>Number(s)\<close> for a string: surrounding white space is dropped, the empty string is 0, then
  an unsigned hexadecimal, octal or binary literal, or an optionally signed decimal literal
  with fraction and exponent, or \<open>Infinity\<close>; anything else is \<open>NaN\<close>.
\<close>

definition is_space :: "char \<Rightarrow> bool" where
  "is_space c \<longleftrightarrow> (of_char c :: nat) \<in> {9, 10, 11, 12, 13, 32, 160}"

definition trim :: "string \<Rightarrow> string" where
  "trim s = rev (dropWhile is_space (rev (dropWhile is_space s)))"

definition digit_value :: "char \<Rightarrow> nat option" where
  "digit_value c =
     (let n = of_char c :: nat
      in if 48 \<le> n \<and> n \<le> 57 then Some (n - 48)
         else if 97 \<le> n \<and> n \<le> 102 then Some (n - 87)
         else if 65 \<le> n \<and> n \<le> 70 then Some (n - 55) else None)"

definition is_digit :: "nat \<Rightarrow> char \<Rightarrow> bool" where
  "is_digit radix c = (case digit_value c of None \<Rightarrow> False | Some d \<Rightarrow> d < radix)"

fun digits_value :: "nat \<Rightarrow> string \<Rightarrow> nat \<Rightarrow> nat" where
  "digits_value radix [] acc = acc"
| "digits_value radix (c # cs) acc =
     digits_value radix cs (radix * acc + (case digit_value c of None \<Rightarrow> 0 | Some d \<Rightarrow> d))"

definition radix_literal :: "nat \<Rightarrow> string \<Rightarrow> js_number" where
  "radix_literal radix s =
     (if s \<noteq> [] \<and> list_all (is_digit radix) s
      then js_round (of_nat (digits_value radix s 0)) else NaN)"

definition exponent_value :: "string \<Rightarrow> int option" where
  "exponent_value s =
     (let neg = (take 1 s = ''-''); ds = (if take 1 s = ''-'' \<or> take 1 s = ''+'' then drop 1 s else s)
      in if ds \<noteq> [] \<and> list_all (is_digit 10) ds
         then Some ((if neg then -1 else 1) * int (digits_value 10 ds 0)) else None)"

definition decimal_literal :: "string \<Rightarrow> rat option" where
  "decimal_literal s =
     (let not_e = (\<lambda>c. c \<noteq> CHR ''e'' \<and> c \<noteq> CHR ''E''); not_dot = (\<lambda>c. c \<noteq> CHR ''.'');
          m = takeWhile not_e s; e = dropWhile not_e s;
          ip = takeWhile not_dot m; fp = drop 1 (dropWhile not_dot m);
          ex = (if e = [] then Some 0 else exponent_value (drop 1 e))
      in if ip @ fp \<noteq> [] \<and> list_all (is_digit 10) (ip @ fp)
         then map_option (\<lambda>x. of_nat (digits_value 10 (ip @ fp) 0) * 10 powi (x - int (length fp))) ex
         else None)"

definition string_to_number :: "string \<Rightarrow> js_number" where
  "string_to_number raw =
     (let s = trim raw; p = take 2 s; neg = (take 1 s = ''-'');
          u = (if take 1 s = ''-'' \<or> take 1 s = ''+'' then drop 1 s else s)
      in if s = [] then 0
         else if p = ''0x'' \<or> p = ''0X'' then radix_literal 16 (drop 2 s)
         else if p = ''0o'' \<or> p = ''0O'' then radix_literal 8 (drop 2 s)
         else if p = ''0b'' \<or> p = ''0B'' then radix_literal 2 (drop 2 s)
         else if u = ''Infinity'' then (if neg then NInf else PInf)
         else case decimal_literal u of None \<Rightarrow> NaN
              | Some x \<Rightarrow> js_round (if neg then - x else x))"

text \<open>Decimal digits of a natural number, as configuration files write counts.\<close>

fun decimal :: "nat \<Rightarrow> string" where
  "decimal n = (if n < 10 then [char_of (48 + n)] else decimal (n div 10) @ [char_of (48 + n mod 10)])"

declare decimal.simps [simp del]

lemma digit_char:
  assumes "d < 10"
  shows "digit_value (char_of (48 + d)) = Some d" "is_digit 10 (char_of (48 + d))"
    "\<not> is_space (char_of (48 + d))"
  using assms by (auto simp: digit_value_def is_digit_def is_space_def Let_def of_char_of)

lemma digit_cases: "is_digit 10 c \<Longrightarrow> \<exists>d < 10. c = char_of (48 + d :: nat)"
proof -
  assume "is_digit 10 c"
  then have "48 \<le> (of_char c :: nat)" "of_char c \<le> (57 :: nat)"
    by (auto simp: is_digit_def digit_value_def Let_def split: if_splits)
  then have "of_char c = 48 + (of_char c - 48 :: nat)" "of_char c - 48 < (10 :: nat)" by auto
  then show ?thesis by (metis char_of_char)
qed

lemma digits_value_append:
  "digits_value radix (xs @ ys) acc = digits_value radix ys (digits_value radix xs acc)"
  by (induction radix xs acc rule: digits_value.induct) auto

lemma decimal_correct:
  "decimal n \<noteq> []" "list_all (is_digit 10) (decimal n)" "digits_value 10 (decimal n) 0 = n"
proof (induction n rule: decimal.induct)
  case (1 n)
  have m: "n mod 10 < 10" by simp
  { case 1 show ?case by (subst decimal.simps) simp }
  { case 2 show ?case using "1.IH" digit_char[OF m] digit_char[of n]
      by (subst decimal.simps) simp }
  { case 3 show ?case using "1.IH" digit_char[OF m] digit_char[of n]
      by (subst decimal.simps) (simp add: digits_value_append) }
qed

lemma takeWhile_all: "list_all P xs \<Longrightarrow> takeWhile P xs = xs" "list_all P xs \<Longrightarrow> dropWhile P xs = []"
  by (auto simp: list_all_iff)

lemma not_digit [simp]:
  "\<not> is_digit 10 CHR ''e''" "\<not> is_digit 10 CHR ''E''" "\<not> is_digit 10 CHR ''.''"
  "\<not> is_digit 10 CHR ''-''" "\<not> is_digit 10 CHR ''+''" "\<not> is_digit 10 CHR ''I''"
  "\<not> is_digit 10 CHR ''x''" "\<not> is_digit 10 CHR ''X''" "\<not> is_digit 10 CHR ''o''"
  "\<not> is_digit 10 CHR ''O''" "\<not> is_digit 10 CHR ''b''" "\<not> is_digit 10 CHR ''B''"
  by (simp_all add: is_digit_def digit_value_def)

lemma digits_avoid: "list_all (is_digit 10) s \<Longrightarrow> \<not> is_digit 10 c \<Longrightarrow> c \<notin> set s"
  by (auto simp: list_all_iff)

lemma trim_digits: "list_all (is_digit 10) s \<Longrightarrow> trim s = s"
proof -
  assume s: "list_all (is_digit 10) s"
  have ns: "\<not> is_space c" if "c \<in> set s" for c
    using s that digit_cases digit_char(3) by (metis list_all_iff)
  have "dropWhile is_space s = s" using ns by (cases s) auto
  moreover have "dropWhile is_space (rev s) = rev s"
    using ns last_in_set by (auto simp: dropWhile_eq_self_iff hd_rev)
  ultimately show ?thesis by (simp add: trim_def)
qed

lemma decimal_literal_digits:
  assumes s: "s \<noteq> []" "list_all (is_digit 10) s"
  shows "decimal_literal s = Some (of_nat (digits_value 10 s 0))"
proof -
  have "list_all (\<lambda>c. c \<noteq> CHR ''e'' \<and> c \<noteq> CHR ''E'') s" "list_all (\<lambda>c. c \<noteq> CHR ''.'') s"
    using s(2) by (auto simp: list_all_iff)
  then show ?thesis using s by (simp add: decimal_literal_def Let_def takeWhile_all)
qed

lemma string_to_number_digits:
  assumes s: "s \<noteq> []" "list_all (is_digit 10) s"
  shows "string_to_number s = js_round (of_nat (digits_value 10 s 0))"
proof -
  have avoid: "c \<notin> set s" if "\<not> is_digit 10 c" for c using digits_avoid[OF s(2) that] .
  have t2: "take 2 s \<noteq> [a, c]" if "\<not> is_digit 10 c" for a c
    using avoid[OF that] by (metis in_set_takeD list.set_intros(1) list.set_intros(2))
  have t1: "take (Suc 0) s \<noteq> [c]" if "\<not> is_digit 10 c" for c
    using avoid[OF that] by (metis in_set_takeD list.set_intros(1))
  have "s \<noteq> ''Infinity''" using avoid[of "CHR ''I''"] by auto
  then show ?thesis
    using s trim_digits[OF s(2)] decimal_literal_digits[OF s]
    by (simp add: string_to_number_def Let_def t1 t2)
qed

lemma string_to_number_decimal: "n \<le> 2 ^ 53 \<Longrightarrow> string_to_number (decimal n) = js_int (int n)"
  using decimal_correct[of n] js_round_of_int[of "int n"]
  by (simp add: string_to_number_digits)

end
