(* ===== verification/Wire_Types.thy ===== *)
theory Wire_Types
  imports JsNumber
begin

text \<open>
  The data the Worker exchanges (\<open>src/types.ts\<close>, \<open>src/env.d.ts\<close>). A TypeScript cast such
  as \<open>await request.json() as JobStartRequest\<close> does nothing at run time, so there is one
  record for the JSON object of a request body. It is built up request type by request
  type, in the order of the file, each extension adding the fields that its type adds; the
  last of them, \<open>json_object\<close>, has every field some handler reads. A field of a body holds a
  value of its declared type, is \<open>null\<close>, or is missing: the three cases the handlers'
  guards (\<open>!x\<close>, \<open>x?.y\<close>, \<open>x ?? d\<close>, \<open>Number.isFinite\<close>) tell apart.
\<close>

section \<open>Fields of a JSON object\<close>

datatype 'a field = Undefined | Null | Val 'a

text \<open>\<open>x ?? d\<close>\<close>

fun or_default :: "'a field \<Rightarrow> 'a \<Rightarrow> 'a" where
  "or_default (Val x) d = x"
| "or_default _ d = d"

text \<open>\<open>ToNumber\<close>, as \<open>Math.floor\<close> applies it to its argument.\<close>

fun to_number :: "js_number field \<Rightarrow> js_number" where
  "to_number (Val x) = x"
| "to_number Null = 0"
| "to_number Undefined = NaN"

text \<open>\<open>!x\<close> for a string field: missing, \<open>null\<close> and the empty string are falsy.\<close>

fun falsy :: "string field \<Rightarrow> bool" where
  "falsy (Val s) = (s = [])"
| "falsy _ = True"

fun text_of :: "string field \<Rightarrow> string" where
  "text_of (Val s) = s"
| "text_of _ = []"

text \<open>
  The body of a request as \<open>request.json()\<close> sees it: not JSON (the call throws), the JSON
  value \<open>null\<close>, or an object. Any other JSON value has none of the fields, so it is an
  object with every field missing.
\<close>

datatype 'a body = NotJson | JsonNull | JsonObject 'a

section \<open>Job and spawn status\<close>

datatype status = QUEUED | RUNNING | STOPPING | COMPLETED | STOPPED | FAILED

definition TERMINAL_STATUSES :: "status list" where
  "TERMINAL_STATUSES = [COMPLETED, STOPPED, FAILED]"

definition ACTIVE_STATUSES :: "status list" where
  "ACTIVE_STATUSES = [QUEUED, RUNNING]"

section \<open>Requests\<close>

record JobStartRequest =
  targetRPS :: "js_number field"
  agents :: "js_number field"
  workersPerAgent :: "js_number field"
  duration :: "js_number field"
  startDelaySeconds :: "js_number field"
  unthrottled :: "bool field"

record AgentPollRequest = JobStartRequest +
  token :: "string field"
  agentId :: "string field"
  region :: "string field"

record WatchRequest = AgentPollRequest +
  jobId :: "string field"

record SpawnStatusRequest = WatchRequest +
  spawnId :: "string field"

record SpawnMetricsReport = SpawnStatusRequest +
  tickNumber :: "js_number field"
  latency :: "js_number field"
  rps :: "js_number field"
  errorM1Rate :: "js_number field"
  count :: "js_number field"
  avgLatency :: "js_number field"
  actualRPS :: "js_number field"
  totalCount :: "js_number field"
  p50 :: "js_number field"
  p95 :: "js_number field"
  p99 :: "js_number field"
  bytes :: "js_number field"
  status4xx :: "js_number field"
  status5xx :: "js_number field"

record SpawnCompletionReport = SpawnMetricsReport +
  error :: "string field"

type_synonym json_object = SpawnCompletionReport

text \<open>\<open>{}\<close>: the object with no field.\<close>

definition empty_object :: json_object where
  "empty_object =
     \<lparr>targetRPS = Undefined, agents = Undefined, workersPerAgent = Undefined,
      duration = Undefined, startDelaySeconds = Undefined, unthrottled = Undefined,
      token = Undefined, agentId = Undefined, region = Undefined, jobId = Undefined,
      spawnId = Undefined, tickNumber = Undefined, latency = Undefined, rps = Undefined,
      errorM1Rate = Undefined, count = Undefined, avgLatency = Undefined,
      actualRPS = Undefined, totalCount = Undefined, p50 = Undefined, p95 = Undefined,
      p99 = Undefined, bytes = Undefined, status4xx = Undefined, status5xx = Undefined,
      error = Undefined\<rparr>"

section \<open>Responses\<close>

text \<open>
  The message texts, one constructor per template literal of the source, with the values the
  template interpolates.
\<close>

datatype message =
    MustBePositive string \<comment> \<open>\<open>${name} must be a positive number\<close>\<close>
  | StartDelayNegative \<comment> \<open>\<open>startDelaySeconds must be zero or greater\<close>\<close>
  | TooManyAgents int \<comment> \<open>\<open>agents must be at most ${MAX_AGENTS_PER_JOB}\<close>\<close>
  | TargetBelowAgents \<comment> \<open>\<open>targetRPS must be at least the number of agents ...\<close>\<close>
  | TooManyWorkers js_number \<comment> \<open>\<open>workersPerAgent must be at most ${workerCap}, ...\<close>\<close>
  | JobStillActive string \<comment> \<open>\<open>job ${active["JOB_ID"]} is still active; ...\<close>\<close>
  | JobQueued js_number \<comment> \<open>\<open>Job queued. Load starts in ${startDelaySeconds}s ...\<close>\<close>
  | AgentIdRequired \<comment> \<open>\<open>agentId is required\<close>\<close>
  | SlotsFilled string int \<comment> \<open>\<open>job ${jobId} has all ${agents} slots filled\<close>\<close>
  | NoJobId \<comment> \<open>\<open>No JobID provided\<close>\<close>
  | NoSuchJob \<comment> \<open>\<open>Job ID doesn't exist\<close>\<close>
  | StopRequested \<comment> \<open>\<open>Stop requested; agents wind down within ~10s\<close>\<close>
  | AlreadyFinished \<comment> \<open>\<open>Job was already finished or does not exist\<close>\<close>

record JobStartResponse =
  start_status :: string
  start_message :: message
  start_request :: json_object
  start_jobId :: "string option"

record assignment =
  run_jobId :: string
  run_spawnId :: string
  run_targetRPS :: js_number
  run_workers :: int
  run_startAt :: "rat option"
  run_stopAt :: "rat option"
  run_unthrottled :: bool

datatype AgentPollResponse = Idle "message option" | Run assignment

record SpawnMetric =
  metric_createdAt :: int
  metric_latency :: "rat option"
  metric_rps :: "rat option"
  metric_errorM1Rate :: "rat option"
  metric_workerCount :: nat
  metric_p95 :: "rat option"
  metric_p99 :: "rat option"
  metric_bytes :: "rat option"

record WatchResponse =
  watch_jobId :: string
  watch_status :: "status option" \<comment> \<open>\<open>None\<close> is \<open>"unknown"\<close>\<close>
  watch_message :: "message option"
  watch_created_at :: "int option"
  watch_rps :: "int option"
  watch_running :: nat
  watch_metrics :: "SpawnMetric list"

record JobSummary =
  sum_jobId :: string
  sum_status :: status
  sum_rps :: int
  sum_concurrency :: int
  sum_duration :: int
  sum_created_at :: int
  sum_updated_at :: int

type_synonym JobsResponse = "JobSummary list"

section \<open>The environment of the Worker\<close>

record env =
  AGENT_TOKEN :: "string option"
  ADMIN_TOKEN :: "string option"
  DEPLOYMENT_AGENTS :: "string option"
  MAX_WORKERS_PER_AGENT :: "string option"

end
