(* ===== verification/Async.thy ===== *)
theory Async
  imports Prelude
begin

text \<open>
  Asynchronous handlers. A handler of the Worker runs until it awaits the database, the
  clock or another service, and other handlers may run before it goes on. \<open>prog\<close> is such a
  handler as a tree: it has returned, it has thrown, or its next atomic action on the shared
  world is known together with how the handler goes on from the action's result. One
  definition of a handler then has two meanings: \<open>run\<close> executes it alone, from start to
  end, and \<open>pool_step\<close> executes any number of handlers interleaved at their awaits.

  The locale \<open>rely_guarantee\<close> is the contract under which a handler is correct whatever
  runs between its actions: an invariant of the world, and a relation that says how the
  world may change. Every atomic action keeps the invariant and stays within the relation,
  and may use what the handler saw earlier only as far as the relation preserves it.
\<close>

section \<open>Handlers as trees of atomic actions\<close>

datatype js_error =
    Unauthorized string
  | SyntaxError
  | TypeError
  | D1Error

datatype ('w, 'r) prog =
    Return 'r
  | Throw js_error
  | Atomic "'w \<Rightarrow> 'w \<times> ('w, 'r) prog"

text \<open>\<open>await q k\<close> is \<open>const x = await q; k(x)\<close>: a failed action makes the await throw.\<close>

definition await :: "('w \<Rightarrow> (js_error + 'a) \<times> 'w) \<Rightarrow> ('a \<Rightarrow> ('w, 'r) prog) \<Rightarrow> ('w, 'r) prog" where
  "await q k =
     Atomic (\<lambda>w. case q w of (Inl e, w') \<Rightarrow> (w', Throw e) | (Inr x, w') \<Rightarrow> (w', k x))"

text \<open>\<open>catch p h\<close> is \<open>try { p } catch (e) { h(e) }\<close>, \<open>bind\<close> awaits the result of a handler.\<close>

primrec catch :: "('w, 'r) prog \<Rightarrow> (js_error \<Rightarrow> ('w, 'r) prog) \<Rightarrow> ('w, 'r) prog" where
  "catch (Return x) h = Return x"
| "catch (Throw e) h = h e"
| "catch (Atomic f) h = Atomic (\<lambda>w. map_prod id (\<lambda>p. catch p h) (f w))"

primrec bind :: "('w, 'a) prog \<Rightarrow> ('a \<Rightarrow> ('w, 'r) prog) \<Rightarrow> ('w, 'r) prog" where
  "bind (Return x) k = k x"
| "bind (Throw e) k = Throw e"
| "bind (Atomic f) k = Atomic (\<lambda>w. map_prod id (\<lambda>p. bind p k) (f w))"

text \<open>A handler run alone.\<close>

primrec run :: "('w, 'r) prog \<Rightarrow> 'w \<Rightarrow> (js_error + 'r) \<times> 'w" where
  "run (Return x) = (\<lambda>w. (Inr x, w))"
| "run (Throw e) = (\<lambda>w. (Inl e, w))"
| "run (Atomic f) = (\<lambda>w. case map_prod id run (f w) of (w', r) \<Rightarrow> r w')"

lemma run_Atomic: "run (Atomic f) w = (case f w of (w', p) \<Rightarrow> run p w')"
  by (simp split: prod.split)

declare run.simps(3) [simp del]

lemma run_await [simp]:
  "run (await q k) w =
     (case q w of (Inl e, w') \<Rightarrow> (Inl e, w') | (Inr x, w') \<Rightarrow> run (k x) w')"
  by (simp add: await_def run_Atomic split: prod.split sum.split)

lemma run_bind:
  "run (bind p k) w = (case run p w of (Inl e, w') \<Rightarrow> (Inl e, w') | (Inr x, w') \<Rightarrow> run (k x) w')"
proof (induction p arbitrary: w)
  case (Atomic f)
  show ?case
  proof (cases "f w")
    case (Pair w' p)
    have "f w \<in> range f" by simp
    moreover from Pair have "p \<in> Basic_BNFs.snds (f w)" by simp
    ultimately have "p \<in> Basic_BNFs.snds (f w)" "f w \<in> range f" by simp_all
    from Atomic[OF this(2) this(1)] Pair show ?thesis by (simp add: run_Atomic)
  qed
qed auto

lemma run_catch:
  "run (catch p h) w = (case run p w of (Inl e, w') \<Rightarrow> run (h e) w' | (Inr x, w') \<Rightarrow> (Inr x, w'))"
proof (induction p arbitrary: w)
  case (Atomic f)
  show ?case
  proof (cases "f w")
    case (Pair w' p)
    have "f w \<in> range f" by simp
    moreover from Pair have "p \<in> Basic_BNFs.snds (f w)" by simp
    ultimately have "p \<in> Basic_BNFs.snds (f w)" "f w \<in> range f" by simp_all
    from Atomic[OF this(2) this(1)] Pair show ?thesis by (simp add: run_Atomic)
  qed
qed auto

section \<open>Handlers that always answer\<close>

text \<open>No action of such a handler, whatever the world it finds, leads to a thrown error.\<close>

inductive never_throws :: "('w, 'r) prog \<Rightarrow> bool" where
  nt_Return: "never_throws (Return x)"
| nt_Atomic: "(\<And>w. never_throws (snd (f w))) \<Longrightarrow> never_throws (Atomic f)"

inductive_simps never_throws_simps [simp]:
  "never_throws (Return x)" "never_throws (Throw e)" "never_throws (Atomic f)"

lemma never_throws_catch:
  "(\<And>e. never_throws (h e)) \<Longrightarrow> never_throws (catch p h)"
proof (induction p)
  case (Atomic f)
  have "never_throws (catch (snd (f w)) h)" for w
    by (rule Atomic.IH[OF rangeI[of f w]]) (auto intro: Atomic.prems simp: prod_set_simps(2) snds.simps)
  then show ?case by simp
qed auto

lemma never_throws_bind:
  "never_throws p \<Longrightarrow> (\<And>x. never_throws (k x)) \<Longrightarrow> never_throws (bind p k)"
  by (induction rule: never_throws.induct) auto

lemma never_throws_run: "never_throws p \<Longrightarrow> \<exists>x w'. run p w = (Inr x, w')"
proof (induction arbitrary: w rule: never_throws.induct)
  case (nt_Atomic f)
  obtain w1 p1 where f: "f w = (w1, p1)" by (cases "f w")
  with nt_Atomic.IH[of w w1] show ?case by (simp add: run_Atomic)
qed auto

section \<open>Rely and guarantee\<close>

locale rely_guarantee =
  fixes inv :: "'w \<Rightarrow> bool" and rely :: "'w \<Rightarrow> 'w \<Rightarrow> bool"
  assumes rely_refl: "rely w w"
    and rely_trans: "rely w w' \<Longrightarrow> rely w' w'' \<Longrightarrow> rely w w''"
begin

text \<open>
  \<open>safe Q w p\<close>: whatever allowed steps others take from \<open>w\<close> on, each action of \<open>p\<close> keeps
  the invariant and is itself allowed, and a result satisfies \<open>Q\<close> when it is returned.
\<close>

inductive safe :: "('w \<Rightarrow> 'r \<Rightarrow> bool) \<Rightarrow> 'w \<Rightarrow> ('w, 'r) prog \<Rightarrow> bool"
  for Q :: "'w \<Rightarrow> 'r \<Rightarrow> bool" where
  Return: "(\<And>w'. rely w w' \<Longrightarrow> inv w' \<Longrightarrow> Q w' x) \<Longrightarrow> safe Q w (Return x)"
| Throw: "safe Q w (Throw e)"
| Atomic: "(\<And>w'. rely w w' \<Longrightarrow> inv w' \<Longrightarrow>
      inv (fst (f w')) \<and> rely w' (fst (f w')) \<and> safe Q (fst (f w')) (snd (f w')))
    \<Longrightarrow> safe Q w (Atomic f)"

inductive_cases safe_ReturnE: "safe Q w (Return x)"
inductive_cases safe_AtomicE: "safe Q w (Atomic f)"

lemma safe_later: "safe Q w p \<Longrightarrow> rely w w' \<Longrightarrow> safe Q w' p"
  by (erule safe.cases) (auto intro!: safe.intros dest: rely_trans)

lemma safe_await:
  assumes "\<And>w' r w''. rely w w' \<Longrightarrow> inv w' \<Longrightarrow> q w' = (r, w'') \<Longrightarrow>
    inv w'' \<and> rely w' w'' \<and> (\<forall>x. r = Inr x \<longrightarrow> safe Q w'' (k x))"
  shows "safe Q w (await q k)"
  unfolding await_def
proof (rule safe.Atomic)
  fix w' assume w': "rely w w'" "inv w'"
  obtain r w'' where q: "q w' = (r, w'')" by (cases "q w'")
  from assms[OF w' q] q
  show "inv (fst (case q w' of (Inl e, w') \<Rightarrow> (w', Throw e) | (Inr x, w') \<Rightarrow> (w', k x))) \<and>
    rely w' (fst (case q w' of (Inl e, w') \<Rightarrow> (w', Throw e) | (Inr x, w') \<Rightarrow> (w', k x))) \<and>
    safe Q (fst (case q w' of (Inl e, w') \<Rightarrow> (w', Throw e) | (Inr x, w') \<Rightarrow> (w', k x)))
      (snd (case q w' of (Inl e, w') \<Rightarrow> (w', Throw e) | (Inr x, w') \<Rightarrow> (w', k x)))"
    by (auto split: sum.split intro: safe.Throw)
qed

lemma safe_await_any:
  assumes "\<And>w. inv w \<Longrightarrow> inv (snd (q w)) \<and> rely w (snd (q w))" and "\<And>w x. safe Q w (k x)"
  shows "safe Q w (await q k)"
  using assms(1) by (intro safe_await) (auto intro: assms(2) dest: assms(1) simp: prod_eq_iff)

lemma safe_catch:
  assumes "safe Q w p" and "\<And>w' e. safe Q w' (h e)"
  shows "safe Q w (catch p h)"
  using assms(1)
proof (induction rule: safe.induct)
  case (Atomic w f)
  show ?case unfolding catch.simps
    by (rule safe.Atomic) (use Atomic in auto)
qed (auto intro: safe.intros assms(2))

lemma safe_bind:
  assumes "safe Q w p" and "\<And>w x. (\<And>w'. rely w w' \<Longrightarrow> inv w' \<Longrightarrow> Q w' x) \<Longrightarrow> safe Q' w (k x)"
  shows "safe Q' w (bind p k)"
  using assms(1)
proof (induction rule: safe.induct)
  case (Atomic w f)
  show ?case unfolding bind.simps
    by (rule safe.Atomic) (use Atomic in auto)
qed (auto intro: safe.intros assms(2))

text \<open>Run alone from a good world, a safe handler ends in a good world.\<close>

lemma safe_run:
  "safe Q w p \<Longrightarrow> inv w \<Longrightarrow> run p w = (r, w') \<Longrightarrow>
    inv w' \<and> rely w w' \<and> (\<forall>x. r = Inr x \<longrightarrow> Q w' x)"
proof (induction arbitrary: r w' rule: safe.induct)
  case (Atomic w f)
  obtain w1 p1 where f: "f w = (w1, p1)" by (cases "f w")
  with Atomic.IH[OF rely_refl Atomic.prems(1)] Atomic.prems(2)
  have "inv w' \<and> rely w1 w' \<and> (\<forall>x. r = Inr x \<longrightarrow> Q w' x)" and "rely w w1"
    by (auto simp: run_Atomic)
  then show ?case using rely_trans by blast
qed (auto intro: rely_refl)

end

section \<open>Handlers interleaved\<close>

text \<open>
  A pool of running handlers over a shared world. One step lets one handler do its next
  atomic action, lets the world change on its own, adds a new handler, or loses one (a
  Worker invocation may be killed between two awaits).
\<close>

record ('w, 'r) pool =
  shared :: 'w
  running :: "('w, 'r) prog list"

inductive pool_step ::
    "('w \<Rightarrow> 'w \<Rightarrow> bool) \<Rightarrow> (('w, 'r) prog \<Rightarrow> bool) \<Rightarrow> ('w, 'r) pool \<Rightarrow> ('w, 'r) pool \<Rightarrow> bool"
  for env :: "'w \<Rightarrow> 'w \<Rightarrow> bool" and handler :: "('w, 'r) prog \<Rightarrow> bool" where
  arrive: "handler p \<Longrightarrow> pool_step env handler s (s\<lparr>running := running s @ [p]\<rparr>)"
| act: "i < length (running s) \<Longrightarrow> running s ! i = Atomic f \<Longrightarrow> f (shared s) = (w', p') \<Longrightarrow>
    pool_step env handler s (s\<lparr>shared := w', running := (running s)[i := p']\<rparr>)"
| killed: "i < length (running s) \<Longrightarrow>
    pool_step env handler s (s\<lparr>running := take i (running s) @ drop (Suc i) (running s)\<rparr>)"
| outside: "env (shared s) w' \<Longrightarrow> pool_step env handler s (s\<lparr>shared := w'\<rparr>)"

inductive pool_reach ::
    "('w \<Rightarrow> 'w \<Rightarrow> bool) \<Rightarrow> (('w, 'r) prog \<Rightarrow> bool) \<Rightarrow> ('w, 'r) pool \<Rightarrow> ('w, 'r) pool \<Rightarrow> bool"
  for env :: "'w \<Rightarrow> 'w \<Rightarrow> bool" and handler :: "('w, 'r) prog \<Rightarrow> bool" where
  here: "pool_reach env handler s s"
| next_step: "pool_reach env handler s t \<Longrightarrow> pool_step env handler t u \<Longrightarrow> pool_reach env handler s u"

context rely_guarantee begin

definition pool_ok :: "('w \<Rightarrow> 'r \<Rightarrow> bool) \<Rightarrow> ('w, 'r) pool \<Rightarrow> bool" where
  "pool_ok Q s \<longleftrightarrow> inv (shared s) \<and> (\<forall>p \<in> set (running s). safe Q (shared s) p)"

lemma pool_step_ok:
  assumes "pool_step env handler s t"
    and handler: "\<And>p w. handler p \<Longrightarrow> safe Q w p"
    and env: "\<And>w w'. env w w' \<Longrightarrow> inv w \<Longrightarrow> inv w' \<and> rely w w'"
    and ok: "pool_ok Q s"
  shows "pool_ok Q t \<and> rely (shared s) (shared t)"
  using assms(1)
proof cases
  case (arrive p)
  with ok handler show ?thesis by (auto simp: pool_ok_def rely_refl)
next
  case (act i f w' p')
  with ok have "safe Q (shared s) (Atomic f)" "inv (shared s)"
    by (auto simp: pool_ok_def) (metis nth_mem)
  then have a: "inv w' \<and> rely (shared s) w' \<and> safe Q w' p'"
    using act(4) rely_refl by (fastforce elim: safe_AtomicE)
  have "safe Q w' p" if "p \<in> set ((running s)[i := p'])" for p
  proof -
    from that have "p = p' \<or> p \<in> set (running s)"
      using set_update_subset_insert[of "running s" i p'] by blast
    with a ok show ?thesis by (auto simp: pool_ok_def intro: safe_later)
  qed
  with a act(1) show ?thesis by (simp add: pool_ok_def)
next
  case (killed i)
  with ok show ?thesis
    by (auto simp: pool_ok_def rely_refl dest: in_set_takeD in_set_dropD)
next
  case (outside w')
  with ok env show ?thesis by (auto simp: pool_ok_def intro: safe_later)
qed

lemma pool_reach_ok:
  assumes "pool_reach env handler s t"
    and "\<And>p w. handler p \<Longrightarrow> safe Q w p"
    and "\<And>w w'. env w w' \<Longrightarrow> inv w \<Longrightarrow> inv w' \<and> rely w w'"
    and "pool_ok Q s"
  shows "pool_ok Q t \<and> rely (shared s) (shared t)"
  using assms(1,4)
proof (induction rule: pool_reach.induct)
  case (here s)
  then show ?case using rely_refl by blast
next
  case (next_step s t u)
  then have "pool_ok Q t" "rely (shared s) (shared t)" by blast+
  with pool_step_ok[OF next_step(2) assms(2,3)] show ?case using rely_trans by blast
qed

end

end
