(* ===== verification/Database.thy ===== *)
theory Database
  imports Wire_Types Async
begin

text \<open>
  The D1 database (\<open>migrations/*.sql\<close>): three tables as lists of rows in insertion order,
  together with the wall clock in epoch milliseconds, the world the handlers share. The SQL
  statements are defined beside the handlers that issue them, each as one atomic step on
  this world. SQL numbers are rationals and \<open>NULL\<close> is \<open>None\<close>; a timestamp column
  (\<open>current_timestamp\<close>, one second resolution) is its epoch second.

  The section on evolution says what no statement ever changes: a row is never deleted, a
  job keeps every column but its status, stop time and update time and its status only
  moves forward, a spawn keeps its identity and slot.
\<close>

section \<open>Tables\<close>

record job =
  JOB_ID :: string
  RPS :: int
  CONCURRENCY :: int
  AGENTS :: int
  WORKERS_PER_AGENT :: int
  DURATION :: int
  START_AT :: "rat option"
  STOP_AT :: "rat option"
  UNTHROTTLED :: int
  STATUS :: status
  CREATED_AT :: int
  UPDATED_AT :: int

record spawn =
  SPAWN_ID :: string
  SPAWN_JOB :: string
  AGENT_ID :: string
  REGION :: string
  SPAWN_STATUS :: status
  SLOT :: nat
  LAST_SEEN :: "int option"
  AVG_LATENCY :: "rat option"
  AVG_RPS :: "rat option"
  SPAWN_COUNT :: "rat option"
  SPAWN_CREATED :: int
  SPAWN_UPDATED :: int

record metric =
  METRIC_ID :: string
  METRIC_SPAWN :: string
  METRIC_JOB :: string
  TICK_NUMBER :: "rat option"
  LATENCY :: "rat option"
  METRIC_RPS :: "rat option"
  ERROR_M1_RATE :: "rat option"
  COUNT :: "rat option"
  P50 :: "rat option"
  P95 :: "rat option"
  P99 :: "rat option"
  BYTES :: "rat option"
  STATUS_4XX :: "rat option"
  STATUS_5XX :: "rat option"
  METRIC_CREATED :: int

record world =
  clock :: int
  jobs :: "job list"
  spawns :: "spawn list"
  metrics :: "metric list"

type_synonym 'r handler = "(world, 'r) prog"
type_synonym 'a sql = "world \<Rightarrow> (js_error + 'a) \<times> world"

section \<open>Values crossing the database boundary\<close>

text \<open>\<open>current_timestamp\<close>, in whole seconds.\<close>

definition current_timestamp :: "world \<Rightarrow> int" where
  "current_timestamp w = clock w div 1000"

text \<open>\<open>Date.now()\<close>: reading the clock is an action of its own, since time passes at awaits.\<close>

definition date_now :: "int sql" where
  "date_now w = (Inr (clock w), w)"

text \<open>A number bound to a statement: a non-finite number becomes \<open>NULL\<close>.\<close>

fun sql_number :: "js_number \<Rightarrow> rat option" where
  "sql_number (Fin x) = Some x"
| "sql_number _ = None"

text \<open>A field bound as it is: binding \<open>undefined\<close> throws before anything is sent.\<close>

fun bind_number :: "js_number field \<Rightarrow> js_error + rat option" where
  "bind_number (Val x) = Inr (sql_number x)"
| "bind_number Null = Inr None"
| "bind_number Undefined = Inl D1Error"

text \<open>A column read back and compared as a number: \<open>null\<close> counts as 0.\<close>

fun column_number :: "rat option \<Rightarrow> js_number" where
  "column_number (Some x) = Fin x"
| "column_number None = 0"

text \<open>\<open>column < ?\<close> in SQL: never true for \<open>NULL\<close>.\<close>

fun sql_less :: "rat option \<Rightarrow> rat \<Rightarrow> bool" where
  "sql_less (Some x) y = (x < y)"
| "sql_less None y = False"

text \<open>The integer a finite, floored number stands for.\<close>

fun js_to_int :: "js_number \<Rightarrow> int" where
  "js_to_int (Fin x) = \<lfloor>x\<rfloor>"
| "js_to_int _ = 0"

lemma js_to_int_js_int [simp]: "js_to_int (js_int n) = n"
  by (simp add: js_int_def)

lemma column_number_of_int [simp]: "column_number (Some (of_int n)) = js_int n"
  by (simp add: js_int_def)

lemma sql_number_js_int [simp]: "sql_number (js_int n) = Some (of_int n)"
  by (simp add: js_int_def)

lemma sql_less_of_int [simp]: "sql_less (Some (of_int a)) (of_int b) \<longleftrightarrow> a < b"
  by simp

section \<open>Reading one row\<close>

definition find_job :: "string \<Rightarrow> world \<Rightarrow> job option" where
  "find_job j w = find_row JOB_ID j (jobs w)"

definition find_spawn :: "string \<Rightarrow> world \<Rightarrow> spawn option" where
  "find_spawn i w = find_row SPAWN_ID i (spawns w)"

definition spawns_of :: "string \<Rightarrow> world \<Rightarrow> spawn list" where
  "spawns_of j w = filter (\<lambda>s. SPAWN_JOB s = j) (spawns w)"

text \<open>\<open>SELECT COUNT(*) FROM JOB_SPAWNS WHERE JOB_ID = ?\<close>, and the same with a status.\<close>

definition count_spawns :: "string \<Rightarrow> world \<Rightarrow> nat" where
  "count_spawns j w = count_rows (\<lambda>s. SPAWN_JOB s = j) (spawns w)"

definition count_running :: "string \<Rightarrow> world \<Rightarrow> nat" where
  "count_running j w = count_rows (\<lambda>s. SPAWN_JOB s = j \<and> SPAWN_STATUS s = RUNNING) (spawns w)"

lemma count_spawns_length: "count_spawns j w = length (spawns_of j w)"
  by (simp add: count_spawns_def spawns_of_def count_rows_def)

text \<open>A query that only reads.\<close>

definition query :: "(world \<Rightarrow> 'a) \<Rightarrow> 'a sql" where
  "query q w = (Inr (q w), w)"

section \<open>Column updates\<close>

text \<open>
  \<open>UPDATE JOBS SET STATUS = st, UPDATED_AT = current_timestamp WHERE P\<close>, and the same for
  \<open>JOB_SPAWNS\<close>.
\<close>

definition set_job_status :: "status \<Rightarrow> (job \<Rightarrow> bool) \<Rightarrow> world \<Rightarrow> world" where
  "set_job_status st P w =
     w\<lparr>jobs := update_rows P (\<lambda>j. j\<lparr>STATUS := st, UPDATED_AT := current_timestamp w\<rparr>) (jobs w)\<rparr>"

definition set_spawn_status :: "status \<Rightarrow> (spawn \<Rightarrow> bool) \<Rightarrow> world \<Rightarrow> world" where
  "set_spawn_status st P w =
     w\<lparr>spawns := update_rows P
        (\<lambda>s. s\<lparr>SPAWN_STATUS := st, SPAWN_UPDATED := current_timestamp w\<rparr>) (spawns w)\<rparr>"

interpretation job_status_update: keyed_update JOB_ID "\<lambda>j. j\<lparr>STATUS := st, UPDATED_AT := t\<rparr>"
  by unfold_locales simp

interpretation spawn_status_update:
  keyed_update SPAWN_ID "\<lambda>s. s\<lparr>SPAWN_STATUS := st, SPAWN_UPDATED := t\<rparr>"
  by unfold_locales simp

interpretation seen_update: keyed_update SPAWN_ID "\<lambda>s. s\<lparr>LAST_SEEN := t\<rparr>"
  by unfold_locales simp

lemma set_job_status_frame [simp]:
  "clock (set_job_status st P w) = clock w"
  "spawns (set_job_status st P w) = spawns w"
  "metrics (set_job_status st P w) = metrics w"
  "current_timestamp (set_job_status st P w) = current_timestamp w"
  by (simp_all add: set_job_status_def current_timestamp_def)

lemma set_spawn_status_frame [simp]:
  "clock (set_spawn_status st P w) = clock w"
  "jobs (set_spawn_status st P w) = jobs w"
  "metrics (set_spawn_status st P w) = metrics w"
  "current_timestamp (set_spawn_status st P w) = current_timestamp w"
  by (simp_all add: set_spawn_status_def current_timestamp_def)

lemma find_job_set_status:
  "find_job i (set_job_status st P w) =
     map_option (\<lambda>j. if P j then j\<lparr>STATUS := st, UPDATED_AT := current_timestamp w\<rparr> else j)
       (find_job i w)"
  by (simp add: find_job_def set_job_status_def job_status_update.find_after_update)

lemma find_job_set_spawn_status [simp]:
  "find_job i (set_spawn_status st P w) = find_job i w"
  by (simp add: find_job_def)

lemma find_spawn_set_status:
  "find_spawn i (set_spawn_status st P w) =
     map_option (\<lambda>s. if P s then s\<lparr>SPAWN_STATUS := st, SPAWN_UPDATED := current_timestamp w\<rparr> else s)
       (find_spawn i w)"
  by (simp add: find_spawn_def set_spawn_status_def spawn_status_update.find_after_update)

lemma find_spawn_set_job_status [simp]:
  "find_spawn i (set_job_status st P w) = find_spawn i w"
  by (simp add: find_spawn_def)

lemma count_spawns_frame [simp]:
  "count_spawns j (set_job_status st P w) = count_spawns j w"
  "count_spawns j (set_spawn_status st P' w) = count_spawns j w"
  "count_running j (set_job_status st P w) = count_running j w"
  by (simp_all add: count_spawns_def count_running_def set_spawn_status_def count_update_rows)

lemma find_jobD: "find_job j w = Some r \<Longrightarrow> r \<in> set (jobs w) \<and> JOB_ID r = j"
  unfolding find_job_def by (rule find_row_Some)

lemma find_spawnD: "find_spawn i w = Some s \<Longrightarrow> s \<in> set (spawns w) \<and> SPAWN_ID s = i"
  unfolding find_spawn_def by (rule find_row_Some)

lemma job_status_after:
  "map_option STATUS (find_job j (set_job_status st (\<lambda>r. JOB_ID r = j \<and> P r) w)) =
     map_option (\<lambda>r. if P r then st else STATUS r) (find_job j w)"
  by (cases "find_job j w") (auto simp: find_job_set_status dest: find_jobD)

lemma spawn_status_after:
  "map_option SPAWN_STATUS (find_spawn i (set_spawn_status st (\<lambda>s. SPAWN_ID s = i) w)) =
     map_option (\<lambda>_. st) (find_spawn i w)"
  by (cases "find_spawn i w") (auto simp: find_spawn_set_status dest: find_spawnD)

lemma run_query [simp]: "run (await (query f) k) w = run (k (f w)) w"
  by (simp add: query_def)

section \<open>Evolution of the world\<close>

text \<open>
  The abstract lifecycle of a job: \<open>status_next a b\<close> holds when one statement may move a
  job's status from \<open>a\<close> to \<open>b\<close>. The order of the type \<open>status\<close> is its reflexive closure, which
  is transitive: \<open>a \<le> b\<close> when a job may go from \<open>a\<close> to \<open>b\<close>.
\<close>

fun status_next :: "status \<Rightarrow> status \<Rightarrow> bool" where
  "status_next QUEUED b = (b \<noteq> QUEUED)"
| "status_next RUNNING b = (b \<in> {STOPPING, COMPLETED, STOPPED, FAILED})"
| "status_next STOPPING b = (b \<in> {STOPPING, COMPLETED, STOPPED, FAILED})"
| "status_next _ b = False"

instantiation status :: order
begin

definition less_eq_status :: "status \<Rightarrow> status \<Rightarrow> bool" where
  "less_eq_status a b \<longleftrightarrow> a = b \<or> status_next a b"

definition less_status :: "status \<Rightarrow> status \<Rightarrow> bool" where
  "less_status a b \<longleftrightarrow> a \<noteq> b \<and> status_next a b"

instance
proof
  fix a b c :: status
  show "a \<le> a" by (simp add: less_eq_status_def)
  show "(a < b) = (a \<le> b \<and> \<not> b \<le> a)"
    by (cases a; cases b) (simp_all add: less_eq_status_def less_status_def)
  show "a \<le> b \<Longrightarrow> b \<le> c \<Longrightarrow> a \<le> c"
    by (cases a; cases b; cases c) (simp_all add: less_eq_status_def)
  show "a \<le> b \<Longrightarrow> b \<le> a \<Longrightarrow> a = b"
    by (cases a; cases b) (simp_all add: less_eq_status_def)
qed

end

definition terminal :: "status \<Rightarrow> bool" where
  "terminal st \<longleftrightarrow> st \<in> set TERMINAL_STATUSES"

lemma terminal_simps [simp]:
  "terminal COMPLETED" "terminal STOPPED" "terminal FAILED"
  "\<not> terminal QUEUED" "\<not> terminal RUNNING" "\<not> terminal STOPPING"
  by (simp_all add: terminal_def TERMINAL_STATUSES_def)

lemma terminal_final: "terminal a \<Longrightarrow> a \<le> b \<Longrightarrow> b = a"
  by (cases a) (auto simp: less_eq_status_def)

definition job_evolves :: "job \<Rightarrow> job \<Rightarrow> bool" where
  "job_evolves j j' \<longleftrightarrow>
     j' = j\<lparr>STATUS := STATUS j', STOP_AT := STOP_AT j', UPDATED_AT := UPDATED_AT j'\<rparr> \<and>
     STATUS j \<le> STATUS j'"

definition spawn_evolves :: "spawn \<Rightarrow> spawn \<Rightarrow> bool" where
  "spawn_evolves s s' \<longleftrightarrow>
     SPAWN_ID s' = SPAWN_ID s \<and> SPAWN_JOB s' = SPAWN_JOB s \<and> AGENT_ID s' = AGENT_ID s \<and>
     SLOT s' = SLOT s"

definition evolves :: "world \<Rightarrow> world \<Rightarrow> bool" where
  "evolves w w' \<longleftrightarrow>
     clock w \<le> clock w' \<and>
     extends job_evolves (jobs w) (jobs w') \<and>
     extends spawn_evolves (spawns w) (spawns w') \<and>
     prefix (metrics w) (metrics w')"

lemma job_evolves_refl [simp]: "job_evolves j j"
  by (simp add: job_evolves_def)

lemma job_evolves_trans: "job_evolves a b \<Longrightarrow> job_evolves b c \<Longrightarrow> job_evolves a c"
  unfolding job_evolves_def
  by (cases a; cases b; cases c) (auto intro: order_trans)

lemma job_evolvesD:
  assumes "job_evolves j j'"
  shows "JOB_ID j' = JOB_ID j" "RPS j' = RPS j" "AGENTS j' = AGENTS j"
    "WORKERS_PER_AGENT j' = WORKERS_PER_AGENT j" "START_AT j' = START_AT j"
    "UNTHROTTLED j' = UNTHROTTLED j" "DURATION j' = DURATION j" "CREATED_AT j' = CREATED_AT j"
    "STATUS j \<le> STATUS j'"
  using assms unfolding job_evolves_def by (cases j; cases j'; simp)+

lemma spawn_evolves_refl [simp]: "spawn_evolves s s"
  by (simp add: spawn_evolves_def)

lemma spawn_evolves_trans: "spawn_evolves a b \<Longrightarrow> spawn_evolves b c \<Longrightarrow> spawn_evolves a c"
  by (simp add: spawn_evolves_def)

lemma evolves_refl [simp]: "evolves w w"
  by (simp add: evolves_def extends_refl)

lemma evolves_trans: "evolves a b \<Longrightarrow> evolves b c \<Longrightarrow> evolves a c"
  unfolding evolves_def
  by (auto intro: extends_trans[OF job_evolves_trans] extends_trans[OF spawn_evolves_trans]
      order_trans prefix_order.trans)

end
