(* ===== verification/Agents.thy ===== *)
theory Agents
  imports Database "HOL-Library.Word"
begin

text \<open>
  The agent registry (\<open>src/agents.ts\<close>): the shared-token check, the split of a job's target
  rate over its slots, and the poll handler that hands out slots.
\<close>

unbundle bit_operations_syntax

section \<open>Token comparison\<close>

text \<open>
  \<open>charCodeAt\<close> as the 32-bit integer the bitwise operators work on, and the loop
  \<open>diff |= expected.charCodeAt(i) ^ presented.charCodeAt(i)\<close> over the expected token.
\<close>

definition char_code :: "string \<Rightarrow> nat \<Rightarrow> 32 word" where
  "char_code s i = (if i < length s then word_of_nat (of_char (s ! i)) else 0)"

definition token_diff :: "string \<Rightarrow> string \<Rightarrow> 32 word" where
  "token_diff expected presented =
     foldl (\<lambda>diff i. diff OR (char_code expected i XOR char_code presented i)) 0
       [0..<length expected]"

definition verify_agent_token :: "env \<Rightarrow> string field \<Rightarrow> bool" where
  "verify_agent_token env presented =
     (case AGENT_TOKEN env of
        None \<Rightarrow> False
      | Some expected \<Rightarrow>
          if expected = [] \<or> falsy presented \<or> length (text_of presented) \<noteq> length expected
          then False
          else token_diff expected (text_of presented) = 0)"

text \<open>The accumulated difference is 0 exactly when the tokens, of one length, are equal.\<close>

lemma foldl_or_zero:
  fixes d :: "32 word"
  shows "foldl (\<lambda>diff i. diff OR f i) d xs = 0 \<longleftrightarrow> d = 0 \<and> (\<forall>i \<in> set xs. f i = 0)"
  by (induction xs arbitrary: d) (auto simp: or_eq_0_iff)

lemma xor_zero: "x XOR y = 0 \<longleftrightarrow> x = (y :: 32 word)"
  by (metis xor.assoc xor.left_neutral xor_self_eq)

lemma char_code_eq:
  assumes "i < length s" "i < length t"
  shows "char_code s i = char_code t i \<longleftrightarrow> s ! i = t ! i"
proof -
  have u: "unat (word_of_nat (of_char c) :: 32 word) = (of_char c :: nat)" for c
  proof -
    have "(of_char c :: nat) < 256" using nat_of_char_less_256[of c] .
    then have "(of_char c :: nat) < 4294967296" by linarith
    then show ?thesis by (simp add: unat_of_nat)
  qed
  show ?thesis using assms u unfolding char_code_def by (metis of_char_eq_iff)
qed

lemma token_diff_zero: "length p = length e \<Longrightarrow> token_diff e p = 0 \<longleftrightarrow> p = e"
proof -
  assume len: "length p = length e"
  have "token_diff e p = 0 \<longleftrightarrow> (\<forall>i < length e. char_code e i = char_code p i)"
    unfolding token_diff_def foldl_or_zero xor_zero by auto
  also have "\<dots> \<longleftrightarrow> (\<forall>i < length e. e ! i = p ! i)"
    using char_code_eq[of _ e p] len by simp
  also have "\<dots> \<longleftrightarrow> p = e" using len by (auto simp: list_eq_iff_nth_eq)
  finally show ?thesis .
qed

lemma verify_agent_token_iff:
  "verify_agent_token env presented \<longleftrightarrow>
     (\<exists>t. AGENT_TOKEN env = Some t \<and> t \<noteq> [] \<and> presented = Val t)"
  by (cases presented) (auto simp: verify_agent_token_def token_diff_zero split: option.split)

section \<open>Splitting the target rate\<close>

definition rps_for_slot :: "js_number \<Rightarrow> js_number \<Rightarrow> js_number \<Rightarrow> js_number" where
  "rps_for_slot target n slot =
     (if n \<le> 0 then 0
      else let base = math_floor (target div n); remainder = target mod n
           in base + (if slot < remainder then js_int 1 else js_int 0))"

text \<open>The share of a slot over the integers, which is what the code computes in the exact range.\<close>

definition slot_rate :: "int \<Rightarrow> int \<Rightarrow> int \<Rightarrow> int" where
  "slot_rate r n k = r div n + (if k < r mod n then 1 else 0)"

lemma rps_for_slot_int:
  assumes "0 \<le> r" "0 < n" "r + n \<le> 2 ^ 52"
  shows "rps_for_slot (js_int r) (js_int n) (js_int k) = js_int (slot_rate r n k)"
proof -
  have "0 \<le> r div n" "r div n \<le> r" using div_le_int assms by auto
  then have "\<bar>r div n + 1\<bar> \<le> 2 ^ 53" "\<bar>r div n + 0\<bar> \<le> 2 ^ 53" using assms by simp_all
  then show ?thesis
    using assms by (simp add: rps_for_slot_def slot_rate_def Let_def js_int_simps)
qed

lemma slot_rates_sum:
  assumes "0 < N" shows "(\<Sum>k < N. slot_rate r (int N) (int k)) = r"
proof -
  have m: "0 \<le> r mod int N" "r mod int N < int N" using assms by simp_all
  have "(\<Sum>k < N. if int k < r mod int N then 1 else 0 :: int) =
      (\<Sum>k \<in> {k. k < N \<and> int k < r mod int N}. 1)"
    by (simp add: sum.If_cases lessThan_def Collect_conj_eq)
  also have "{k. k < N \<and> int k < r mod int N} = {..<nat (r mod int N)}"
    using m by auto
  finally have "(\<Sum>k < N. if int k < r mod int N then 1 else 0 :: int) = r mod int N"
    using m by simp
  then show ?thesis by (simp add: slot_rate_def sum.distrib)
qed

section \<open>The statements of the poll handler\<close>

text \<open>
  \<open>SELECT ... FROM JOBS WHERE STATUS IN (...) ORDER BY CREATED_AT ASC LIMIT 1\<close>: the oldest
  row, the first inserted one among rows of the same second.
\<close>

definition select_open_job :: "world \<Rightarrow> job option" where
  "select_open_job w =
     (case sort_key CREATED_AT (filter (\<lambda>j. STATUS j \<in> set ACTIVE_STATUSES) (jobs w)) of
        [] \<Rightarrow> None
      | j # _ \<Rightarrow> Some j)"

definition touch_spawn :: "int \<Rightarrow> string \<Rightarrow> unit sql" where
  "touch_spawn now i w =
     (Inr (), w\<lparr>spawns := update_rows (\<lambda>s. SPAWN_ID s = i) (\<lambda>s. s\<lparr>LAST_SEEN := Some now\<rparr>) (spawns w)\<rparr>)"

text \<open>The values of the insert: a new spawn is \<open>RUNNING\<close> in the slot after the last one.\<close>

definition spawn_row :: "string \<Rightarrow> string \<Rightarrow> string \<Rightarrow> string \<Rightarrow> int \<Rightarrow> world \<Rightarrow> spawn" where
  "spawn_row i j agent reg now w =
     \<lparr>SPAWN_ID = i, SPAWN_JOB = j, AGENT_ID = agent, REGION = reg, SPAWN_STATUS = RUNNING,
      SLOT = count_spawns j w, LAST_SEEN = Some now, AVG_LATENCY = Some 0, AVG_RPS = Some 0,
      SPAWN_COUNT = Some 0, SPAWN_CREATED = current_timestamp w,
      SPAWN_UPDATED = current_timestamp w\<rparr>"

text \<open>
  The conditional insert. The slot is the number of spawns the job already has; the unique
  index on \<open>(JOB_ID, SLOT)\<close> makes the statement fail when that slot is taken.
\<close>

definition claim_slot :: "string \<Rightarrow> string \<Rightarrow> string \<Rightarrow> string \<Rightarrow> int \<Rightarrow> int \<Rightarrow> unit sql" where
  "claim_slot i j agent reg now n w =
     (if \<not> int (count_spawns j w) < n then (Inr (), w)
      else if i \<in> SPAWN_ID ` set (spawns w) then (Inr (), w)
      else if (j, count_spawns j w) \<in> (\<lambda>s. (SPAWN_JOB s, SLOT s)) ` set (spawns w)
      then (Inl D1Error, w)
      else (Inr (), w\<lparr>spawns := spawns w @ [spawn_row i j agent reg now w]\<rparr>))"

definition mark_running :: "string \<Rightarrow> unit sql" where
  "mark_running j w = (Inr (), set_job_status RUNNING (\<lambda>r. JOB_ID r = j \<and> STATUS r = QUEUED) w)"

section \<open>The poll handler\<close>

definition spawn_name :: "string \<Rightarrow> string \<Rightarrow> string" where
  "spawn_name j agent = j @ ''-'' @ agent"

text \<open>The answer to an agent that holds a slot; a job seen \<open>QUEUED\<close> is first marked \<open>RUNNING\<close>.\<close>

definition assignment_of :: "job \<Rightarrow> string \<Rightarrow> nat \<Rightarrow> assignment" where
  "assignment_of j i slot =
     \<lparr>run_jobId = JOB_ID j, run_spawnId = i,
      run_targetRPS = rps_for_slot (js_int (RPS j)) (js_int (AGENTS j)) (js_int (int slot)),
      run_workers = WORKERS_PER_AGENT j, run_startAt = START_AT j, run_stopAt = STOP_AT j,
      run_unthrottled = (UNTHROTTLED j = 1)\<rparr>"

definition hand_out :: "job \<Rightarrow> string \<Rightarrow> nat \<Rightarrow> AgentPollResponse handler" where
  "hand_out j i slot =
     (if STATUS j = QUEUED
      then await (mark_running (JOB_ID j)) (\<lambda>_. Return (Run (assignment_of j i slot)))
      else Return (Run (assignment_of j i slot)))"

text \<open>The body of the handler once an open job has been read and its window is not closed.\<close>

definition join_job :: "job \<Rightarrow> int \<Rightarrow> json_object \<Rightarrow> AgentPollResponse handler" where
  "join_job j now body =
     (let agent = text_of (agentId body); i = spawn_name (JOB_ID j) agent
      in await (query (find_spawn i)) (\<lambda>existing.
           case existing of
             Some s \<Rightarrow>
               if SPAWN_STATUS s \<noteq> RUNNING then Return (Idle None)
               else await (touch_spawn now i) (\<lambda>_. hand_out j i (SLOT s))
           | None \<Rightarrow>
               await (claim_slot i (JOB_ID j) agent (or_default (region body) ''unknown'') now (AGENTS j))
                 (\<lambda>_. await (query (find_spawn i)) (\<lambda>claimed.
                    case claimed of
                      None \<Rightarrow> Return (Idle (Some (SlotsFilled (JOB_ID j) (AGENTS j))))
                    | Some s \<Rightarrow> hand_out j i (SLOT s)))))"

definition poll_authorised :: "json_object \<Rightarrow> AgentPollResponse handler" where
  "poll_authorised body =
     (if falsy (agentId body) then Return (Idle (Some AgentIdRequired))
      else await (query select_open_job) (\<lambda>job.
        case job of
          None \<Rightarrow> Return (Idle None)
        | Some j \<Rightarrow> await date_now (\<lambda>now.
            if column_number (STOP_AT j) \<le> js_int now then Return (Idle None)
            else join_job j now body)))"

text \<open>\<open>body?.token\<close> of a \<open>null\<close> body is missing.\<close>

fun body_object :: "json_object body \<Rightarrow> js_error + json_object option" where
  "body_object NotJson = Inl SyntaxError"
| "body_object JsonNull = Inr None"
| "body_object (JsonObject b) = Inr (Some b)"

definition agent_poll :: "env \<Rightarrow> json_object body \<Rightarrow> AgentPollResponse handler" where
  "agent_poll env request =
     (case body_object request of
        Inl e \<Rightarrow> Throw e
      | Inr body \<Rightarrow>
          if \<not> verify_agent_token env (case body of None \<Rightarrow> Undefined | Some b \<Rightarrow> token b)
          then Throw (Unauthorized ''invalid agent token'')
          else case body of None \<Rightarrow> Throw TypeError | Some b \<Rightarrow> poll_authorised b)"


section \<open>Properties\<close>

text \<open>
  C34: the agent token is accepted exactly when the deployment has a non-empty token and the
  request presents that very string; a missing, empty, shorter, longer or different token is
  refused.
\<close>

theorem agent_token_accepted_iff:
  "verify_agent_token env presented \<longleftrightarrow>
     (\<exists>t. AGENT_TOKEN env = Some t \<and> t \<noteq> [] \<and> presented = Val t)"
  by (rule verify_agent_token_iff)

text \<open>
  C16: as long as the target and the number of agents together stay within \<open>2 ^ 52\<close>, the
  slices of the slots, computed in double precision, are whole numbers that sum exactly to
  the target; the first \<open>targetRPS mod agents\<close> slots get one more than the others, and no slot
  gets 0 when the target is at least the number of agents.
\<close>

theorem slices_sum_to_target:
  assumes "0 \<le> r" "0 < N" "r + int N \<le> 2 ^ 52"
  shows "\<exists>f. (\<forall>k. rps_for_slot (js_int r) (js_int (int N)) (js_int (int k)) = js_int (f k)) \<and>
    (\<Sum>k < N. f k) = r \<and>
    (\<forall>k. f k = (if int k < r mod int N then r div int N + 1 else r div int N)) \<and>
    (int N \<le> r \<longrightarrow> (\<forall>k. 1 \<le> f k))"
proof (intro exI[of _ "\<lambda>k. slot_rate r (int N) (int k)"] conjI)
  have "int N \<le> r \<Longrightarrow> int N div int N \<le> r div int N" using assms by (intro zdiv_mono1) auto
  then show "int N \<le> r \<longrightarrow> (\<forall>k. 1 \<le> slot_rate r (int N) (int k))"
    using assms by (force simp: slot_rate_def)
qed (use assms rps_for_slot_int[of r "int N"] slot_rates_sum[of N r] in \<open>simp_all add: slot_rate_def\<close>)

theorem slices_sum_to_target_witness:
  "\<exists>f. (\<forall>k. rps_for_slot (js_int 100) (js_int (int 8)) (js_int (int k)) = js_int (f k)) \<and>
    (\<Sum>k < 8. f k) = 100 \<and> f 3 = 13 \<and> f 4 = 12"
  using slices_sum_to_target[of 100 8] by auto

lemma huge_slice:
  assumes "k < 3"
  shows "rps_for_slot (js_int 27021597764222972) (js_int 3) (js_int (int k)) =
    js_int (if k < 2 then 9007199254740992 else 9007199254740991)"
proof -
  define q :: rat where "q = 27021597764222972 / 3"
  have "expo q = 52" by (rule expo_unique) (simp_all add: q_def power_int_numeral)
  then have "ulp_expo q = 0" by (simp add: ulp_expo_def q_def)
  moreover have "\<lfloor>27021597764222972 / 3 :: rat\<rfloor> = 9007199254740990" by (simp add: floor_eq_iff)
  ultimately have "fl q = of_int 9007199254740991"
    by (simp add: fl_def round_even_def Let_def q_def)
  then have "js_int 27021597764222972 div js_int 3 = js_int 9007199254740991"
    by (simp add: js_int_def js_round_def q_def[symmetric] Let_def)
  moreover have "js_int 27021597764222972 mod js_int 3 = js_int 2"
    by (simp add: js_int_mod)
  ultimately show ?thesis
    by (auto simp: rps_for_slot_def Let_def js_int_add js_int_zero)
qed

text \<open>
  Beyond the exact range the slices need not sum to the target: for this target, which
  is itself a double, the three slices exceed it together.
\<close>

theorem slices_inexact_when_huge:
  "(\<Sum>k < 3. js_to_int (rps_for_slot (js_int 27021597764222972) (js_int 3) (js_int (int k))))
     = 27021597764222972 + 3"
proof -
  have "{..<3 :: nat} = {0, 1, 2}" by auto
  then show ?thesis by (simp add: huge_slice[of 0, simplified] huge_slice[of 1, simplified]
        huge_slice[of 2, simplified])
qed

end
