(* ===== verification/Spawn.thy ===== *)
theory Spawn
  imports Database
begin

text \<open>
  What agents report and what the cron trigger cleans up (\<open>src/spawn.ts\<close>): the interval
  metrics, the completion of a spawn and of its job, and the reconciliation sweep.
\<close>

definition SPAWN_STALE_AFTER_MS :: int where
  "SPAWN_STALE_AFTER_MS = 90000"

definition JOB_FINALISE_GRACE_MS :: int where
  "JOB_FINALISE_GRACE_MS = 30000"

definition QUEUED_WITHOUT_AGENTS_TIMEOUT_MS :: int where
  "QUEUED_WITHOUT_AGENTS_TIMEOUT_MS = 300000"

section \<open>Interval metrics\<close>

text \<open>\<open>report.x ?? 0\<close>, bound.\<close>

definition bind_or_zero :: "js_number field \<Rightarrow> rat option" where
  "bind_or_zero f = sql_number (or_default f 0)"

text \<open>The fields bound without a default; binding them in turn throws at the first missing one.\<close>

fun bind_all :: "js_number field list \<Rightarrow> js_error + rat option list" where
  "bind_all [] = Inr []"
| "bind_all (f # fs) =
     (case bind_number f of
        Inl e \<Rightarrow> Inl e
      | Inr x \<Rightarrow> (case bind_all fs of Inl e \<Rightarrow> Inl e | Inr xs \<Rightarrow> Inr (x # xs)))"

definition metric_row :: "string \<Rightarrow> json_object \<Rightarrow> int \<Rightarrow> metric" where
  "metric_row uuid report created =
     (let bound = (\<lambda>f. case bind_number f of Inl _ \<Rightarrow> None | Inr x \<Rightarrow> x)
      in \<lparr>METRIC_ID = uuid, METRIC_SPAWN = text_of (spawnId report),
          METRIC_JOB = text_of (jobId report), TICK_NUMBER = bound (tickNumber report),
          LATENCY = bound (latency report), METRIC_RPS = bound (rps report),
          ERROR_M1_RATE = bind_or_zero (errorM1Rate report), COUNT = bound (count report),
          P50 = bind_or_zero (p50 report), P95 = bind_or_zero (p95 report),
          P99 = bind_or_zero (p99 report), BYTES = bind_or_zero (bytes report),
          STATUS_4XX = bind_or_zero (status4xx report),
          STATUS_5XX = bind_or_zero (status5xx report), METRIC_CREATED = created\<rparr>)"

text \<open>The batch: both statements or, when the metric id is taken, neither.\<close>

definition metrics_batch ::
    "string \<Rightarrow> json_object \<Rightarrow> rat option \<Rightarrow> rat option \<Rightarrow> rat option \<Rightarrow> int \<Rightarrow> unit sql" where
  "metrics_batch uuid report avg_latency actual_rps total_count now w =
     (if uuid \<in> METRIC_ID ` set (metrics w) then (Inl D1Error, w)
      else (Inr (), w\<lparr>metrics := metrics w @ [metric_row uuid report (current_timestamp w)],
             spawns := update_rows (\<lambda>s. SPAWN_ID s = text_of (spawnId report))
               (\<lambda>s. s\<lparr>AVG_LATENCY := avg_latency, AVG_RPS := actual_rps, SPAWN_COUNT := total_count,
                     LAST_SEEN := Some now, SPAWN_UPDATED := current_timestamp w\<rparr>) (spawns w)\<rparr>))"

definition record_benchmark_metrics :: "string \<Rightarrow> json_object \<Rightarrow> unit handler" where
  "record_benchmark_metrics uuid report =
     (case bind_all [tickNumber report, latency report, rps report, count report] of
        Inl e \<Rightarrow> Throw e
      | Inr _ \<Rightarrow> await date_now (\<lambda>now.
          case bind_all [avgLatency report, actualRPS report, totalCount report] of
            Inr [avg_latency, actual_rps, total_count] \<Rightarrow>
              await (metrics_batch uuid report avg_latency actual_rps total_count now) Return
          | _ \<Rightarrow> Throw D1Error))"

section \<open>Completion\<close>

definition fail_batch :: "string \<Rightarrow> string \<Rightarrow> unit sql" where
  "fail_batch i j w =
     (Inr (), set_job_status FAILED (\<lambda>r. JOB_ID r = j \<and> STATUS r \<in> {QUEUED, RUNNING})
        (set_spawn_status FAILED (\<lambda>s. SPAWN_ID s = i) w))"

definition finish_spawn :: "status \<Rightarrow> string \<Rightarrow> unit sql" where
  "finish_spawn st i w = (Inr (), set_spawn_status st (\<lambda>s. SPAWN_ID s = i) w)"

definition finish_job :: "status \<Rightarrow> string \<Rightarrow> unit sql" where
  "finish_job st j w =
     (Inr (), set_job_status st (\<lambda>r. JOB_ID r = j \<and> STATUS r \<in> {QUEUED, RUNNING, STOPPING}) w)"

definition complete_benchmark_spawn :: "json_object \<Rightarrow> unit handler" where
  "complete_benchmark_spawn report =
     (let i = text_of (spawnId report); j = text_of (jobId report)
      in if \<not> falsy (error report) then await (fail_batch i j) Return
         else await (query (\<lambda>w. map_option STATUS (find_job j w))) (\<lambda>job_status.
           let outcome = (if job_status \<in> {Some STOPPING, Some STOPPED} then STOPPED else COMPLETED)
           in await (finish_spawn outcome i) (\<lambda>_.
             await (query (count_running j)) (\<lambda>active.
               if active \<noteq> 0 then Return ()
               else await (finish_job outcome j) Return))))"

section \<open>The reconciliation sweep\<close>

record reap_result =
  finalised :: nat
  staleSpawns :: nat
  abandoned :: nat

text \<open>Rule 1: spawns that stopped reporting.\<close>

definition is_stale :: "int \<Rightarrow> spawn \<Rightarrow> bool" where
  "is_stale limit s \<longleftrightarrow>
     SPAWN_STATUS s = RUNNING \<and> (case LAST_SEEN s of None \<Rightarrow> False | Some t \<Rightarrow> t < limit)"

definition fail_stale :: "int \<Rightarrow> nat sql" where
  "fail_stale limit w =
     (Inr (count_rows (is_stale limit) (spawns w)), set_spawn_status FAILED (is_stale limit) w)"

text \<open>Rule 2: jobs whose window has closed, one by one.\<close>

definition is_expired :: "int \<Rightarrow> job \<Rightarrow> bool" where
  "is_expired limit j \<longleftrightarrow>
     STATUS j \<in> {QUEUED, RUNNING, STOPPING} \<and> sql_less (STOP_AT j) (of_int limit)"

definition expired_jobs :: "int \<Rightarrow> world \<Rightarrow> string list" where
  "expired_jobs limit w = map JOB_ID (filter (is_expired limit) (jobs w))"

definition finalise_batch :: "status \<Rightarrow> string \<Rightarrow> unit sql" where
  "finalise_batch outcome j w =
     (Inr (), set_job_status outcome (\<lambda>r. JOB_ID r = j \<and> STATUS r \<in> {QUEUED, RUNNING, STOPPING})
        (set_spawn_status COMPLETED (\<lambda>s. SPAWN_JOB s = j \<and> SPAWN_STATUS s = RUNNING) w))"

primrec finalise_loop :: "string list \<Rightarrow> 'r handler \<Rightarrow> 'r handler" where
  "finalise_loop [] rest = rest"
| "finalise_loop (j # js) rest =
     await (query (count_spawns j)) (\<lambda>spawned.
       await (finalise_batch (if 0 < spawned then COMPLETED else FAILED) j) (\<lambda>_.
         finalise_loop js rest))"

text \<open>Rule 3: queued jobs that never attracted an agent.\<close>

definition is_abandoned :: "int \<Rightarrow> world \<Rightarrow> job \<Rightarrow> bool" where
  "is_abandoned limit w j \<longleftrightarrow>
     STATUS j = QUEUED \<and> sql_less (START_AT j) (of_int limit) \<and> count_spawns (JOB_ID j) w = 0"

definition fail_abandoned :: "int \<Rightarrow> nat sql" where
  "fail_abandoned limit w =
     (Inr (count_rows (is_abandoned limit w) (jobs w)),
      set_job_status FAILED (is_abandoned limit w) w)"

text \<open>Rule 4: stopping jobs whose agents have all gone.\<close>

definition is_wound_down :: "world \<Rightarrow> job \<Rightarrow> bool" where
  "is_wound_down w j \<longleftrightarrow> STATUS j = STOPPING \<and> count_running (JOB_ID j) w = 0"

definition close_stopping :: "unit sql" where
  "close_stopping w = (Inr (), set_job_status STOPPED (is_wound_down w) w)"

definition reap_jobs :: "reap_result handler" where
  "reap_jobs =
     await date_now (\<lambda>now.
       await (fail_stale (now - SPAWN_STALE_AFTER_MS)) (\<lambda>stale.
         await (query (expired_jobs (now - JOB_FINALISE_GRACE_MS))) (\<lambda>expired.
           finalise_loop expired
             (await (fail_abandoned (now - QUEUED_WITHOUT_AGENTS_TIMEOUT_MS)) (\<lambda>orphaned.
               await close_stopping (\<lambda>_.
                 Return \<lparr>finalised = length expired, staleSpawns = stale,
                         abandoned = orphaned\<rparr>))))))"

end
