(* ===== verification/Watch.thy ===== *)
theory Watch
  imports Database
begin

text \<open>
  The read side of the operator's interface (\<open>watch_job\<close> and \<open>list_jobs\<close> of
  \<open>src/orchestrator.ts\<close>): SQL aggregation with its treatment of \<open>NULL\<close>, the two-level
  grouping of the interval metrics, first by spawn and minute and then by minute, and the
  two handlers that read it.
\<close>

section \<open>SQL aggregates\<close>

definition not_null :: "'a option list \<Rightarrow> 'a list" where
  "not_null xs = List.map_filter id xs"

definition sql_sum :: "rat option list \<Rightarrow> rat option" where
  "sql_sum xs = (case not_null xs of [] \<Rightarrow> None | ys \<Rightarrow> Some (sum_list ys))"

definition sql_avg :: "rat option list \<Rightarrow> rat option" where
  "sql_avg xs = (case not_null xs of [] \<Rightarrow> None | ys \<Rightarrow> Some (sum_list ys / of_nat (length ys)))"

definition sql_max :: "rat option list \<Rightarrow> rat option" where
  "sql_max xs = (case not_null xs of [] \<Rightarrow> None | y # ys \<Rightarrow> Some (fold max ys y))"

definition coalesce_zero :: "rat option \<Rightarrow> rat option" where
  "coalesce_zero x = (case x of None \<Rightarrow> Some 0 | Some y \<Rightarrow> Some y)"

fun sql_times :: "rat option \<Rightarrow> rat option \<Rightarrow> rat option" where
  "sql_times (Some x) (Some y) = Some (x * y)"
| "sql_times _ _ = None"

text \<open>A quotient is \<open>NULL\<close> when an operand is \<open>NULL\<close> or the divisor is 0.\<close>

fun sql_divide :: "rat option \<Rightarrow> rat option \<Rightarrow> rat option" where
  "sql_divide (Some x) (Some y) = (if y = 0 then None else Some (x / y))"
| "sql_divide _ _ = None"

fun sql_positive :: "rat option \<Rightarrow> bool" where
  "sql_positive (Some x) = (0 < x)"
| "sql_positive None = False"

text \<open>\<open>GROUP BY key\<close>: the rows of each key, keys in order of first appearance.\<close>

definition group_by :: "('r \<Rightarrow> 'k) \<Rightarrow> 'r list \<Rightarrow> 'r list list" where
  "group_by key rs = map (\<lambda>k. filter (\<lambda>r. key r = k) rs) (rev (remdups (rev (map key rs))))"

section \<open>The metrics query\<close>

text \<open>\<open>strftime('%Y-%m-%d %H:%M:00', CREATED_AT)\<close>: the start of the minute.\<close>

definition minute_of :: "int \<Rightarrow> int" where
  "minute_of t = t div 60 * 60"

record minute_row =
  row_minute :: int
  row_latency :: "rat option"
  row_rps :: "rat option"
  row_errors :: "rat option"
  row_count :: "rat option"
  row_bytes :: "rat option"
  row_p95 :: "rat option"
  row_p99 :: "rat option"

text \<open>The inner query: one row per spawn and minute.\<close>

definition spawn_minute :: "metric list \<Rightarrow> minute_row" where
  "spawn_minute ms =
     \<lparr>row_minute = minute_of (METRIC_CREATED (hd ms)),
      row_latency = sql_avg (map LATENCY ms), row_rps = sql_avg (map METRIC_RPS ms),
      row_errors = sql_avg (map (\<lambda>m. coalesce_zero (ERROR_M1_RATE m)) ms),
      row_count = sql_sum (map COUNT ms),
      row_bytes = sql_sum (map (\<lambda>m. coalesce_zero (BYTES m)) ms),
      row_p95 = sql_max (map (\<lambda>m. coalesce_zero (P95 m)) ms),
      row_p99 = sql_max (map (\<lambda>m. coalesce_zero (P99 m)) ms)\<rparr>"

definition spawn_minutes :: "string \<Rightarrow> world \<Rightarrow> minute_row list" where
  "spawn_minutes j w =
     map spawn_minute
       (group_by (\<lambda>m. (METRIC_SPAWN m, minute_of (METRIC_CREATED m)))
         (filter (\<lambda>m. METRIC_JOB m = j) (metrics w)))"

text \<open>The outer query: one row per minute, latency weighted by request count.\<close>

definition minute_latency :: "minute_row list \<Rightarrow> rat option" where
  "minute_latency rs =
     (if sql_positive (sql_sum (map row_count rs))
      then sql_divide (sql_sum (map (\<lambda>r. sql_times (row_latency r) (row_count r)) rs))
             (sql_sum (map row_count rs))
      else sql_avg (map row_latency rs))"

definition minute_metric :: "minute_row list \<Rightarrow> SpawnMetric" where
  "minute_metric rs =
     \<lparr>metric_createdAt = row_minute (hd rs), metric_latency = minute_latency rs,
      metric_rps = sql_sum (map row_rps rs), metric_errorM1Rate = sql_sum (map row_errors rs),
      metric_workerCount = length rs, metric_p95 = sql_max (map row_p95 rs),
      metric_p99 = sql_max (map row_p99 rs), metric_bytes = sql_sum (map row_bytes rs)\<rparr>"

definition watch_metrics_of :: "string \<Rightarrow> world \<Rightarrow> SpawnMetric list" where
  "watch_metrics_of j w =
     take 300 (sort_key (\<lambda>m. - metric_createdAt m)
       (map minute_metric (group_by row_minute (spawn_minutes j w))))"

section \<open>The handlers\<close>

text \<open>
  A job id that is missing or empty is answered without a query. The status \<open>"unknown"\<close> is
  \<open>None\<close>.
\<close>

definition unknown_job :: "string \<Rightarrow> message \<Rightarrow> WatchResponse" where
  "unknown_job j msg =
     \<lparr>watch_jobId = j, watch_status = None, watch_message = Some msg, watch_created_at = None,
      watch_rps = None, watch_running = 0, watch_metrics = []\<rparr>"

definition watch_request :: "json_object \<Rightarrow> WatchResponse handler" where
  "watch_request req =
     (if falsy (jobId req) then Return (unknown_job ''unknown'' NoJobId)
      else let j = text_of (jobId req) in
        await (query (find_job j)) (\<lambda>found.
          case found of
            None \<Rightarrow> Return (unknown_job j NoSuchJob)
          | Some job \<Rightarrow>
              await (query (count_running j)) (\<lambda>active.
                await (query (watch_metrics_of j)) (\<lambda>ms.
                  Return \<lparr>watch_jobId = j, watch_status = Some (STATUS job),
                          watch_message = None, watch_created_at = Some (CREATED_AT job),
                          watch_rps = Some (RPS job), watch_running = active,
                          watch_metrics = ms\<rparr>))))"

definition job_summary :: "job \<Rightarrow> JobSummary" where
  "job_summary j =
     \<lparr>sum_jobId = JOB_ID j, sum_status = STATUS j, sum_rps = RPS j, sum_concurrency = AGENTS j,
      sum_duration = DURATION j, sum_created_at = CREATED_AT j, sum_updated_at = UPDATED_AT j\<rparr>"

definition newest_jobs :: "world \<Rightarrow> job list" where
  "newest_jobs w = take 200 (sort_key (\<lambda>j. - CREATED_AT j) (jobs w))"

definition list_jobs :: "JobsResponse handler" where
  "list_jobs = await (query newest_jobs) (\<lambda>rows. Return (map job_summary rows))"

end
