(* ===== verification/Orchestrator.thy ===== *)
theory Orchestrator
  imports Agents Spawn Watch
begin

text \<open>
  The HTTP surface of the Worker (\<open>src/orchestrator.ts\<close>): operator authentication, the
  deployment configuration, starting, watching, listing and stopping jobs, the agents'
  callbacks, and the routing of a request to them.
\<close>

section \<open>Requests and responses\<close>

text \<open>
  A request as the handlers read it: its method, the parts of its URL, the
  \<open>x-admin-token\<close> header, and its body.
\<close>

record request =
  req_method :: string
  req_origin :: string
  req_pathname :: string
  req_token_param :: "string option"
  req_admin_header :: "string option"
  req_body :: "json_object body"

record deployment =
  provisionedAgents :: "js_number option"
  maxWorkersPerAgent :: "js_number option"

record stop_response =
  stop_jobId :: string
  stop_status :: string
  stop_message :: message

datatype content =
    Started JobStartResponse
  | Polled AgentPollResponse
  | Status "status option" \<comment> \<open>\<open>None\<close> is \<open>"unknown"\<close>\<close>
  | Ok
  | Watched WatchResponse
  | Jobs JobsResponse
  | Config deployment
  | Stopped stop_response
  | PathNotFound
  | Error "string option"

text \<open>A JSON response, the plain-text start failure, or what the assets service returns for a URL.\<close>

datatype response =
    Json nat content
  | StartFailed nat JobStartResponse
  | Asset string

section \<open>Configuration\<close>

definition MAX_AGENTS_PER_JOB :: int where
  "MAX_AGENTS_PER_JOB = 512"

definition DEFAULT_WORKERS_PER_AGENT :: int where
  "DEFAULT_WORKERS_PER_AGENT = 512"

definition DEFAULT_START_DELAY_SECONDS :: int where
  "DEFAULT_START_DELAY_SECONDS = 30"

definition positive_var :: "string option \<Rightarrow> js_number option" where
  "positive_var raw =
     (let n = (case raw of None \<Rightarrow> NaN | Some s \<Rightarrow> string_to_number s)
      in if is_finite n \<and> 0 < n then Some (math_floor n) else None)"

definition max_workers_per_agent :: "env \<Rightarrow> js_number option" where
  "max_workers_per_agent env = positive_var (MAX_WORKERS_PER_AGENT env)"

definition deployment_config :: "env \<Rightarrow> deployment" where
  "deployment_config env =
     \<lparr>provisionedAgents = positive_var (DEPLOYMENT_AGENTS env),
      maxWorkersPerAgent = max_workers_per_agent env\<rparr>"

section \<open>Operator authentication\<close>

text \<open>\<open>require_admin\<close> returns or throws; \<open>header ?? query parameter ?? ""\<close> is presented.\<close>

definition presented_token :: "request \<Rightarrow> string" where
  "presented_token r =
     (case req_admin_header r of
        Some t \<Rightarrow> t
      | None \<Rightarrow> (case req_token_param r of Some t \<Rightarrow> t | None \<Rightarrow> []))"

definition require_admin :: "request \<Rightarrow> env \<Rightarrow> js_error + unit" where
  "require_admin r env =
     (case ADMIN_TOKEN env of
        None \<Rightarrow> Inr ()
      | Some expected \<Rightarrow>
          if expected = [] then Inr ()
          else if length (presented_token r) \<noteq> length expected
          then Inl (Unauthorized ''missing or invalid admin token'')
          else if token_diff expected (presented_token r) \<noteq> 0
          then Inl (Unauthorized ''missing or invalid admin token'')
          else Inr ())"

section \<open>Starting a job\<close>

text \<open>The request's numbers after flooring and defaulting.\<close>

record start_params =
  par_targetRPS :: js_number
  par_agents :: js_number
  par_workersPerAgent :: js_number
  par_duration :: js_number
  par_startDelaySeconds :: js_number
  par_unthrottled :: bool

text \<open>\<open>Math.floor(x ?? d)\<close>\<close>

definition floor_or :: "js_number field \<Rightarrow> int \<Rightarrow> js_number" where
  "floor_or f d = math_floor (or_default f (js_int d))"

definition start_params_of :: "json_object \<Rightarrow> start_params" where
  "start_params_of req =
     \<lparr>par_targetRPS = math_floor (to_number (targetRPS req)),
      par_agents = math_floor (to_number (agents req)),
      par_workersPerAgent = floor_or (workersPerAgent req) DEFAULT_WORKERS_PER_AGENT,
      par_duration = math_floor (to_number (duration req)),
      par_startDelaySeconds = floor_or (startDelaySeconds req) DEFAULT_START_DELAY_SECONDS,
      par_unthrottled = (unthrottled req = Val True)\<rparr>"

text \<open>The loop over \<open>Object.entries\<close>: the first entry that is not a positive number.\<close>

fun first_not_positive :: "(string \<times> js_number) list \<Rightarrow> string option" where
  "first_not_positive [] = None"
| "first_not_positive ((name, value) # rest) =
     (if \<not> is_finite value \<or> value \<le> 0 then Some name else first_not_positive rest)"

definition start_invalid :: "env \<Rightarrow> start_params \<Rightarrow> message option" where
  "start_invalid env p =
     (case first_not_positive
        [(''targetRPS'', par_targetRPS p), (''agents'', par_agents p),
         (''workersPerAgent'', par_workersPerAgent p), (''duration'', par_duration p)] of
        Some name \<Rightarrow> Some (MustBePositive name)
      | None \<Rightarrow>
          if \<not> is_finite (par_startDelaySeconds p) \<or> par_startDelaySeconds p < 0
          then Some StartDelayNegative
          else if js_int MAX_AGENTS_PER_JOB < par_agents p
          then Some (TooManyAgents MAX_AGENTS_PER_JOB)
          else if \<not> par_unthrottled p \<and> par_targetRPS p < par_agents p
          then Some TargetBelowAgents
          else (case max_workers_per_agent env of
                  None \<Rightarrow> None
                | Some cap \<Rightarrow>
                    if cap < par_workersPerAgent p then Some (TooManyWorkers cap) else None))"

text \<open>What the checks of \<open>start_job\<close> leave: whole numbers inside their bounds.\<close>

lemma first_not_positive_None:
  "first_not_positive vs = None \<longleftrightarrow> (\<forall>(name, v) \<in> set vs. is_finite v \<and> \<not> v \<le> 0)"
  by (induction vs rule: first_not_positive.induct) auto

lemma floored_positive:
  "is_finite (math_floor x) \<Longrightarrow> \<not> math_floor x \<le> 0 \<Longrightarrow> \<exists>n. math_floor x = js_int n \<and> 1 \<le> n"
  using finite_floor_int[of x] by (auto simp: js_int_zero)

lemma valid_params:
  assumes "start_invalid env (start_params_of req) = None"
  shows "\<exists>t n k d s. start_params_of req =
      \<lparr>par_targetRPS = js_int t, par_agents = js_int n, par_workersPerAgent = js_int k,
       par_duration = js_int d, par_startDelaySeconds = js_int s,
       par_unthrottled = (unthrottled req = Val True)\<rparr> \<and>
    1 \<le> t \<and> 1 \<le> n \<and> n \<le> MAX_AGENTS_PER_JOB \<and> 1 \<le> k \<and> 1 \<le> d \<and> 0 \<le> s \<and>
    (unthrottled req \<noteq> Val True \<longrightarrow> n \<le> t)"
proof -
  define p where "p = start_params_of req"
  from assms have pos: "first_not_positive
        [(''targetRPS'', par_targetRPS p), (''agents'', par_agents p),
         (''workersPerAgent'', par_workersPerAgent p), (''duration'', par_duration p)] = None"
    unfolding start_invalid_def p_def[symmetric]
    by (cases "first_not_positive
        [(''targetRPS'', par_targetRPS p), (''agents'', par_agents p),
         (''workersPerAgent'', par_workersPerAgent p), (''duration'', par_duration p)]")
      (simp_all only: option.case option.distinct)
  from assms[unfolded start_invalid_def p_def[symmetric], unfolded pos option.case]
  have rest: "is_finite (par_startDelaySeconds p)" "\<not> par_startDelaySeconds p < 0"
    "\<not> js_int MAX_AGENTS_PER_JOB < par_agents p"
    "par_unthrottled p \<or> \<not> par_targetRPS p < par_agents p"
    by (simp_all split: if_splits)
  have pos': "is_finite (par_targetRPS p)" "\<not> par_targetRPS p \<le> 0"
    "is_finite (par_agents p)" "\<not> par_agents p \<le> 0" "is_finite (par_workersPerAgent p)"
    "\<not> par_workersPerAgent p \<le> 0" "is_finite (par_duration p)" "\<not> par_duration p \<le> 0"
    using pos unfolding first_not_positive_None by simp_all
  have floors: "par_targetRPS p = math_floor (to_number (targetRPS req))"
    "par_agents p = math_floor (to_number (agents req))"
    "par_workersPerAgent p =
       math_floor (or_default (workersPerAgent req) (js_int DEFAULT_WORKERS_PER_AGENT))"
    "par_duration p = math_floor (to_number (duration req))"
    by (simp_all add: p_def start_params_of_def floor_or_def)
  obtain t where t: "par_targetRPS p = js_int t" "1 \<le> t"
    using floored_positive pos'(1,2) floors(1) by metis
  obtain n where n: "par_agents p = js_int n" "1 \<le> n"
    using floored_positive pos'(3,4) floors(2) by metis
  obtain k where k: "par_workersPerAgent p = js_int k" "1 \<le> k"
    using floored_positive pos'(5,6) floors(3) by metis
  obtain d where d: "par_duration p = js_int d" "1 \<le> d"
    using floored_positive pos'(7,8) floors(4) by metis
  from rest(1) obtain s where s: "par_startDelaySeconds p = js_int s"
    unfolding p_def start_params_of_def floor_or_def by (auto dest: finite_floor_int)
  have u: "par_unthrottled p = (unthrottled req = Val True)" by (simp add: p_def start_params_of_def)
  have "p = \<lparr>par_targetRPS = js_int t, par_agents = js_int n, par_workersPerAgent = js_int k,
       par_duration = js_int d, par_startDelaySeconds = js_int s,
       par_unthrottled = (unthrottled req = Val True)\<rparr>"
    using t(1) n(1) k(1) d(1) s u by (cases p) simp
  moreover have "n \<le> MAX_AGENTS_PER_JOB" "0 \<le> s"
    using rest(2,3) by (simp_all add: n(1) s js_int_zero)
  moreover have "unthrottled req \<noteq> Val True \<longrightarrow> n \<le> t"
    using rest(4) by (auto simp: n(1) t(1) u linorder_not_less)
  ultimately show ?thesis using t(2) n(2) k(2) d(2) unfolding p_def[symmetric] by blast
qed

definition select_active_job :: "world \<Rightarrow> job option" where
  "select_active_job w = find (\<lambda>j. STATUS j \<in> {QUEUED, RUNNING, STOPPING}) (jobs w)"

text \<open>\<open>Date.now() + startDelaySeconds * 1000\<close> and \<open>startAt + duration * 60 * 1000\<close>.\<close>

definition start_at :: "int \<Rightarrow> start_params \<Rightarrow> js_number" where
  "start_at now p = js_int now + par_startDelaySeconds p * js_int 1000"

definition stop_at :: "int \<Rightarrow> start_params \<Rightarrow> js_number" where
  "stop_at now p = start_at now p + par_duration p * js_int 60 * js_int 1000"

definition job_row :: "string \<Rightarrow> int \<Rightarrow> start_params \<Rightarrow> int \<Rightarrow> job" where
  "job_row uuid now p created =
     \<lparr>JOB_ID = uuid, RPS = js_to_int (par_targetRPS p), CONCURRENCY = js_to_int (par_agents p),
      AGENTS = js_to_int (par_agents p), WORKERS_PER_AGENT = js_to_int (par_workersPerAgent p),
      DURATION = js_to_int (par_duration p), START_AT = sql_number (start_at now p),
      STOP_AT = sql_number (stop_at now p), UNTHROTTLED = (if par_unthrottled p then 1 else 0),
      STATUS = QUEUED, CREATED_AT = created, UPDATED_AT = created\<rparr>"

definition insert_job :: "string \<Rightarrow> int \<Rightarrow> start_params \<Rightarrow> unit sql" where
  "insert_job uuid now p w =
     (if uuid \<in> JOB_ID ` set (jobs w) then (Inl D1Error, w)
      else (Inr (), w\<lparr>jobs := jobs w @ [job_row uuid now p (current_timestamp w)]\<rparr>))"

definition invalid :: "json_object \<Rightarrow> message \<Rightarrow> JobStartResponse" where
  "invalid req msg =
     \<lparr>start_status = ''error'', start_message = msg, start_request = req, start_jobId = None\<rparr>"

text \<open>\<open>await request.json()\<close>, of which a property is then read: \<open>null\<close> throws.\<close>

definition with_object :: "json_object body \<Rightarrow> (json_object \<Rightarrow> 'r handler) \<Rightarrow> 'r handler" where
  "with_object body k =
     (case body_object body of
        Inl e \<Rightarrow> Throw e
      | Inr None \<Rightarrow> Throw TypeError
      | Inr (Some b) \<Rightarrow> k b)"

definition start_job :: "env \<Rightarrow> string \<Rightarrow> json_object body \<Rightarrow> JobStartResponse handler" where
  "start_job env uuid body =
     with_object body (\<lambda>req.
          let p = start_params_of req in
          (case start_invalid env p of
             Some msg \<Rightarrow> Return (invalid req msg)
           | None \<Rightarrow>
               await (query select_active_job) (\<lambda>active.
                 case active of
                   Some j \<Rightarrow> Return (invalid req (JobStillActive (JOB_ID j)))
                 | None \<Rightarrow> await date_now (\<lambda>now.
                     await (insert_job uuid now p) (\<lambda>_.
                       Return \<lparr>start_status = ''success'',
                               start_message = JobQueued (par_startDelaySeconds p),
                               start_request = req, start_jobId = Some uuid\<rparr>)))))"

section \<open>Watching and stopping\<close>

definition watch_job :: "json_object body \<Rightarrow> WatchResponse handler" where
  "watch_job body = with_object body watch_request"

text \<open>The stop statement reports how many rows it changed.\<close>

definition request_stop :: "int \<Rightarrow> string \<Rightarrow> nat sql" where
  "request_stop now j w =
     (let stoppable = (\<lambda>r. JOB_ID r = j \<and> STATUS r \<notin> {COMPLETED, STOPPED, FAILED})
      in (Inr (count_rows stoppable (jobs w)),
          w\<lparr>jobs := update_rows stoppable
               (\<lambda>r. r\<lparr>STATUS := STOPPING, STOP_AT := Some (of_int now),
                     UPDATED_AT := current_timestamp w\<rparr>) (jobs w)\<rparr>))"

definition stop_job :: "json_object body \<Rightarrow> stop_response handler" where
  "stop_job body =
     with_object body (\<lambda>req.
       if falsy (jobId req)
       then Return \<lparr>stop_jobId = ''unknown'', stop_status = ''error'', stop_message = NoJobId\<rparr>
       else await date_now (\<lambda>now.
         await (request_stop now (text_of (jobId req))) (\<lambda>changes.
           Return \<lparr>stop_jobId = text_of (jobId req), stop_status = ''STOPPING'',
                   stop_message = (if changes \<noteq> 0 then StopRequested else AlreadyFinished)\<rparr>)))"

section \<open>Agent callbacks\<close>

definition verify_internal_request :: "env \<Rightarrow> json_object option \<Rightarrow> js_error + json_object" where
  "verify_internal_request env data =
     (case data of
        None \<Rightarrow> Inl (Unauthorized ''invalid agent callback token'')
      | Some d \<Rightarrow>
          if falsy (spawnId d) \<or> falsy (jobId d) \<or> \<not> verify_agent_token env (token d)
          then Inl (Unauthorized ''invalid agent callback token'')
          else Inr d)"

definition with_callback ::
    "env \<Rightarrow> json_object body \<Rightarrow> (json_object \<Rightarrow> 'r handler) \<Rightarrow> 'r handler" where
  "with_callback env body k =
     (case body_object body of
        Inl e \<Rightarrow> Throw e
      | Inr data \<Rightarrow>
          (case verify_internal_request env data of Inl e \<Rightarrow> Throw e | Inr d \<Rightarrow> k d))"

definition get_internal_job_status :: "env \<Rightarrow> json_object body \<Rightarrow> status option handler" where
  "get_internal_job_status env body =
     with_callback env body (\<lambda>d.
       await (query (\<lambda>w. map_option STATUS (find_job (text_of (jobId d)) w))) Return)"

definition record_internal_metrics :: "env \<Rightarrow> string \<Rightarrow> json_object body \<Rightarrow> unit handler" where
  "record_internal_metrics env uuid body =
     with_callback env body (record_benchmark_metrics uuid)"

definition complete_internal_spawn :: "env \<Rightarrow> json_object body \<Rightarrow> unit handler" where
  "complete_internal_spawn env body = with_callback env body complete_benchmark_spawn"

section \<open>Routing\<close>

definition with_admin :: "request \<Rightarrow> env \<Rightarrow> response handler \<Rightarrow> response handler" where
  "with_admin r env p = (case require_admin r env of Inl e \<Rightarrow> Throw e | Inr _ \<Rightarrow> p)"

definition respond :: "('a \<Rightarrow> content) \<Rightarrow> 'a handler \<Rightarrow> response handler" where
  "respond c p = bind p (\<lambda>x. Return (Json 200 (c x)))"

definition not_found :: "response handler" where
  "not_found = Return (Json 404 PathNotFound)"

definition get_route :: "env \<Rightarrow> request \<Rightarrow> response handler" where
  "get_route env r =
     (if req_pathname r = ''/'' then Return (Asset (req_origin r @ ''/index.html''))
      else if req_pathname r = ''/api/v1/jobs'' then with_admin r env (respond Jobs list_jobs)
      else if req_pathname r = ''/api/v1/config''
      then with_admin r env (Return (Json 200 (Config (deployment_config env))))
      else not_found)"

definition start_page :: "request \<Rightarrow> JobStartResponse \<Rightarrow> response" where
  "start_page r res =
     (case start_jobId res of
        None \<Rightarrow> StartFailed 400 res
      | Some j \<Rightarrow> if j = [] then StartFailed 400 res
                  else Asset (req_origin r @ ''/watch.html?jobId='' @ j))"

definition post_route :: "env \<Rightarrow> string \<Rightarrow> request \<Rightarrow> response handler" where
  "post_route env uuid r =
     (let path = req_pathname r; body = req_body r
      in if path = ''/api/agent/poll'' then respond Polled (agent_poll env body)
         else if path = ''/api/internal/spawn-status''
         then respond Status (get_internal_job_status env body)
         else if path = ''/api/internal/spawn-metrics''
         then respond (\<lambda>_. Ok) (record_internal_metrics env uuid body)
         else if path = ''/api/internal/spawn-complete''
         then respond (\<lambda>_. Ok) (complete_internal_spawn env body)
         else if path = ''/api/v1/start'' then with_admin r env (respond Started (start_job env uuid body))
         else if path = ''/api/v1/watch'' then with_admin r env (respond Watched (watch_job body))
         else if path = ''/api/v1/stop'' then with_admin r env (respond Stopped (stop_job body))
         else if path = ''/start''
         then with_admin r env (bind (start_job env uuid body) (\<lambda>res. Return (start_page r res)))
         else not_found)"

definition route :: "env \<Rightarrow> string \<Rightarrow> request \<Rightarrow> response handler" where
  "route env uuid r =
     (if req_method r = ''GET'' then get_route env r
      else if req_method r = ''POST'' then post_route env uuid r
      else not_found)"

definition orchestrator_route :: "env \<Rightarrow> string \<Rightarrow> request \<Rightarrow> response handler" where
  "orchestrator_route env uuid r =
     catch (route env uuid r)
       (\<lambda>e. case e of
              Unauthorized msg \<Rightarrow> Return (Json 401 (Error (Some msg)))
            | _ \<Rightarrow> Throw e)"

end
