(* ===== verification/Worker.thy ===== *)
theory Worker
  imports Orchestrator
begin

text \<open>
  The entry points of the Worker (\<open>src/index.ts\<close>): a request is routed, and whatever the
  route throws becomes a 503; the cron trigger runs the sweep and swallows its errors.
\<close>

definition fetch :: "env \<Rightarrow> string \<Rightarrow> request \<Rightarrow> response handler" where
  "fetch env uuid r =
     catch (orchestrator_route env uuid r) (\<lambda>_. Return (Json 503 (Error None)))"

definition scheduled :: "unit handler" where
  "scheduled = catch (bind reap_jobs (\<lambda>_. Return ())) (\<lambda>_. Return ())"

end
