(* ===== verification/Invariants.thy ===== *)
theory Invariants
  imports Worker
begin

text \<open>
  What every statement of the Worker keeps true of the database (\<open>world_inv\<close>), and that
  every statement moves the world forward (\<open>evolves\<close>). The invariant says that primary keys
  are unique, that every job satisfies the bounds \<open>start_job\<close> checked, that every spawn
  belongs to a job and is named after it, and that the slots of a job are \<open>0, 1, 2, ...\<close> in
  the order the agents joined and never more than its agents.
\<close>

section \<open>The invariant\<close>

definition wf_job :: "job \<Rightarrow> bool" where
  "wf_job j \<longleftrightarrow>
     length (JOB_ID j) = 36 \<and> 1 \<le> AGENTS j \<and> AGENTS j \<le> MAX_AGENTS_PER_JOB \<and> 1 \<le> RPS j \<and>
     (UNTHROTTLED j \<noteq> 1 \<longrightarrow> AGENTS j \<le> RPS j)"

definition wf_spawn :: "world \<Rightarrow> spawn \<Rightarrow> bool" where
  "wf_spawn w s \<longleftrightarrow>
     SPAWN_JOB s \<in> JOB_ID ` set (jobs w) \<and> SPAWN_ID s = spawn_name (SPAWN_JOB s) (AGENT_ID s)"

definition slots_ok :: "world \<Rightarrow> job \<Rightarrow> bool" where
  "slots_ok w j \<longleftrightarrow>
     map SLOT (spawns_of (JOB_ID j) w) = [0..<count_spawns (JOB_ID j) w] \<and>
     int (count_spawns (JOB_ID j) w) \<le> AGENTS j"

definition world_inv :: "world \<Rightarrow> bool" where
  "world_inv w \<longleftrightarrow>
     distinct (map JOB_ID (jobs w)) \<and> distinct (map SPAWN_ID (spawns w)) \<and>
     distinct (map METRIC_ID (metrics w)) \<and>
     (\<forall>j \<in> set (jobs w). wf_job j) \<and> (\<forall>s \<in> set (spawns w). wf_spawn w s) \<and>
     (\<forall>j \<in> set (jobs w). slots_ok w j)"

interpretation ctl: rely_guarantee world_inv evolves
  by unfold_locales (auto intro: evolves_trans)

lemma spawn_name_inject:
  "length j = length j' \<Longrightarrow> spawn_name j a = spawn_name j' a' \<longleftrightarrow> j = j' \<and> a = a'"
  by (auto simp: spawn_name_def)

text \<open>The parts of the world the invariant looks at.\<close>

definition job_core :: "job \<Rightarrow> string \<times> int \<times> int \<times> int" where
  "job_core j = (JOB_ID j, AGENTS j, RPS j, UNTHROTTLED j)"

definition spawn_core :: "spawn \<Rightarrow> string \<times> string \<times> string \<times> nat" where
  "spawn_core s = (SPAWN_ID s, SPAWN_JOB s, AGENT_ID s, SLOT s)"

text \<open>Changes of other columns keep the invariant: it depends on the cores only.\<close>

lemma map_core:
  assumes "map job_core js' = map job_core js"
  shows "map JOB_ID js' = map JOB_ID js"
    "(\<forall>j \<in> set js'. wf_job j) \<longleftrightarrow> (\<forall>j \<in> set js. wf_job j)"
proof -
  have "map (fst \<circ> job_core) js' = map (fst \<circ> job_core) js"
    by (simp only: map_map[symmetric] assms)
  moreover have "fst \<circ> job_core = JOB_ID" by (auto simp: job_core_def fun_eq_iff)
  ultimately show "map JOB_ID js' = map JOB_ID js" by simp
  have wf: "wf_job j = (\<lambda>(i, n, r, u). length i = 36 \<and> 1 \<le> n \<and> n \<le> MAX_AGENTS_PER_JOB \<and>
      1 \<le> r \<and> (u \<noteq> 1 \<longrightarrow> n \<le> r)) (job_core j)" for j
    by (simp add: wf_job_def job_core_def)
  have F: "(\<forall>j \<in> set xs. wf_job j) = (\<forall>c \<in> set (map job_core xs). (\<lambda>(i, n, r, u). length i = 36 \<and>
      1 \<le> n \<and> n \<le> MAX_AGENTS_PER_JOB \<and> 1 \<le> r \<and> (u \<noteq> 1 \<longrightarrow> n \<le> r)) c)" for xs
    by (simp add: wf)
  show "(\<forall>j \<in> set js'. wf_job j) \<longleftrightarrow> (\<forall>j \<in> set js. wf_job j)"
    by (simp only: F assms)
qed

lemma spawn_cores:
  assumes "map spawn_core ss' = map spawn_core ss"
  shows "map SPAWN_ID ss' = map SPAWN_ID ss"
    "map SLOT (filter (\<lambda>s. SPAWN_JOB s = i) ss') = map SLOT (filter (\<lambda>s. SPAWN_JOB s = i) ss)"
    "count_rows (\<lambda>s. SPAWN_JOB s = i) ss' = count_rows (\<lambda>s. SPAWN_JOB s = i) ss"
    "(\<lambda>s. (SPAWN_JOB s, SPAWN_ID s, AGENT_ID s)) ` set ss' =
     (\<lambda>s. (SPAWN_JOB s, SPAWN_ID s, AGENT_ID s)) ` set ss"
proof -
  have f: "map (h \<circ> spawn_core) (filter (P \<circ> spawn_core) ss') =
      map (h \<circ> spawn_core) (filter (P \<circ> spawn_core) ss)" for P and h :: "_ \<Rightarrow> 'b"
    by (simp only: map_map[symmetric] filter_map[symmetric] assms)
  have proj: "SPAWN_ID = fst \<circ> spawn_core" "SLOT = snd \<circ> snd \<circ> snd \<circ> spawn_core"
    "(\<lambda>s. SPAWN_JOB s = i) = (\<lambda>c. fst (snd c) = i) \<circ> spawn_core"
    "(\<lambda>s. (SPAWN_JOB s, SPAWN_ID s, AGENT_ID s)) =
       (\<lambda>(a, b, c, d). (b, a, c)) \<circ> spawn_core"
    by (auto simp: spawn_core_def fun_eq_iff)
  show "map SPAWN_ID ss' = map SPAWN_ID ss"
    unfolding proj by (simp only: map_map[symmetric] assms)
  show "map SLOT (filter (\<lambda>s. SPAWN_JOB s = i) ss') = map SLOT (filter (\<lambda>s. SPAWN_JOB s = i) ss)"
    unfolding proj by (rule f)
  show "count_rows (\<lambda>s. SPAWN_JOB s = i) ss' = count_rows (\<lambda>s. SPAWN_JOB s = i) ss"
    unfolding count_rows_def proj
    using arg_cong[OF f[of "\<lambda>c. c" "\<lambda>c. fst (snd c) = i"], of length] by simp
  have "set (map ((\<lambda>(a, b, c, d). (b, a, c)) \<circ> spawn_core) ss') =
      set (map ((\<lambda>(a, b, c, d). (b, a, c)) \<circ> spawn_core) ss)"
    by (simp only: map_map[symmetric] assms)
  then show "(\<lambda>s. (SPAWN_JOB s, SPAWN_ID s, AGENT_ID s)) ` set ss' =
     (\<lambda>s. (SPAWN_JOB s, SPAWN_ID s, AGENT_ID s)) ` set ss"
    unfolding proj(4) by (simp only: set_map)
qed

lemma world_inv_cong:
  assumes "world_inv w" and "map job_core (jobs w') = map job_core (jobs w)"
    and "map spawn_core (spawns w') = map spawn_core (spawns w)"
    and "distinct (map METRIC_ID (metrics w'))"
  shows "world_inv w'"
proof -
  have ids: "JOB_ID ` set (jobs w') = JOB_ID ` set (jobs w)"
    using map_core(1)[OF assms(2)] by (metis set_map)
  have wf: "\<forall>s \<in> set (spawns w'). wf_spawn w' s"
  proof
    fix s assume "s \<in> set (spawns w')"
    then have "(SPAWN_JOB s, SPAWN_ID s, AGENT_ID s) \<in>
        (\<lambda>s. (SPAWN_JOB s, SPAWN_ID s, AGENT_ID s)) ` set (spawns w)"
      unfolding spawn_cores(4)[OF assms(3), symmetric] by (rule imageI)
    then obtain s0 where s0: "s0 \<in> set (spawns w)" "SPAWN_JOB s0 = SPAWN_JOB s"
      "SPAWN_ID s0 = SPAWN_ID s" "AGENT_ID s0 = AGENT_ID s"
      by auto
    then have "wf_spawn w s0" using assms(1) by (simp add: world_inv_def)
    with s0 show "wf_spawn w' s" by (simp add: wf_spawn_def ids)
  qed
  have sl: "slots_ok w' j'" if j': "j' \<in> set (jobs w')" for j'
  proof -
    have "job_core j' \<in> set (map job_core (jobs w))"
      using j' assms(2) by (metis image_eqI set_map)
    then obtain j where j: "j \<in> set (jobs w)" "job_core j = job_core j'" by auto
    then have "slots_ok w j" using assms(1) by (simp add: world_inv_def)
    moreover have "JOB_ID j' = JOB_ID j" "AGENTS j' = AGENTS j"
      using j(2) by (simp_all add: job_core_def)
    ultimately show ?thesis
      unfolding slots_ok_def spawns_of_def count_spawns_def
      by (simp only: spawn_cores(2,3)[OF assms(3)])
  qed
  from wf sl assms(1,4) map_core[OF assms(2)] spawn_cores(1)[OF assms(3)]
  show ?thesis unfolding world_inv_def by simp
qed

section \<open>Statements keep the invariant and move the world forward\<close>

lemma inv_metrics: "world_inv w \<Longrightarrow> distinct (map METRIC_ID (metrics w))"
  by (simp add: world_inv_def)

lemma found_job:
  assumes "world_inv w" "j \<in> set (jobs w)" shows "find_job (JOB_ID j) w = Some j"
  using assms find_row_distinct[of JOB_ID "jobs w" j] by (simp add: find_job_def world_inv_def)

lemma inv_update_jobs:
  assumes "world_inv w" and "\<And>j. job_core (f j) = job_core j"
  shows "world_inv (w\<lparr>jobs := update_rows P f (jobs w)\<rparr>)"
  by (rule world_inv_cong[OF assms(1)])
     (use assms inv_metrics in \<open>auto intro: map_update_rows\<close>)

lemma inv_update_spawns:
  assumes "world_inv w" and "\<And>s. spawn_core (f s) = spawn_core s"
  shows "world_inv (w\<lparr>spawns := update_rows P f (spawns w)\<rparr>)"
  by (rule world_inv_cong[OF assms(1)])
     (use assms inv_metrics in \<open>auto intro: map_update_rows\<close>)

lemma inv_set_job_status: "world_inv w \<Longrightarrow> world_inv (set_job_status st P w)"
  unfolding set_job_status_def by (rule inv_update_jobs) (simp_all add: job_core_def)

lemma inv_set_spawn_status: "world_inv w \<Longrightarrow> world_inv (set_spawn_status st P w)"
  unfolding set_spawn_status_def by (rule inv_update_spawns) (simp_all add: spawn_core_def)

lemma evolves_set_job_status:
  "(\<And>j. j \<in> set (jobs w) \<Longrightarrow> P j \<Longrightarrow> STATUS j \<le> st) \<Longrightarrow> evolves w (set_job_status st P w)"
  unfolding evolves_def
  by (auto simp: set_job_status_def job_evolves_def intro!: extends_update extends_refl)

lemma evolves_set_spawn_status: "evolves w (set_spawn_status st P w)"
  unfolding evolves_def
  by (auto simp: set_spawn_status_def spawn_evolves_def intro!: extends_update extends_refl)

text \<open>
  \<open>keeps q\<close>: the statement \<open>q\<close> keeps the invariant and moves the world forward, whatever it
  answers. Every statement of the Worker does; the conditional insert of a slot needs to
  know the job it is for, and the insert of a job that its parameters were validated.
\<close>

definition keeps :: "'a sql \<Rightarrow> bool" where
  "keeps q \<longleftrightarrow> (\<forall>w. world_inv w \<longrightarrow> world_inv (snd (q w)) \<and> evolves w (snd (q w)))"

lemma keepsI:
  "(\<And>w. world_inv w \<Longrightarrow> world_inv (snd (q w)) \<and> evolves w (snd (q w))) \<Longrightarrow> keeps q"
  by (simp add: keeps_def)

lemma evolves_jobs_update:
  "(\<And>j. j \<in> set (jobs w) \<Longrightarrow> P j \<Longrightarrow> job_evolves j (f j)) \<Longrightarrow>
    evolves w (w\<lparr>jobs := update_rows P f (jobs w)\<rparr>)"
  unfolding evolves_def by (auto intro!: extends_update extends_refl)

lemma evolves_spawns_update:
  "(\<And>s. spawn_evolves s (f s)) \<Longrightarrow> evolves w (w\<lparr>spawns := update_rows P f (spawns w)\<rparr>)"
  unfolding evolves_def by (auto intro!: extends_update extends_refl)

lemma keeps_query [safe_rules]: "keeps (query q)"
  by (simp add: keeps_def query_def)

lemma keeps_date_now [safe_rules]: "keeps date_now"
  by (simp add: keeps_def date_now_def)

lemma keeps_touch_spawn [safe_rules]: "keeps (touch_spawn now i)"
  by (rule keepsI)
     (auto simp: touch_spawn_def spawn_core_def spawn_evolves_def
       intro: inv_update_spawns evolves_spawns_update)

lemma keeps_mark_running [safe_rules]: "keeps (mark_running j)"
  by (rule keepsI)
     (auto simp: mark_running_def less_eq_status_def intro: inv_set_job_status evolves_set_job_status)

lemma keeps_finish_spawn [safe_rules]: "keeps (finish_spawn st i)"
  by (rule keepsI)
     (auto simp: finish_spawn_def intro: inv_set_spawn_status evolves_set_spawn_status)

lemma keeps_finish_job [safe_rules]: "terminal st \<Longrightarrow> keeps (finish_job st j)"
  by (rule keepsI, cases st)
     (auto simp: finish_job_def less_eq_status_def intro: inv_set_job_status evolves_set_job_status)

lemma keeps_both:
  assumes "\<And>j. P j \<Longrightarrow> STATUS j \<le> st"
  shows "keeps (\<lambda>w. (r w, set_job_status st P (set_spawn_status st' P' w)))"
proof (rule keepsI)
  fix w assume w: "world_inv w"
  have "evolves (set_spawn_status st' P' w) (set_job_status st P (set_spawn_status st' P' w))"
    by (rule evolves_set_job_status) (use assms in blast)
  with w evolves_set_spawn_status[of w st' P']
  show "world_inv (snd (r w, set_job_status st P (set_spawn_status st' P' w))) \<and>
    evolves w (snd (r w, set_job_status st P (set_spawn_status st' P' w)))"
    by (auto intro: inv_set_job_status inv_set_spawn_status evolves_trans)
qed

lemma keeps_fail_batch [safe_rules]: "keeps (fail_batch i j)"
  unfolding fail_batch_def by (rule keeps_both) (auto simp: less_eq_status_def)

lemma keeps_finalise_batch [safe_rules]: "terminal st \<Longrightarrow> keeps (finalise_batch st j)"
  unfolding finalise_batch_def by (rule keeps_both) (cases st; auto simp: less_eq_status_def)

lemma keeps_fail_stale [safe_rules]: "keeps (fail_stale n)"
  by (rule keepsI)
     (auto simp: fail_stale_def intro: inv_set_spawn_status evolves_set_spawn_status)

lemma keeps_fail_abandoned [safe_rules]: "keeps (fail_abandoned n)"
  by (rule keepsI)
     (auto simp: fail_abandoned_def is_abandoned_def less_eq_status_def
       intro: inv_set_job_status evolves_set_job_status)

lemma keeps_close_stopping [safe_rules]: "keeps close_stopping"
  by (rule keepsI)
     (auto simp: close_stopping_def is_wound_down_def less_eq_status_def
       intro: inv_set_job_status evolves_set_job_status)

lemma keeps_request_stop [safe_rules]: "keeps (request_stop now j)"
proof (rule keepsI)
  fix w assume w: "world_inv w"
  have "st \<le> STOPPING" if "st \<notin> {COMPLETED, STOPPED, FAILED}" for st
    using that by (cases st) (auto simp: less_eq_status_def)
  with w show "world_inv (snd (request_stop now j w)) \<and> evolves w (snd (request_stop now j w))"
    by (auto simp: request_stop_def Let_def job_core_def job_evolves_def
        intro!: inv_update_jobs evolves_jobs_update)
qed

lemma keeps_metrics_batch [safe_rules]: "keeps (metrics_batch uuid report a b c now)"
proof (rule keepsI)
  fix w assume w: "world_inv w"
  show "world_inv (snd (metrics_batch uuid report a b c now w)) \<and>
    evolves w (snd (metrics_batch uuid report a b c now w))"
  proof (cases "uuid \<in> METRIC_ID ` set (metrics w)")
    case True
    with w show ?thesis by (simp add: metrics_batch_def)
  next
    case False
    have "distinct (map METRIC_ID (metrics (snd (metrics_batch uuid report a b c now w))))"
      using False inv_metrics[OF w] by (simp add: metrics_batch_def metric_row_def Let_def)
    moreover from False have "evolves w (snd (metrics_batch uuid report a b c now w))"
      unfolding evolves_def
      by (auto simp: metrics_batch_def spawn_evolves_def intro!: extends_update extends_refl)
    ultimately show ?thesis using False
      by (auto intro!: world_inv_cong[OF w] map_update_rows
          simp: metrics_batch_def spawn_core_def)
  qed
qed

lemma inv_insert_job:
  assumes w: "world_inv w" and j: "wf_job j" "JOB_ID j \<notin> JOB_ID ` set (jobs w)"
  shows "world_inv (w\<lparr>jobs := jobs w @ [j]\<rparr>)" and "count_spawns (JOB_ID j) w = 0"
proof -
  have "\<forall>s \<in> set (spawns w). SPAWN_JOB s \<noteq> JOB_ID j"
    using w j(2) unfolding world_inv_def wf_spawn_def by metis
  then show none: "count_spawns (JOB_ID j) w = 0"
    by (simp add: count_spawns_def count_rows_zero)
  have sl: "slots_ok (w\<lparr>jobs := js\<rparr>) x = slots_ok w x" for js x
    by (simp add: slots_ok_def spawns_of_def count_spawns_def)
  have "slots_ok w j"
    using none j(1) by (simp add: slots_ok_def count_spawns_length wf_job_def)
  then show "world_inv (w\<lparr>jobs := jobs w @ [j]\<rparr>)"
    using w j by (auto simp: world_inv_def sl wf_spawn_def)
qed

lemma keeps_insert_job [safe_rules]:
  assumes ok: "start_invalid env (start_params_of req) = None" and id: "length uuid = 36"
  shows "keeps (insert_job uuid now (start_params_of req))"
proof (rule keepsI)
  fix w assume w: "world_inv w"
  show "world_inv (snd (insert_job uuid now (start_params_of req) w)) \<and>
    evolves w (snd (insert_job uuid now (start_params_of req) w))"
  proof (cases "uuid \<in> JOB_ID ` set (jobs w)")
    case True
    with w show ?thesis by (simp add: insert_job_def)
  next
    case False
    define j where "j = job_row uuid now (start_params_of req) (current_timestamp w)"
    have "wf_job j"
      using id valid_params[OF ok] unfolding wf_job_def j_def job_row_def by force
    moreover have "JOB_ID j = uuid" by (simp add: j_def job_row_def)
    ultimately have "world_inv (w\<lparr>jobs := jobs w @ [j]\<rparr>)"
      using inv_insert_job(1)[OF w] False by blast
    moreover have "evolves w (w\<lparr>jobs := jobs w @ [j]\<rparr>)"
      by (simp add: evolves_def extends_refl extends_append)
    ultimately show ?thesis using False by (simp add: insert_job_def j_def)
  qed
qed

end
