(* ===== verification/Guarantees.thy ===== *)
theory Guarantees
  imports Invariants
begin

text \<open>
  Every handler of the Worker is safe under interference: whatever other handlers do
  between its awaits, each of its statements keeps the invariant of the database and only
  moves it forward, and an answer that gives an agent work is backed by a job and a slot in
  the database. What a handler read before an await it may still use afterwards as far as
  it is stable: \<open>knows_job j\<close> (the job is still there, its status at least as far) and
  \<open>knows_spawn s\<close> (the spawn is still there, in the same slot).
\<close>

section \<open>Stable knowledge\<close>

definition knows_job :: "job \<Rightarrow> world \<Rightarrow> bool" where
  "knows_job j w \<longleftrightarrow> (\<exists>j' \<in> set (jobs w). job_evolves j j')"

definition knows_spawn :: "spawn \<Rightarrow> world \<Rightarrow> bool" where
  "knows_spawn s w \<longleftrightarrow> (\<exists>s' \<in> set (spawns w). spawn_evolves s s')"

definition stable :: "(world \<Rightarrow> bool) \<Rightarrow> bool" where
  "stable K \<longleftrightarrow> (\<forall>w w'. K w \<longrightarrow> evolves w w' \<longrightarrow> K w')"

lemma stableD: "stable K \<Longrightarrow> K w \<Longrightarrow> evolves w w' \<Longrightarrow> K w'"
  by (simp add: stable_def)

lemma stable_True [intro!]: "stable (\<lambda>_. True)"
  by (simp add: stable_def)

lemma stable_conj [intro!]: "stable K \<Longrightarrow> stable L \<Longrightarrow> stable (\<lambda>w. K w \<and> L w)"
  by (auto simp: stable_def)

lemma stable_knows_job [intro!]: "stable (knows_job j)"
  unfolding stable_def knows_job_def evolves_def
  by (metis extends_member job_evolves_trans)

lemma stable_knows_spawn [intro!]: "stable (knows_spawn s)"
  unfolding stable_def knows_spawn_def evolves_def
  by (metis extends_member spawn_evolves_trans)

lemma knows_job_now: "j \<in> set (jobs w) \<Longrightarrow> knows_job j w"
  by (auto simp: knows_job_def intro!: bexI[of _ j])

lemma knows_spawn_now: "s \<in> set (spawns w) \<Longrightarrow> knows_spawn s w"
  by (auto simp: knows_spawn_def intro!: bexI[of _ s])

section \<open>One statement of a handler\<close>

lemma safe_statement:
  assumes "keeps q" "stable K" "K w" "\<And>w' x. K w' \<Longrightarrow> ctl.safe Q w' (k x)"
  shows "ctl.safe Q w (await q k)"
proof (rule ctl.safe_await)
  fix w' r w'' assume w': "evolves w w'" "world_inv w'" "q w' = (r, w'')"
  then have "world_inv w'' \<and> evolves w' w''" using assms(1) by (auto simp: keeps_def)
  moreover from this have "K w''" using w'(1) assms(2,3) stableD by blast
  ultimately show "world_inv w'' \<and> evolves w' w'' \<and> (\<forall>x. r = Inr x \<longrightarrow> ctl.safe Q w'' (k x))"
    using assms(4) by blast
qed

lemma safe_any: "keeps q \<Longrightarrow> (\<And>w' x. ctl.safe Q w' (k x)) \<Longrightarrow> ctl.safe Q w (await q k)"
  by (rule safe_statement[of q "\<lambda>_. True"]) auto

lemma safe_query:
  assumes "stable K" "K w" "\<And>w'. K w' \<Longrightarrow> world_inv w' \<Longrightarrow> ctl.safe Q w' (k (f w'))"
  shows "ctl.safe Q w (await (query f) k)"
proof (rule ctl.safe_await)
  fix w' r w'' assume w': "evolves w w'" "world_inv w'" "query f w' = (r, w'')"
  then have "K w'" using assms(1,2) stableD by blast
  with w' assms(3) show "world_inv w'' \<and> evolves w' w'' \<and>
      (\<forall>x. r = Inr x \<longrightarrow> ctl.safe Q w'' (k x))"
    by (auto simp: query_def)
qed

lemma safe_return_any: "(\<And>w. Q w x) \<Longrightarrow> ctl.safe Q w (Return x)"
  by (rule ctl.safe.Return)

section \<open>The handlers that give out no work\<close>

definition anything :: "world \<Rightarrow> 'r \<Rightarrow> bool" where
  "anything w x \<longleftrightarrow> True"

lemma safe_Return_anything [simp]: "ctl.safe anything w (Return x)"
  by (rule safe_return_any) (simp add: anything_def)

lemmas safe_steps = safe_any safe_rules safe_Return_anything ctl.safe.Throw

lemma safe_with_object:
  "(\<And>b. ctl.safe Q w (k b)) \<Longrightarrow> ctl.safe Q w (with_object body k)"
  by (cases body) (auto simp: with_object_def intro: ctl.safe.Throw)

lemma safe_with_callback:
  "(\<And>d. ctl.safe Q w (k d)) \<Longrightarrow> ctl.safe Q w (with_callback env body k)"
  by (auto simp: with_callback_def intro: ctl.safe.Throw split: sum.split)

lemma safe_start_job:
  "length uuid = 36 \<Longrightarrow> ctl.safe anything w (start_job env uuid body)"
  unfolding start_job_def Let_def
  by (auto intro!: safe_with_object safe_steps split: option.split)

lemma safe_watch_job: "ctl.safe anything w (watch_job body)"
  unfolding watch_job_def watch_request_def Let_def
  by (auto intro!: safe_with_object safe_steps split: option.split)

lemma safe_list_jobs: "ctl.safe anything w list_jobs"
  unfolding list_jobs_def by (auto intro!: safe_steps)

lemma safe_stop_job: "ctl.safe anything w (stop_job body)"
  unfolding stop_job_def by (auto intro!: safe_with_object safe_steps)

lemma safe_get_internal_job_status: "ctl.safe anything w (get_internal_job_status env body)"
  unfolding get_internal_job_status_def by (auto intro!: safe_with_callback safe_steps)

lemma safe_record_internal_metrics:
  "ctl.safe anything w (record_internal_metrics env uuid body)"
  unfolding record_internal_metrics_def record_benchmark_metrics_def
  by (auto intro!: safe_with_callback safe_steps split: sum.split list.split)

lemma safe_complete_internal_spawn: "ctl.safe anything w (complete_internal_spawn env body)"
  unfolding complete_internal_spawn_def complete_benchmark_spawn_def Let_def
  by (auto intro!: safe_with_callback safe_steps)

lemma safe_finalise_loop:
  "(\<And>w. ctl.safe anything w rest) \<Longrightarrow> ctl.safe anything w (finalise_loop js rest)"
  by (induction js arbitrary: w) (auto intro!: safe_steps)

lemma safe_reap_jobs: "ctl.safe anything w reap_jobs"
  unfolding reap_jobs_def by (auto intro!: safe_steps safe_finalise_loop)

lemma safe_scheduled: "ctl.safe anything w scheduled"
  unfolding scheduled_def by (auto intro!: ctl.safe_catch ctl.safe_bind[OF safe_reap_jobs])


section \<open>Claiming a slot\<close>

text \<open>
  Under the invariant the slots of a job are \<open>0, 1, 2, ...\<close>, so the next slot is free and the
  unique index never rejects the insert.
\<close>

lemma slot_free:
  assumes "world_inv w" "j \<in> set (jobs w)"
  shows "(JOB_ID j, count_spawns (JOB_ID j) w) \<notin> (\<lambda>s. (SPAWN_JOB s, SLOT s)) ` set (spawns w)"
proof
  assume "(JOB_ID j, count_spawns (JOB_ID j) w) \<in> (\<lambda>s. (SPAWN_JOB s, SLOT s)) ` set (spawns w)"
  then have "count_spawns (JOB_ID j) w \<in> set (map SLOT (spawns_of (JOB_ID j) w))"
    by (auto simp: spawns_of_def)
  moreover have "map SLOT (spawns_of (JOB_ID j) w) = [0..<count_spawns (JOB_ID j) w]"
    using assms by (simp add: world_inv_def slots_ok_def)
  ultimately show False by simp
qed

lemma claim_slot_cases:
  assumes "world_inv w" "j \<in> set (jobs w)"
  obtains (kept) "claim_slot i (JOB_ID j) agent reg now n w = (Inr (), w)"
      "int (count_spawns (JOB_ID j) w) < n \<Longrightarrow> i \<in> SPAWN_ID ` set (spawns w)"
  | (claimed) s where
      "claim_slot i (JOB_ID j) agent reg now n w = (Inr (), w\<lparr>spawns := spawns w @ [s]\<rparr>)"
      "int (count_spawns (JOB_ID j) w) < n" "i \<notin> SPAWN_ID ` set (spawns w)"
      "SPAWN_ID s = i" "SPAWN_JOB s = JOB_ID j" "AGENT_ID s = agent"
      "SLOT s = count_spawns (JOB_ID j) w" "SPAWN_STATUS s = RUNNING"
proof (cases "int (count_spawns (JOB_ID j) w) < n \<and> i \<notin> SPAWN_ID ` set (spawns w)")
  case False
  then show ?thesis by (intro kept) (auto simp: claim_slot_def)
next
  case True
  with slot_free[OF assms] show ?thesis
    by (intro claimed[of "spawn_row i (JOB_ID j) agent reg now w"])
      (simp_all add: claim_slot_def spawn_row_def)
qed

lemma inv_new_spawn:
  assumes w: "world_inv w" and j: "j \<in> set (jobs w)"
    and s: "SPAWN_JOB s = JOB_ID j" "SPAWN_ID s = spawn_name (JOB_ID j) (AGENT_ID s)"
      "SPAWN_ID s \<notin> SPAWN_ID ` set (spawns w)" "SLOT s = count_spawns (JOB_ID j) w"
      "int (count_spawns (JOB_ID j) w) < AGENTS j"
  shows "world_inv (w\<lparr>spawns := spawns w @ [s]\<rparr>)"
proof -
  have sl: "slots_ok (w\<lparr>spawns := spawns w @ [s]\<rparr>) i" if i: "i \<in> set (jobs w)" for i
  proof (cases "JOB_ID i = JOB_ID j")
    case True
    then have "i = j" using w i j distinct_key_eq[of JOB_ID "jobs w"] by (auto simp: world_inv_def)
    moreover have "slots_ok w j" using w j by (simp add: world_inv_def)
    ultimately show ?thesis using s by (auto simp: slots_ok_def spawns_of_def count_spawns_def)
  next
    case False
    have "slots_ok w i" using w i by (simp add: world_inv_def)
    then show ?thesis using False s by (auto simp: slots_ok_def spawns_of_def count_spawns_def)
  qed
  have wf: "wf_spawn (w\<lparr>spawns := spawns w @ [s]\<rparr>) x = wf_spawn w x" for x
    by (simp add: wf_spawn_def)
  have "wf_spawn w s" using s j by (simp add: wf_spawn_def)
  with w s sl show ?thesis by (auto simp: world_inv_def wf)
qed

lemma safe_claim_slot:
  assumes "stable K" "K w" "knows_job j w" and i: "i = spawn_name (JOB_ID j) agent"
    and next': "\<And>w'. K w' \<Longrightarrow> ctl.safe Q w' (k ())"
  shows "ctl.safe Q w (await (claim_slot i (JOB_ID j) agent reg now (AGENTS j)) k)"
proof (rule ctl.safe_await)
  fix w' r w'' assume w': "evolves w w'" "world_inv w'"
    and q: "claim_slot i (JOB_ID j) agent reg now (AGENTS j) w' = (r, w'')"
  have "knows_job j w'" using assms(3) w'(1) stableD[OF stable_knows_job] by blast
  then obtain j' where j': "j' \<in> set (jobs w')" "JOB_ID j' = JOB_ID j" "AGENTS j' = AGENTS j"
    by (auto simp: knows_job_def dest: job_evolvesD)
  have "world_inv w'' \<and> evolves w' w''"
    using w'(2) j'(1)
  proof (rule claim_slot_cases[where i = i and agent = agent and reg = reg and now = now
        and n = "AGENTS j"])
    assume "claim_slot i (JOB_ID j') agent reg now (AGENTS j) w' = (Inr (), w')"
    with w' q j' show ?thesis by simp
  next
    fix s
    assume s: "claim_slot i (JOB_ID j') agent reg now (AGENTS j) w' =
        (Inr (), w'\<lparr>spawns := spawns w' @ [s]\<rparr>)"
      "int (count_spawns (JOB_ID j') w') < AGENTS j" "i \<notin> SPAWN_ID ` set (spawns w')"
      "SPAWN_ID s = i" "SPAWN_JOB s = JOB_ID j'" "AGENT_ID s = agent"
      "SLOT s = count_spawns (JOB_ID j') w'"
    then have "world_inv (w'\<lparr>spawns := spawns w' @ [s]\<rparr>)"
      using inv_new_spawn[OF w'(2) j'(1)] i j' by simp
    moreover have "evolves w' (w'\<lparr>spawns := spawns w' @ [s]\<rparr>)"
      by (simp add: evolves_def extends_refl extends_append)
    moreover have "w'' = w'\<lparr>spawns := spawns w' @ [s]\<rparr>" using s(1) q j' by simp
    ultimately show ?thesis by simp
  qed
  moreover from this have "K w''" using assms(1,2) w'(1) stableD by blast
  ultimately show "world_inv w'' \<and> evolves w' w'' \<and> (\<forall>x. r = Inr x \<longrightarrow> ctl.safe Q w'' (k x))"
    using next' by auto
qed

section \<open>The poll handler\<close>

text \<open>
  \<open>backed w a\<close>: the assignment \<open>a\<close> stands for a spawn of a job in the database, and its rate
  is the share of the spawn's slot.
\<close>

definition share_of :: "job \<Rightarrow> nat \<Rightarrow> js_number" where
  "share_of j slot = rps_for_slot (js_int (RPS j)) (js_int (AGENTS j)) (js_int (int slot))"

definition backed :: "world \<Rightarrow> assignment \<Rightarrow> bool" where
  "backed w a \<longleftrightarrow>
     (\<exists>j \<in> set (jobs w). \<exists>s \<in> set (spawns w).
        JOB_ID j = run_jobId a \<and> SPAWN_ID s = run_spawnId a \<and> SPAWN_JOB s = JOB_ID j \<and>
        int (SLOT s) < AGENTS j \<and> run_targetRPS a = share_of j (SLOT s) \<and>
        run_workers a = WORKERS_PER_AGENT j \<and> run_startAt a = START_AT j \<and>
        run_unthrottled a = (UNTHROTTLED j = 1))"

definition poll_backed :: "world \<Rightarrow> AgentPollResponse \<Rightarrow> bool" where
  "poll_backed w r = (case r of Idle _ \<Rightarrow> True | Run a \<Rightarrow> backed w a)"

lemma poll_backed_simps [simp]:
  "poll_backed w (Idle m)" "poll_backed w (Run a) = backed w a"
  by (simp_all add: poll_backed_def)

lemma slot_below_agents:
  assumes "world_inv w" "j \<in> set (jobs w)" "s \<in> set (spawns w)" "SPAWN_JOB s = JOB_ID j"
  shows "int (SLOT s) < AGENTS j"
proof -
  have "SLOT s \<in> set (map SLOT (spawns_of (JOB_ID j) w))"
    using assms(3,4) by (auto simp: spawns_of_def)
  moreover have "map SLOT (spawns_of (JOB_ID j) w) = [0..<count_spawns (JOB_ID j) w]"
    "int (count_spawns (JOB_ID j) w) \<le> AGENTS j"
    using assms(1,2) by (auto simp: world_inv_def slots_ok_def)
  ultimately show ?thesis by simp
qed

lemma slots_distinct:
  assumes "world_inv w" "j \<in> set (jobs w)" "s \<in> set (spawns w)" "s' \<in> set (spawns w)"
    "SPAWN_JOB s = JOB_ID j" "SPAWN_JOB s' = JOB_ID j" "SLOT s = SLOT s'"
  shows "s = s'"
proof (rule distinct_key_eq)
  show "distinct (map SLOT (spawns_of (JOB_ID j) w))"
    using assms(1,2) by (simp add: world_inv_def slots_ok_def)
qed (use assms in \<open>auto simp: spawns_of_def\<close>)

lemma safe_granted:
  assumes "knows_job j w" "knows_spawn s w" "SPAWN_JOB s = JOB_ID j" "SPAWN_ID s = i"
  shows "ctl.safe poll_backed w (Return (Run (assignment_of j i (SLOT s))))"
proof (rule ctl.safe.Return)
  fix w' assume w': "evolves w w'" "world_inv w'"
  then have "knows_job j w'" "knows_spawn s w'"
    using assms stableD[OF stable_knows_job] stableD[OF stable_knows_spawn] by blast+
  then obtain j' s' where j': "j' \<in> set (jobs w')" "job_evolves j j'"
    and s': "s' \<in> set (spawns w')" "spawn_evolves s s'"
    by (auto simp: knows_job_def knows_spawn_def)
  have "int (SLOT s') < AGENTS j'"
    using slot_below_agents[OF w'(2) j'(1) s'(1)] j' s' assms(3)
    by (auto simp: spawn_evolves_def dest: job_evolvesD)
  with j' s' assms(3,4) show "poll_backed w' (Run (assignment_of j i (SLOT s)))"
    by (auto simp: backed_def assignment_of_def share_of_def spawn_evolves_def job_evolvesD
        intro!: bexI[of _ j'] bexI[of _ s'])
qed

lemma safe_hand_out:
  assumes "knows_job j w" "knows_spawn s w" "SPAWN_JOB s = JOB_ID j" "SPAWN_ID s = i"
  shows "ctl.safe poll_backed w (hand_out j i (SLOT s))"
proof -
  have "ctl.safe poll_backed w
      (await (mark_running (JOB_ID j)) (\<lambda>_. Return (Run (assignment_of j i (SLOT s)))))"
    by (rule safe_statement[of _ "\<lambda>w. knows_job j w \<and> knows_spawn s w"])
       (use assms safe_granted keeps_mark_running in auto)
  with safe_granted[OF assms] show ?thesis by (simp add: hand_out_def)
qed

lemma found_spawn:
  assumes "world_inv w" "knows_job j w" "find_spawn (spawn_name (JOB_ID j) agent) w = Some s"
  shows "knows_spawn s w" "SPAWN_JOB s = JOB_ID j" "SPAWN_ID s = spawn_name (JOB_ID j) agent"
    "AGENT_ID s = agent"
proof -
  from assms(3) have s: "s \<in> set (spawns w)" "SPAWN_ID s = spawn_name (JOB_ID j) agent"
    by (auto simp: find_spawn_def dest: find_row_Some)
  show "knows_spawn s w" "SPAWN_ID s = spawn_name (JOB_ID j) agent"
    using s knows_spawn_now by auto
  from assms(1,2) s have "length (SPAWN_JOB s) = 36" "length (JOB_ID j) = 36"
    "SPAWN_ID s = spawn_name (SPAWN_JOB s) (AGENT_ID s)"
    by (auto simp: world_inv_def wf_spawn_def wf_job_def knows_job_def dest!: job_evolvesD(1))
  with s(2) show "SPAWN_JOB s = JOB_ID j" "AGENT_ID s = agent"
    using spawn_name_inject[of "JOB_ID j" "SPAWN_JOB s" agent "AGENT_ID s"] by auto
qed

lemma safe_join_job:
  assumes "knows_job j w"
  shows "ctl.safe poll_backed w (join_job j now body)"
proof -
  define agent where "agent = text_of (agentId body)"
  define i where "i = spawn_name (JOB_ID j) agent"
  define reg where "reg = or_default (region body) ''unknown''"
  have again: "ctl.safe poll_backed w'
      (if SPAWN_STATUS s \<noteq> RUNNING then Return (Idle None)
       else await (touch_spawn now i) (\<lambda>_. hand_out j i (SLOT s)))"
    if "knows_job j w'" "world_inv w'" "find_spawn i w' = Some s" for w' s
    using found_spawn[OF that(2,1) that(3)[unfolded i_def]] that(1)
    by (auto simp: i_def intro!: safe_return_any safe_hand_out
        safe_statement[OF keeps_touch_spawn, of "\<lambda>w. knows_job j w \<and> knows_spawn s w"])
  have got: "ctl.safe poll_backed w' (case find_spawn i w' of
        None \<Rightarrow> Return (Idle (Some (SlotsFilled (JOB_ID j) (AGENTS j))))
      | Some s \<Rightarrow> hand_out j i (SLOT s))"
    if "knows_job j w'" "world_inv w'" for w'
    using that found_spawn[OF that(2,1), of agent]
    by (auto simp: i_def intro!: safe_return_any safe_hand_out split: option.split)
  have new: "ctl.safe poll_backed w'
      (await (claim_slot i (JOB_ID j) agent reg now (AGENTS j))
        (\<lambda>_. await (query (find_spawn i)) (\<lambda>claimed. case claimed of
            None \<Rightarrow> Return (Idle (Some (SlotsFilled (JOB_ID j) (AGENTS j))))
          | Some s \<Rightarrow> hand_out j i (SLOT s))))"
    if "knows_job j w'" for w'
    by (rule safe_claim_slot[OF stable_knows_job that that i_def], rule safe_query[OF stable_knows_job])
       (use got in auto)
  have "ctl.safe poll_backed w (await (query (find_spawn i)) (\<lambda>existing.
      case existing of
        Some s \<Rightarrow> if SPAWN_STATUS s \<noteq> RUNNING then Return (Idle None)
                  else await (touch_spawn now i) (\<lambda>_. hand_out j i (SLOT s))
      | None \<Rightarrow> await (claim_slot i (JOB_ID j) agent reg now (AGENTS j))
          (\<lambda>_. await (query (find_spawn i)) (\<lambda>claimed. case claimed of
              None \<Rightarrow> Return (Idle (Some (SlotsFilled (JOB_ID j) (AGENTS j))))
            | Some s \<Rightarrow> hand_out j i (SLOT s)))))"
    by (rule safe_query[OF stable_knows_job assms])
       (use again new in \<open>auto split: option.split\<close>)
  then show ?thesis
    unfolding join_job_def Let_def agent_def i_def reg_def .
qed

lemma open_job_in: "select_open_job w = Some j \<Longrightarrow> j \<in> set (jobs w) \<and> STATUS j \<in> set ACTIVE_STATUSES"
proof -
  assume "select_open_job w = Some j"
  then obtain js where
    "sort_key CREATED_AT (filter (\<lambda>j. STATUS j \<in> set ACTIVE_STATUSES) (jobs w)) = j # js"
    by (auto simp: select_open_job_def split: list.splits)
  then have "j \<in> set (sort_key CREATED_AT (filter (\<lambda>j. STATUS j \<in> set ACTIVE_STATUSES) (jobs w)))"
    by (simp only: list.set_intros)
  then show ?thesis by simp
qed

lemma safe_poll_authorised: "ctl.safe poll_backed w (poll_authorised body)"
proof -
  have later: "ctl.safe poll_backed w' (await date_now (\<lambda>now.
      if column_number (STOP_AT j) \<le> js_int now then Return (Idle None) else join_job j now body))"
    if "knows_job j w'" for w' j
    by (rule safe_statement[OF keeps_date_now stable_knows_job that])
       (auto intro: safe_return_any safe_join_job)
  have "ctl.safe poll_backed w (await (query select_open_job) (\<lambda>job.
      case job of
        None \<Rightarrow> Return (Idle None)
      | Some j \<Rightarrow> await date_now (\<lambda>now.
          if column_number (STOP_AT j) \<le> js_int now then Return (Idle None)
          else join_job j now body)))"
    by (rule safe_query[OF stable_True])
       (auto intro!: safe_return_any later knows_job_now dest: open_job_in split: option.split)
  then show ?thesis by (auto simp: poll_authorised_def intro: safe_return_any)
qed

lemma safe_agent_poll: "ctl.safe poll_backed w (agent_poll env body)"
  by (auto simp: agent_poll_def intro: ctl.safe.Throw safe_poll_authorised
      split: sum.split option.split)

section \<open>The entry points\<close>

definition answer_backed :: "world \<Rightarrow> response \<Rightarrow> bool" where
  "answer_backed w r = (case r of Json _ (Polled p) \<Rightarrow> poll_backed w p | _ \<Rightarrow> True)"

lemma answer_backed_simps [simp]:
  "answer_backed w (Json st (Polled p)) = poll_backed w p"
  "answer_backed w (Json st (Started a))" "answer_backed w (Json st (Status b))"
  "answer_backed w (Json st Ok)" "answer_backed w (Json st (Watched c))"
  "answer_backed w (Json st (Jobs d))" "answer_backed w (Json st (Config e))"
  "answer_backed w (Json st (Stopped f))" "answer_backed w (Json st PathNotFound)"
  "answer_backed w (Json st (Error m))" "answer_backed w (StartFailed n x)"
  "answer_backed w (Asset u)"
  by (simp_all add: answer_backed_def)

lemma safe_respond:
  assumes "ctl.safe anything w p" "\<And>w x. answer_backed w (Json 200 (c x))"
  shows "ctl.safe answer_backed w (respond c p)"
  unfolding respond_def
  by (rule ctl.safe_bind[OF assms(1)]) (auto intro: safe_return_any assms(2))

lemma safe_respond_poll:
  assumes "ctl.safe poll_backed w p" shows "ctl.safe answer_backed w (respond Polled p)"
  unfolding respond_def
  by (rule ctl.safe_bind[OF assms]) (auto intro: ctl.safe.Return)

lemma safe_with_admin:
  "ctl.safe Q w p \<Longrightarrow> ctl.safe Q w (with_admin r env p)"
  by (auto simp: with_admin_def intro: ctl.safe.Throw split: sum.split)

lemmas safe_endpoints = safe_with_admin safe_respond safe_respond_poll safe_agent_poll
  safe_start_job safe_watch_job safe_list_jobs safe_stop_job safe_get_internal_job_status
  safe_record_internal_metrics safe_complete_internal_spawn

lemma safe_not_found: "ctl.safe answer_backed w not_found"
  by (auto simp: not_found_def intro: safe_return_any)

lemma safe_error_page: "ctl.safe answer_backed w (Return (Json st (Error m)))"
  by (auto intro: safe_return_any)

lemma start_page_backed [simp]: "answer_backed w (start_page r res)"
  by (simp add: start_page_def split: option.split)

lemma safe_start_page:
  "length uuid = 36 \<Longrightarrow>
    ctl.safe answer_backed w (bind (start_job env uuid body) (\<lambda>res. Return (start_page r res)))"
  by (rule ctl.safe_bind[OF safe_start_job]) (auto intro: safe_return_any)

lemma safe_get_route: "ctl.safe answer_backed w (get_route env r)"
  unfolding get_route_def
  by (auto intro!: safe_endpoints safe_not_found intro: safe_return_any)

lemma safe_post_route: "length uuid = 36 \<Longrightarrow> ctl.safe answer_backed w (post_route env uuid r)"
  unfolding post_route_def Let_def
  by (auto intro!: safe_endpoints safe_start_page safe_not_found)

lemma safe_orchestrator_route:
  "length uuid = 36 \<Longrightarrow> ctl.safe answer_backed w (orchestrator_route env uuid r)"
  unfolding orchestrator_route_def route_def
  by (auto intro!: ctl.safe_catch safe_get_route safe_post_route safe_not_found ctl.safe.Throw
      safe_error_page split: js_error.split)

lemma safe_fetch: "length uuid = 36 \<Longrightarrow> ctl.safe answer_backed w (fetch env uuid r)"
  unfolding fetch_def
  by (auto intro!: ctl.safe_catch safe_orchestrator_route intro: safe_return_any)

end
