(* ===== verification/System.thy ===== *)
theory System
  imports Guarantees
begin

text \<open>
  The deployed system: any number of invocations of the Worker, requests and cron ticks,
  interleaved at their awaits over one database and one clock, any of them lost at any
  point. What holds in every reachable state of it is what the single slot, job and spawn
  rows can be relied on for.
\<close>

section \<open>Invocations and reachable states\<close>

inductive invocation :: "env \<Rightarrow> (world, response option) prog \<Rightarrow> bool" for env where
  request: "length uuid = 36 \<Longrightarrow> invocation env (bind (fetch env uuid r) (\<lambda>x. Return (Some x)))"
| cron: "invocation env (bind scheduled (\<lambda>_. Return None))"

inductive tick :: "world \<Rightarrow> world \<Rightarrow> bool" where
  pass: "clock w \<le> t \<Longrightarrow> tick w (w\<lparr>clock := t\<rparr>)"

inductive_simps tick_iff: "tick w w'"

definition initial :: "int \<Rightarrow> (world, response option) pool" where
  "initial t = \<lparr>shared = \<lparr>clock = t, jobs = [], spawns = [], metrics = []\<rparr>, running = []\<rparr>"

definition reachable :: "env \<Rightarrow> (world, response option) pool \<Rightarrow> bool" where
  "reachable env s \<longleftrightarrow> (\<exists>t. pool_reach tick (invocation env) (initial t) s)"

text \<open>The answers that were sent out so far.\<close>

definition answered :: "(world, response option) pool \<Rightarrow> response \<Rightarrow> bool" where
  "answered s r \<longleftrightarrow> Return (Some r) \<in> set (running s)"

definition handed_out :: "(world, response option) pool \<Rightarrow> assignment \<Rightarrow> bool" where
  "handed_out s a \<longleftrightarrow> answered s (Json 200 (Polled (Run a)))"

section \<open>Every reachable state is good\<close>

definition sent_backed :: "world \<Rightarrow> response option \<Rightarrow> bool" where
  "sent_backed w r = (case r of None \<Rightarrow> True | Some x \<Rightarrow> answer_backed w x)"

lemma safe_invocation: "invocation env p \<Longrightarrow> ctl.safe sent_backed w p"
proof (induction rule: invocation.induct)
  case (request uuid r)
  show ?case
    by (rule ctl.safe_bind[OF safe_fetch[OF request]]) (auto simp: sent_backed_def intro: ctl.safe.Return)
next
  case cron
  show ?case
    by (rule ctl.safe_bind[OF safe_scheduled]) (auto simp: sent_backed_def intro: ctl.safe.Return)
qed

lemma tick_ok: "tick w w' \<Longrightarrow> world_inv w \<Longrightarrow> world_inv w' \<and> evolves w w'"
proof -
  assume "tick w w'" and w: "world_inv w"
  then obtain t where t: "clock w \<le> t" "w' = w\<lparr>clock := t\<rparr>" by (auto simp: tick_iff)
  have "world_inv (w\<lparr>clock := t\<rparr>)"
    by (rule world_inv_cong[OF w]) (simp_all add: inv_metrics[OF w])
  with t show ?thesis by (simp add: evolves_def extends_refl)
qed

lemma initial_ok: "ctl.pool_ok Q (initial t)"
  by (simp add: ctl.pool_ok_def initial_def world_inv_def)

lemma system_ok:
  assumes "pool_reach tick (invocation env) s t" "ctl.pool_ok sent_backed s"
  shows "ctl.pool_ok sent_backed t \<and> evolves (shared s) (shared t)"
  using assms(1)
proof (rule ctl.pool_reach_ok)
  show "ctl.safe sent_backed w p" if "invocation env p" for p w
    using that by (rule safe_invocation)
  show "world_inv w' \<and> evolves w w'" if "tick w w'" "world_inv w" for w w'
    using that by (rule tick_ok)
qed (rule assms(2))

lemma reachable_ok: "reachable env s \<Longrightarrow> ctl.pool_ok sent_backed s"
  unfolding reachable_def using system_ok initial_ok by blast

lemma reach_evolves:
  "reachable env s \<Longrightarrow> pool_reach tick (invocation env) s t \<Longrightarrow> evolves (shared s) (shared t)"
  using system_ok reachable_ok by blast

lemma reachable_inv: "reachable env s \<Longrightarrow> world_inv (shared s)"
  using reachable_ok by (auto simp: ctl.pool_ok_def)

lemma handed_out_backed: "reachable env s \<Longrightarrow> handed_out s a \<Longrightarrow> backed (shared s) a"
proof -
  assume s: "reachable env s" and a: "handed_out s a"
  then have "ctl.safe sent_backed (shared s) (Return (Some (Json 200 (Polled (Run a)))))"
    and "world_inv (shared s)"
    using reachable_ok[OF s] by (auto simp: ctl.pool_ok_def handed_out_def answered_def)
  then have "sent_backed (shared s) (Some (Json 200 (Polled (Run a))))"
    using evolves_refl by (blast elim: ctl.safe_ReturnE)
  then show ?thesis by (simp add: sent_backed_def)
qed

section \<open>Executions with nothing interleaved\<close>

text \<open>
  A handler run alone from start to end is one way the system can go, so a concrete
  sequence of requests computed with \<open>run\<close> leads to a reachable state.
\<close>

lemma pool_reach_trans:
  "pool_reach e h t u \<Longrightarrow> pool_reach e h s t \<Longrightarrow> pool_reach e h s u"
  by (induction rule: pool_reach.induct) (auto intro: pool_reach.next_step)

lemma pool_run_last:
  "run p w = (Inr x, w') \<Longrightarrow>
    pool_reach e h \<lparr>shared = w, running = ps @ [p]\<rparr> \<lparr>shared = w', running = ps @ [Return x]\<rparr>"
proof (induction p arbitrary: w)
  case (Atomic f)
  obtain w1 p1 where f: "f w = (w1, p1)" by (cases "f w")
  have mem: "f w \<in> range f" "p1 \<in> Basic_BNFs.snds (f w)" by (rule rangeI, simp add: f)
  from Atomic.prems f have "run p1 w1 = (Inr x, w')" by (simp add: run_Atomic)
  then have "pool_reach e h \<lparr>shared = w1, running = ps @ [p1]\<rparr>
      \<lparr>shared = w', running = ps @ [Return x]\<rparr>"
    by (rule Atomic.IH[OF mem])
  moreover have "pool_step e h \<lparr>shared = w, running = ps @ [Atomic f]\<rparr>
      \<lparr>shared = w1, running = ps @ [p1]\<rparr>"
    using pool_step.act[of "length ps" "\<lparr>shared = w, running = ps @ [Atomic f]\<rparr>" f w1 p1 e h] f
    by simp
  ultimately show ?case using pool_reach_trans pool_reach.intros by metis
qed (auto intro: pool_reach.here)

lemma reachable_initial: "reachable env (initial t)"
  unfolding reachable_def by (blast intro: pool_reach.here)

lemma reachable_step: "reachable env s \<Longrightarrow> pool_step tick (invocation env) s t \<Longrightarrow> reachable env t"
  unfolding reachable_def by (blast intro: pool_reach.next_step)

lemma reachable_reach: "reachable env s \<Longrightarrow> pool_reach tick (invocation env) s t \<Longrightarrow> reachable env t"
  unfolding reachable_def by (blast intro: pool_reach_trans)

lemma reach_request:
  assumes "length uuid = 36" and "run (fetch env uuid r) w = (Inr x, w')"
  shows "pool_reach tick (invocation env) \<lparr>shared = w, running = ps\<rparr>
    \<lparr>shared = w', running = ps @ [Return (Some x)]\<rparr>"
proof -
  have "pool_step tick (invocation env) \<lparr>shared = w, running = ps\<rparr>
      \<lparr>shared = w, running = ps @ [bind (fetch env uuid r) (\<lambda>x. Return (Some x))]\<rparr>"
    using pool_step.arrive[of "invocation env" "bind (fetch env uuid r) (\<lambda>x. Return (Some x))"
        tick "\<lparr>shared = w, running = ps\<rparr>"] invocation.request[OF assms(1)]
    by simp
  note start = pool_reach.next_step[OF pool_reach.here this]
  have "run (bind (fetch env uuid r) (\<lambda>x. Return (Some x))) w = (Inr (Some x), w')"
    by (simp add: run_bind assms(2))
  from pool_reach_trans[OF pool_run_last[OF this] start] show ?thesis .
qed

lemma reachable_request:
  assumes "reachable env \<lparr>shared = w, running = ps\<rparr>" and "length uuid = 36"
    and "run (fetch env uuid r) w = (Inr x, w')"
  shows "reachable env \<lparr>shared = w', running = ps @ [Return (Some x)]\<rparr>"
  using reachable_reach[OF assms(1) reach_request[OF assms(2,3)]] .

lemma reachable_cron:
  assumes "reachable env \<lparr>shared = w, running = ps\<rparr>" and "run scheduled w = (Inr x, w')"
  shows "reachable env \<lparr>shared = w', running = ps @ [Return None]\<rparr>"
proof -
  have "pool_step tick (invocation env) \<lparr>shared = w, running = ps\<rparr>
      \<lparr>shared = w, running = ps @ [bind scheduled (\<lambda>_. Return None)]\<rparr>"
    using pool_step.arrive[of "invocation env" "bind scheduled (\<lambda>_. Return None)"
        tick "\<lparr>shared = w, running = ps\<rparr>"] invocation.cron
    by simp
  moreover have "run (bind scheduled (\<lambda>_. Return None)) w = (Inr None, w')"
    by (simp add: run_bind assms(2))
  ultimately show ?thesis
    using assms(1) reachable_step reachable_reach pool_run_last by metis
qed

lemma reachable_tick:
  assumes "reachable env \<lparr>shared = w, running = ps\<rparr>" and "clock w \<le> t"
  shows "reachable env \<lparr>shared = w\<lparr>clock := t\<rparr>, running = ps\<rparr>"
  using reachable_step[OF assms(1) pool_step.outside, of "w\<lparr>clock := t\<rparr>"] tick.pass[OF assms(2)]
  by simp

section \<open>The rate that was handed out\<close>

lemma backed_spawn:
  assumes w: "world_inv w" and j: "j \<in> set (jobs w)" and a: "backed w a" "run_jobId a = JOB_ID j"
  obtains s where "s \<in> set (spawns w)" "SPAWN_ID s = run_spawnId a" "SPAWN_JOB s = JOB_ID j"
    "int (SLOT s) < AGENTS j" "run_targetRPS a = share_of j (SLOT s)"
proof -
  from a(1) obtain i s where i: "i \<in> set (jobs w)" "JOB_ID i = run_jobId a"
    and s: "s \<in> set (spawns w)" "SPAWN_ID s = run_spawnId a" "SPAWN_JOB s = JOB_ID i"
      "int (SLOT s) < AGENTS i" "run_targetRPS a = share_of i (SLOT s)"
    by (auto simp: backed_def)
  have "i = j" using w i j a(2) distinct_key_eq[of JOB_ID "jobs w"] by (auto simp: world_inv_def)
  with s show ?thesis by (intro that[of s]) auto
qed

definition rate_of :: "assignment \<Rightarrow> int" where
  "rate_of a = js_to_int (run_targetRPS a)"

lemma rates_bounded:
  assumes w: "world_inv w" and j: "j \<in> set (jobs w)" and small: "RPS j + AGENTS j \<le> 2 ^ 52"
    and as: "\<And>a. a \<in> set as \<Longrightarrow> backed w a \<and> run_jobId a = JOB_ID j"
    and dist: "distinct (map run_spawnId as)"
  shows "sum_list (map rate_of as) \<le> RPS j"
    and "length as = nat (AGENTS j) \<Longrightarrow> sum_list (map rate_of as) = RPS j"
proof -
  define sl where "sl a = SLOT (the (find_spawn (run_spawnId a) w))" for a :: assignment
  define N where "N = nat (AGENTS j)"
  have wf: "1 \<le> AGENTS j" "1 \<le> RPS j" using w j by (auto simp: world_inv_def wf_job_def)
  have spawn: "\<exists>s \<in> set (spawns w). SPAWN_ID s = run_spawnId a \<and> SPAWN_JOB s = JOB_ID j \<and>
      SLOT s = sl a \<and> sl a < N \<and> run_targetRPS a = share_of j (sl a)" if "a \<in> set as" for a
  proof -
    from as[OF that] obtain s where s: "s \<in> set (spawns w)" "SPAWN_ID s = run_spawnId a"
      "SPAWN_JOB s = JOB_ID j" "int (SLOT s) < AGENTS j" "run_targetRPS a = share_of j (SLOT s)"
      using backed_spawn[OF w j] by metis
    have "find_spawn (run_spawnId a) w = Some s"
      using find_row_distinct[of SPAWN_ID "spawns w" s] w s(1,2)
      by (simp add: find_spawn_def world_inv_def)
    with s show ?thesis by (intro bexI[of _ s]) (auto simp: sl_def N_def)
  qed
  have rate: "rate_of a = slot_rate (RPS j) (AGENTS j) (int (sl a))" if "a \<in> set as" for a
    using spawn[OF that] small wf by (auto simp: rate_of_def share_of_def rps_for_slot_int)
  have inj: "inj_on sl (set as)"
  proof (rule inj_onI)
    fix a b assume ab: "a \<in> set as" "b \<in> set as" "sl a = sl b"
    then have "run_spawnId a = run_spawnId b"
      using spawn[of a] spawn[of b] slots_distinct[OF w j] by metis
    with ab dist show "a = b" by (simp add: distinct_map inj_on_def)
  qed
  have das: "distinct as" using dist by (simp add: distinct_map)
  have sum: "sum_list (map rate_of as) = (\<Sum>k \<in> sl ` set as. slot_rate (RPS j) (AGENTS j) (int k))"
  proof -
    have "sum_list (map rate_of as) = (\<Sum>a \<in> set as. rate_of a)"
      using das by (simp add: sum_list_distinct_conv_sum_set)
    also have "\<dots> = (\<Sum>a \<in> set as. slot_rate (RPS j) (AGENTS j) (int (sl a)))"
      using rate by simp
    also have "\<dots> = (\<Sum>k \<in> sl ` set as. slot_rate (RPS j) (AGENTS j) (int k))"
      using inj by (simp add: sum.reindex)
    finally show ?thesis .
  qed
  have total: "(\<Sum>k < N. slot_rate (RPS j) (AGENTS j) (int k)) = RPS j"
    using slot_rates_sum[of N "RPS j"] wf by (simp add: N_def)
  have sub: "sl ` set as \<subseteq> {..<N}" using spawn by auto
  have "0 \<le> slot_rate (RPS j) (AGENTS j) (int k)" for k
    using wf by (simp add: slot_rate_def pos_imp_zdiv_nonneg_iff)
  then have "(\<Sum>k \<in> sl ` set as. slot_rate (RPS j) (AGENTS j) (int k)) \<le>
      (\<Sum>k < N. slot_rate (RPS j) (AGENTS j) (int k))"
    by (intro sum_mono2 sub) auto
  then show "sum_list (map rate_of as) \<le> RPS j" by (simp only: sum total)
  assume "length as = nat (AGENTS j)"
  then have "card (sl ` set as) = N"
    using das inj by (simp add: card_image distinct_card N_def)
  with sub have "sl ` set as = {..<N}" by (simp add: card_subset_eq)
  then show "sum_list (map rate_of as) = RPS j" by (simp only: sum total)
qed

end
