(* ===== verification/Samples.thy ===== *)
theory Samples
  imports Invariants
begin

text \<open>
  A small concrete deployment the theorems are applied at: one running job of three agents
  at 10 requests per second, two of its slots taken, and the requests its agents send.
\<close>

definition sample_id :: string where
  "sample_id = ''0f8fad5b-d9cb-469f-a165-70867728950e''"

definition sample_env :: env where
  "sample_env =
     \<lparr>AGENT_TOKEN = Some ''agent-secret'', ADMIN_TOKEN = Some ''admin-secret'',
      DEPLOYMENT_AGENTS = Some ''3'', MAX_WORKERS_PER_AGENT = Some ''512''\<rparr>"

definition sample_job :: job where
  "sample_job =
     \<lparr>JOB_ID = sample_id, RPS = 10, CONCURRENCY = 3, AGENTS = 3, WORKERS_PER_AGENT = 64,
      DURATION = 5, START_AT = Some 1030000, STOP_AT = Some 1330000, UNTHROTTLED = 0,
      STATUS = RUNNING, CREATED_AT = 1000, UPDATED_AT = 1010\<rparr>"

definition sample_spawn :: "string \<Rightarrow> nat \<Rightarrow> spawn" where
  "sample_spawn agent slot =
     \<lparr>SPAWN_ID = spawn_name sample_id agent, SPAWN_JOB = sample_id, AGENT_ID = agent,
      REGION = ''weur'', SPAWN_STATUS = RUNNING, SLOT = slot, LAST_SEEN = Some 1040000,
      AVG_LATENCY = Some 0, AVG_RPS = Some 0, SPAWN_COUNT = Some 0, SPAWN_CREATED = 1010,
      SPAWN_UPDATED = 1010\<rparr>"

definition sample_world :: world where
  "sample_world =
     \<lparr>clock = 1050000, jobs = [sample_job],
      spawns = [sample_spawn ''vm-a'' 0, sample_spawn ''vm-b'' 1], metrics = []\<rparr>"

definition full_world :: world where
  "full_world = sample_world\<lparr>spawns := spawns sample_world @ [sample_spawn ''vm-c'' 2]\<rparr>"

definition poll_body :: "string \<Rightarrow> json_object" where
  "poll_body agent = empty_object\<lparr>token := Val ''agent-secret'', agentId := Val agent\<rparr>"

definition sample_metric :: "string \<Rightarrow> string \<Rightarrow> int \<Rightarrow> rat \<Rightarrow> rat \<Rightarrow> metric" where
  "sample_metric i agent created lat n =
     \<lparr>METRIC_ID = i, METRIC_SPAWN = spawn_name sample_id agent, METRIC_JOB = sample_id,
      TICK_NUMBER = Some 0, LATENCY = Some lat, METRIC_RPS = Some (n / 10),
      ERROR_M1_RATE = Some 0, COUNT = Some n, P50 = Some lat, P95 = Some lat, P99 = Some lat,
      BYTES = Some n, STATUS_4XX = Some 0, STATUS_5XX = Some 0, METRIC_CREATED = created\<rparr>"

definition metered_world :: world where
  "metered_world = sample_world\<lparr>metrics :=
     [sample_metric ''m1'' ''vm-a'' 1030 10 1, sample_metric ''m2'' ''vm-a'' 1040 100 99,
      sample_metric ''m3'' ''vm-b'' 1040 20 100, sample_metric ''m4'' ''vm-b'' 1100 20 100]\<rparr>"

lemmas sample_defs = sample_job_def sample_spawn_def sample_world_def full_world_def

lemma sample_spawn_cols:
  "SPAWN_ID (sample_spawn a k) = spawn_name sample_id a" "SPAWN_JOB (sample_spawn a k) = sample_id"
  "AGENT_ID (sample_spawn a k) = a" "SLOT (sample_spawn a k) = k"
  "SPAWN_STATUS (sample_spawn a k) = RUNNING"
  by (simp_all add: sample_spawn_def)

lemma length_sample_id [simp]: "length sample_id = 36"
  by (simp add: sample_id_def)

lemma sample_world_inv: "world_inv sample_world"
  by (simp add: world_inv_def wf_job_def wf_spawn_def slots_ok_def spawns_of_def count_spawns_def
      sample_defs MAX_AGENTS_PER_JOB_def spawn_name_def upt_rec)

lemma full_world_inv: "world_inv full_world"
  by (simp add: world_inv_def wf_job_def wf_spawn_def slots_ok_def spawns_of_def count_spawns_def
      sample_defs MAX_AGENTS_PER_JOB_def spawn_name_def upt_rec)

lemma sample_token: "verify_agent_token sample_env (Val ''agent-secret'')"
  by (simp add: verify_agent_token_def token_diff_zero sample_env_def)

lemma sample_open_job:
  "select_open_job sample_world = Some sample_job" "select_open_job full_world = Some sample_job"
  by (simp_all add: select_open_job_def sample_defs ACTIVE_STATUSES_def)

end
