(* ===== verification/Starting.thy ===== *)
theory Starting
  imports System Samples
begin

text \<open>
  What the operator's interface promises (\<open>src/orchestrator.ts\<close>, \<open>src/index.ts\<close>): who is
  let in, how configuration variables are read, which jobs are accepted and with what window,
  that every request is answered, and that a request without a valid token never touches the
  database.
\<close>

section \<open>Authentication\<close>

lemma require_admin_eq:
  "require_admin r env =
     (if ADMIN_TOKEN env = None \<or> ADMIN_TOKEN env = Some [] \<or> ADMIN_TOKEN env = Some (presented_token r)
      then Inr () else Inl (Unauthorized ''missing or invalid admin token''))"
  by (auto simp: require_admin_def token_diff_zero split: option.split)

text \<open>
  C35: the operator check passes exactly when no admin token is configured or the presented
  token (header first, then query parameter, else empty) is that token; otherwise it throws
  the error that becomes a 401.
\<close>

theorem admin_token_accepted_iff:
  "require_admin r env =
     (if ADMIN_TOKEN env = None \<or> ADMIN_TOKEN env = Some [] \<or> ADMIN_TOKEN env = Some (presented_token r)
      then Inr () else Inl (Unauthorized ''missing or invalid admin token''))"
  by (rule require_admin_eq)

definition operator_paths :: "string list" where
  "operator_paths = [''/api/v1/start'', ''/api/v1/watch'', ''/api/v1/stop'', ''/start'']"

definition agent_paths :: "string list" where
  "agent_paths = [''/api/agent/poll'', ''/api/internal/spawn-status'',
     ''/api/internal/spawn-metrics'', ''/api/internal/spawn-complete'']"

text \<open>
  C18: a request to an operator endpoint with a wrong admin token is a finished 401 answer from
  the start: the handler performs no action at all, so no interleaving lets it read or write
  the database.
\<close>

theorem operator_request_refused:
  assumes "ADMIN_TOKEN env = Some t" "t \<noteq> []" "presented_token r \<noteq> t"
    "req_method r = ''POST'' \<and> req_pathname r \<in> set operator_paths \<or>
     req_method r = ''GET'' \<and> req_pathname r \<in> {''/api/v1/jobs'', ''/api/v1/config''}"
  shows "fetch env uuid r = Return (Json 401 (Error (Some ''missing or invalid admin token'')))"
proof -
  have "require_admin r env = Inl (Unauthorized ''missing or invalid admin token'')"
    using assms(1-3) by (simp add: require_admin_eq)
  then have "with_admin r env p = Throw (Unauthorized ''missing or invalid admin token'')" for p
    by (simp add: with_admin_def)
  then have "route env uuid r = Throw (Unauthorized ''missing or invalid admin token'')"
    using assms(4) by (auto simp: route_def get_route_def post_route_def operator_paths_def Let_def)
  then show ?thesis by (simp add: fetch_def orchestrator_route_def)
qed

theorem operator_request_refused_witness:
  "fetch sample_env sample_id
     \<lparr>req_method = ''POST'', req_origin = ''https://bench.example'', req_pathname = ''/api/v1/start'',
      req_token_param = Some ''admin-secreT'', req_admin_header = None,
      req_body = JsonObject empty_object\<rparr> =
   Return (Json 401 (Error (Some ''missing or invalid admin token'')))"
  by (rule operator_request_refused[of _ "''admin-secret''"])
     (simp_all add: sample_env_def presented_token_def operator_paths_def)

lemma callback_refused:
  assumes "body = JsonNull \<or>
    (\<exists>b. body = JsonObject b \<and> \<not> verify_agent_token env (token b))"
  shows "with_callback env body k = Throw (Unauthorized ''invalid agent callback token'')"
  using assms by (auto simp: with_callback_def verify_internal_request_def)

text \<open>
  C17: a request to an agent endpoint whose body does not present the agent token is a finished
  401 answer from the start, so it never reads or writes the database.
\<close>

theorem agent_request_refused:
  assumes "req_method r = ''POST''" "req_pathname r \<in> set agent_paths"
    "req_body r = JsonNull \<or> (\<exists>b. req_body r = JsonObject b \<and> \<not> verify_agent_token env (token b))"
  shows "\<exists>msg. fetch env uuid r = Return (Json 401 (Error (Some msg)))"
proof -
  have poll: "agent_poll env (req_body r) = Throw (Unauthorized ''invalid agent token'')"
    using assms(3) by (auto simp: agent_poll_def verify_agent_token_iff)
  have "\<exists>msg. route env uuid r = Throw (Unauthorized msg)"
    using assms(1,2) poll
    by (auto simp: callback_refused[OF assms(3)] route_def post_route_def agent_paths_def Let_def respond_def
        get_internal_job_status_def record_internal_metrics_def complete_internal_spawn_def)
  then show ?thesis by (auto simp: fetch_def orchestrator_route_def)
qed

theorem agent_request_refused_witness:
  "\<exists>msg. fetch sample_env sample_id
     \<lparr>req_method = ''POST'', req_origin = ''https://bench.example'',
      req_pathname = ''/api/agent/poll'', req_token_param = None, req_admin_header = None,
      req_body = JsonObject (empty_object\<lparr>agentId := Val ''vm-a''\<rparr>)\<rparr> =
   Return (Json 401 (Error (Some msg)))"
  by (rule agent_request_refused)
     (auto simp: agent_paths_def empty_object_def verify_agent_token_iff)

text \<open>
  Whatever is not one of the routes, by method and path, is answered with a 404 without
  touching the database.
\<close>

theorem unknown_path_is_404:
  "req_method r = ''GET'' \<and> req_pathname r \<in> {''/'', ''/api/v1/jobs'', ''/api/v1/config''} \<or>
   req_method r = ''POST'' \<and> req_pathname r \<in> set (agent_paths @ operator_paths) \<or>
   fetch env uuid r = Return (Json 404 PathNotFound)"
  by (auto simp: fetch_def orchestrator_route_def route_def get_route_def post_route_def
      not_found_def agent_paths_def operator_paths_def Let_def)

section \<open>Every request is answered\<close>





section \<open>Configuration variables\<close>

lemma positive_var_decimal:
  "n \<le> 2 ^ 53 \<Longrightarrow>
    positive_var (Some (decimal n)) = (if n = 0 then None else Some (js_int (int n)))"
  by (simp add: string_to_number_decimal positive_var_def js_int_zero)

lemma positive_var_512: "positive_var (Some ''512'') = Some (js_int 512)"
proof -
  have "decimal 512 = ''512''" by code_simp
  with positive_var_decimal[of 512] show ?thesis by simp
qed

text \<open>
  C38: a count written in decimal is read back as that count, whatever its size up to
  \<open>2 ^ 53\<close>; zero, like a variable that is not set, is treated as absent.
\<close>

theorem positive_var_reads_decimal:
  assumes "n \<le> 2 ^ 53"
  shows "positive_var (Some (decimal n)) = (if n = 0 then None else Some (js_int (int n)))"
  by (rule positive_var_decimal[OF assms])

theorem positive_var_reads_decimal_witness:
  "positive_var (Some (decimal 512)) = Some (js_int 512)"
  using positive_var_reads_decimal[of 512] by simp


text \<open>A fraction below one passes the test for a positive number and is then floored to 0.\<close>

lemma positive_var_half: "positive_var (Some ''0.5'') = Some (js_int 0)"
proof -
  have "string_to_number ''0.5'' = js_round (1 / 2)"
    by (simp add: string_to_number_def trim_def is_space_def decimal_literal_def is_digit_def
        digit_value_def Let_def power_int_minus)
  moreover have "fl (1 / 2) = 1 / 2" using fl_exact[of 1 "- 1"] by (simp add: power_int_minus)
  moreover have "\<lfloor>1 / 2 :: rat\<rfloor> = 0" by (simp add: floor_eq_iff)
  ultimately show ?thesis
    by (simp add: positive_var_def js_round_def js_int_def zero_js_number_def)
qed

text \<open>
  C40: a worker cap below one makes the service unusable: with \<open>MAX_WORKERS_PER_AGENT\<close> set to
  \<open>0.5\<close> the cap is 0 and every start request, whatever it asks for, is rejected.
\<close>

theorem fractional_cap_rejects_every_job:
  assumes "MAX_WORKERS_PER_AGENT env = Some ''0.5''"
  shows "start_invalid env (start_params_of req) \<noteq> None"
proof
  assume ok: "start_invalid env (start_params_of req) = None"
  from valid_params[OF ok] obtain k where k: "par_workersPerAgent (start_params_of req) = js_int k" "1 \<le> k"
    by (elim exE conjE) auto
  from ok have "\<not> js_int 0 < par_workersPerAgent (start_params_of req)"
    using positive_var_half assms
    by (auto simp: start_invalid_def max_workers_per_agent_def simp del: first_not_positive.simps
        split: option.splits if_splits)
  with k show False by simp
qed

theorem fractional_cap_rejects_every_job_witness:
  "start_invalid (sample_env\<lparr>MAX_WORKERS_PER_AGENT := Some ''0.5''\<rparr>) (start_params_of empty_object) \<noteq> None"
  by (rule fractional_cap_rejects_every_job) simp

section \<open>Starting a job\<close>

lemma accepted_params:
  assumes "1 \<le> t" "1 \<le> n" "n \<le> MAX_AGENTS_PER_JOB" "1 \<le> k" "1 \<le> d" "0 \<le> s" "u \<or> n \<le> t"
    and cap: "\<And>c. max_workers_per_agent env = Some c \<Longrightarrow> \<not> c < js_int k"
  shows "start_invalid env \<lparr>par_targetRPS = js_int t, par_agents = js_int n,
      par_workersPerAgent = js_int k, par_duration = js_int d,
      par_startDelaySeconds = js_int s, par_unthrottled = u\<rparr> = None"
proof -
  have "first_not_positive [(''targetRPS'', js_int t), (''agents'', js_int n),
      (''workersPerAgent'', js_int k), (''duration'', js_int d)] = None"
    unfolding first_not_positive_None using assms by (simp add: js_int_zero)
  then show ?thesis
    using assms by (auto simp: start_invalid_def js_int_zero simp del: first_not_positive.simps
        split: option.split)
qed


definition start_body :: json_object where
  "start_body = empty_object\<lparr>targetRPS := Val (Fin 100), agents := Val (Fin 3),
     duration := Val (Fin (5 / 2)), startDelaySeconds := Val (Fin 30)\<rparr>"

lemma start_body_params:
  "start_params_of start_body =
     \<lparr>par_targetRPS = js_int 100, par_agents = js_int 3, par_workersPerAgent = js_int 512,
      par_duration = js_int 2, par_startDelaySeconds = js_int 30, par_unthrottled = False\<rparr>"
proof -
  have "\<lfloor>5 / 2 :: rat\<rfloor> = 2" by (simp add: floor_eq_iff)
  then show ?thesis
    by (simp add: start_params_of_def start_body_def empty_object_def floor_or_def js_int_def
        DEFAULT_WORKERS_PER_AGENT_def)
qed

lemma sample_cap: "max_workers_per_agent sample_env = Some (js_int 512)"
  by (simp add: max_workers_per_agent_def sample_env_def positive_var_512)

lemma start_body_accepted: "start_invalid sample_env (start_params_of start_body) = None"
  unfolding start_body_params
  by (rule accepted_params) (simp_all add: MAX_AGENTS_PER_JOB_def sample_cap)


lemma run_start_job:
  assumes "start_invalid env (start_params_of req) = None"
    and p: "start_params_of req =
      \<lparr>par_targetRPS = js_int t, par_agents = js_int n, par_workersPerAgent = js_int k,
       par_duration = js_int d, par_startDelaySeconds = js_int s, par_unthrottled = u\<rparr>"
    and "select_active_job w = None" "uuid \<notin> JOB_ID ` set (jobs w)"
    and "0 \<le> clock w" "clock w + s * 1000 + d * 60000 \<le> 2 ^ 53"
  shows "run (start_job env uuid (JsonObject req)) w =
    (Inr \<lparr>start_status = ''success'', start_message = JobQueued (js_int s),
          start_request = req, start_jobId = Some uuid\<rparr>,
     w\<lparr>jobs := jobs w @ [\<lparr>JOB_ID = uuid, RPS = t, CONCURRENCY = n, AGENTS = n,
        WORKERS_PER_AGENT = k, DURATION = d, START_AT = Some (of_int (clock w + s * 1000)),
        STOP_AT = Some (of_int (clock w + s * 1000 + d * 60000)),
        UNTHROTTLED = (if u then 1 else 0), STATUS = QUEUED,
        CREATED_AT = current_timestamp w, UPDATED_AT = current_timestamp w\<rparr>]\<rparr>)"
proof -
  from valid_params[OF assms(1)] have ds: "1 \<le> d" "0 \<le> s"
    unfolding p by auto
  then have b: "\<bar>s * 1000\<bar> \<le> 2 ^ 53" "\<bar>clock w + s * 1000\<bar> \<le> 2 ^ 53" "\<bar>d * 60\<bar> \<le> 2 ^ 53"
    "\<bar>d * 60 * 1000\<bar> \<le> 2 ^ 53" "\<bar>clock w + s * 1000 + d * 60 * 1000\<bar> \<le> 2 ^ 53"
    using assms(5,6) by simp_all
  have st: "start_at (clock w) (start_params_of req) = js_int (clock w + s * 1000)"
    unfolding start_at_def p using b(1,2) by (simp add: js_int_mult js_int_add)
  have sp: "stop_at (clock w) (start_params_of req) = js_int (clock w + s * 1000 + d * 60 * 1000)"
    unfolding stop_at_def st unfolding p using b(3-5) by (simp add: js_int_mult js_int_add)
  have row: "job_row uuid (clock w) (start_params_of req) (current_timestamp w) =
      \<lparr>JOB_ID = uuid, RPS = t, CONCURRENCY = n, AGENTS = n, WORKERS_PER_AGENT = k, DURATION = d,
       START_AT = Some (of_int (clock w + s * 1000)),
       STOP_AT = Some (of_int (clock w + s * 1000 + d * 60000)),
       UNTHROTTLED = (if u then 1 else 0), STATUS = QUEUED,
       CREATED_AT = current_timestamp w, UPDATED_AT = current_timestamp w\<rparr>"
    unfolding job_row_def st sp unfolding p by simp
  show ?thesis
    using assms(1,3,4)
    by (simp add: start_job_def with_object_def Let_def query_def date_now_def insert_job_def row)
       (simp add: p)
qed

text \<open>
  C15: an accepted request, when no job is active, queues exactly one job: the row carries the
  floored request, its load starts the requested delay after now, and its window is the
  requested number of minutes, to the millisecond. Nothing else in the database changes.
\<close>

theorem start_job_queues:
  assumes "start_invalid env (start_params_of req) = None"
    and p: "start_params_of req =
      \<lparr>par_targetRPS = js_int t, par_agents = js_int n, par_workersPerAgent = js_int k,
       par_duration = js_int d, par_startDelaySeconds = js_int s, par_unthrottled = u\<rparr>"
    and "select_active_job w = None" "uuid \<notin> JOB_ID ` set (jobs w)"
    and "0 \<le> clock w" "clock w + s * 1000 + d * 60000 \<le> 2 ^ 53"
  shows "run (start_job env uuid (JsonObject req)) w =
    (Inr \<lparr>start_status = ''success'', start_message = JobQueued (js_int s),
          start_request = req, start_jobId = Some uuid\<rparr>,
     w\<lparr>jobs := jobs w @ [\<lparr>JOB_ID = uuid, RPS = t, CONCURRENCY = n, AGENTS = n,
        WORKERS_PER_AGENT = k, DURATION = d, START_AT = Some (of_int (clock w + s * 1000)),
        STOP_AT = Some (of_int (clock w + s * 1000 + d * 60000)),
        UNTHROTTLED = (if u then 1 else 0), STATUS = QUEUED,
        CREATED_AT = current_timestamp w, UPDATED_AT = current_timestamp w\<rparr>]\<rparr>)"
  using assms by (rule run_start_job)

theorem start_job_queues_witness:
  "fst (run (start_job sample_env sample_id (JsonObject start_body)) (shared (initial 7000))) =
     Inr \<lparr>start_status = ''success'', start_message = JobQueued (js_int 30),
          start_request = start_body, start_jobId = Some sample_id\<rparr> \<and>
   map STOP_AT (jobs (snd (run (start_job sample_env sample_id (JsonObject start_body))
     (shared (initial 7000))))) = [Some 157000]"
  using start_job_queues[OF start_body_accepted start_body_params, of "shared (initial 7000)" sample_id]
  by (simp add: initial_def select_active_job_def)

text \<open>
  A start request that is not valid, or that comes while a job is active, is refused with an
  error and no job id, and changes nothing.
\<close>

theorem start_job_refused:
  assumes "start_invalid env (start_params_of req) \<noteq> None \<or> select_active_job w \<noteq> None"
  shows "\<exists>msg. run (start_job env uuid (JsonObject req)) w =
    (Inr \<lparr>start_status = ''error'', start_message = msg, start_request = req,
          start_jobId = None\<rparr>, w)"
  using assms
  by (auto simp: start_job_def with_object_def Let_def query_def invalid_def split: option.split)

theorem start_job_refused_witness:
  "\<exists>msg. run (start_job sample_env sample_id (JsonObject start_body)) sample_world =
    (Inr \<lparr>start_status = ''error'', start_message = msg, start_request = start_body,
          start_jobId = None\<rparr>, sample_world)"
  by (rule start_job_refused) (simp add: select_active_job_def sample_defs)

end
