(* ===== verification/Activity.thy ===== *)
theory Activity
  imports Starting
begin

text \<open>
  How many jobs can be active at once. Handled one after another, requests and cron ticks
  keep at most one job active: only \<open>start_job\<close> inserts a job, and it looks first. Interleaved
  at their awaits two start requests can both look before either inserts, and then two jobs
  are active.
\<close>

definition active_jobs :: "world \<Rightarrow> nat" where
  "active_jobs w = count_rows (\<lambda>j. STATUS j \<in> {QUEUED, RUNNING, STOPPING}) (jobs w)"

section \<open>Statements that insert no job\<close>

text \<open>
  The second instance of the rely-guarantee contract: the number of jobs stays the same.
\<close>

interpretation len: rely_guarantee "\<lambda>_ :: world. True" "\<lambda>w w'. length (jobs w') = length (jobs w)"
  by unfold_locales auto

lemma len_statements:
  "length (jobs (snd (query q w))) = length (jobs w)"
  "length (jobs (snd (date_now w))) = length (jobs w)"
  "length (jobs (snd (touch_spawn now i w))) = length (jobs w)"
  "length (jobs (snd (claim_slot i j a r now n w))) = length (jobs w)"
  "length (jobs (snd (mark_running j w))) = length (jobs w)"
  "length (jobs (snd (metrics_batch uuid report x y z now w))) = length (jobs w)"
  "length (jobs (snd (fail_batch i j w))) = length (jobs w)"
  "length (jobs (snd (finish_spawn st i w))) = length (jobs w)"
  "length (jobs (snd (finish_job st j w))) = length (jobs w)"
  "length (jobs (snd (fail_stale now w))) = length (jobs w)"
  "length (jobs (snd (finalise_batch st j w))) = length (jobs w)"
  "length (jobs (snd (fail_abandoned now w))) = length (jobs w)"
  "length (jobs (snd (close_stopping w))) = length (jobs w)"
  "length (jobs (snd (request_stop now j w))) = length (jobs w)"
  by (simp_all add: query_def date_now_def touch_spawn_def claim_slot_def mark_running_def
      metrics_batch_def fail_batch_def finish_spawn_def finish_job_def fail_stale_def
      finalise_batch_def fail_abandoned_def close_stopping_def request_stop_def
      set_job_status_def set_spawn_status_def Let_def)

lemma len_await:
  assumes "\<And>w. length (jobs (snd (q w))) = length (jobs w)" "\<And>w x. len.safe anything w (k x)"
  shows "len.safe anything w (await q k)"
  using assms by (intro len.safe_await_any) auto

lemma len_Return [simp]: "len.safe anything w (Return x)"
  by (rule len.safe.Return) (simp add: anything_def)

lemma len_bind: "len.safe anything w p \<Longrightarrow> (\<And>w x. len.safe anything w (k x)) \<Longrightarrow> len.safe anything w (bind p k)"
  by (rule len.safe_bind)

lemmas len_intros = len_await len_statements len.safe.Throw len_Return len_bind len.safe_catch

lemma len_with_object:
  "(\<And>b. len.safe anything w (k b)) \<Longrightarrow> len.safe anything w (with_object body k)"
  by (cases body) (auto simp: with_object_def intro: len.safe.Throw)

lemma len_with_callback:
  "(\<And>d. len.safe anything w (k d)) \<Longrightarrow> len.safe anything w (with_callback env body k)"
  by (auto simp: with_callback_def intro: len.safe.Throw split: sum.split)

lemma len_agent_poll: "len.safe anything w (agent_poll env body)"
  unfolding agent_poll_def poll_authorised_def join_job_def hand_out_def Let_def
  by (auto intro!: len_intros split: sum.split option.split)

lemma len_callbacks:
  "len.safe anything w (get_internal_job_status env body)"
  "len.safe anything w (record_internal_metrics env uuid body)"
  "len.safe anything w (complete_internal_spawn env body)"
  unfolding get_internal_job_status_def record_internal_metrics_def complete_internal_spawn_def
    record_benchmark_metrics_def complete_benchmark_spawn_def Let_def
  by (auto intro!: len_with_callback len_intros split: sum.split list.split)

lemma len_operator:
  "len.safe anything w (watch_job body)" "len.safe anything w (stop_job body)"
  "len.safe anything w list_jobs"
  unfolding watch_job_def watch_request_def stop_job_def list_jobs_def Let_def
  by (auto intro!: len_with_object len_intros split: option.split)

lemma len_finalise_loop:
  "(\<And>w. len.safe anything w rest) \<Longrightarrow> len.safe anything w (finalise_loop js rest)"
  by (induction js arbitrary: w) (auto intro!: len_intros)

lemma len_scheduled: "len.safe anything w scheduled"
  unfolding scheduled_def reap_jobs_def by (auto intro!: len_finalise_loop len_intros)

lemma len_with_admin: "len.safe anything w p \<Longrightarrow> len.safe anything w (with_admin r env p)"
  by (auto simp: with_admin_def intro: len.safe.Throw split: sum.split)

definition starts_job :: "request \<Rightarrow> bool" where
  "starts_job r \<longleftrightarrow> req_method r = ''POST'' \<and> req_pathname r \<in> {''/api/v1/start'', ''/start''}"

lemma len_fetch: "\<not> starts_job r \<Longrightarrow> len.safe anything w (fetch env uuid r)"
  unfolding fetch_def orchestrator_route_def route_def get_route_def post_route_def
    respond_def not_found_def starts_job_def Let_def
  by (auto intro!: len.safe_catch len_with_admin len_bind len_agent_poll len_callbacks
      len_operator len.safe.Throw split: js_error.split)

section \<open>One request after another\<close>

lemma active_jobs_evolve:
  assumes "evolves w w'" "length (jobs w') = length (jobs w)"
  shows "active_jobs w' \<le> active_jobs w"
proof -
  have "list_all2 job_evolves (jobs w) (jobs w')"
    using assms by (auto simp: evolves_def extends_def)
  then have "count_rows (\<lambda>j. STATUS j \<in> {QUEUED, RUNNING, STOPPING}) (jobs w') \<le>
      count_rows (\<lambda>j. STATUS j \<in> {QUEUED, RUNNING, STOPPING}) (jobs w)"
  proof (induction rule: list_all2_induct)
    case (Cons j js j' js')
    have "STATUS j \<le> STATUS j'" using Cons.hyps(1) by (rule job_evolvesD)
    then show ?case using Cons.IH terminal_final[of "STATUS j" "STATUS j'"]
      by (cases "STATUS j"; cases "STATUS j'") auto
  qed simp
  then show ?thesis by (simp add: active_jobs_def)
qed

lemma route_start:
  assumes "starts_job r"
  obtains g where "route env uuid r =
    with_admin r env (bind (start_job env uuid (req_body r)) (\<lambda>x. Return (g x)))"
proof (cases "req_pathname r = ''/start''")
  case True
  with assms show ?thesis
    by (intro that[of "start_page r"]) (simp add: starts_job_def route_def post_route_def Let_def)
next
  case False
  with assms show ?thesis
    by (intro that[of "\<lambda>x. Json 200 (Started x)"])
      (simp add: starts_job_def route_def post_route_def Let_def respond_def)
qed

lemma run_fetch_start:
  assumes "starts_job r"
  shows "snd (run (fetch env uuid r) w) = w \<or>
    snd (run (fetch env uuid r) w) = snd (run (start_job env uuid (req_body r)) w)"
proof -
  from route_start[OF assms] obtain g where g: "route env uuid r =
    with_admin r env (bind (start_job env uuid (req_body r)) (\<lambda>x. Return (g x)))" by metis
  show ?thesis
  proof (cases "require_admin r env")
    case (Inl e)
    then show ?thesis
      by (simp add: fetch_def orchestrator_route_def g with_admin_def split: js_error.split)
  next
    case (Inr u)
    obtain x w' where "run (start_job env uuid (req_body r)) w = (x, w')"
      by (cases "run (start_job env uuid (req_body r)) w")
    then show ?thesis using Inr
      by (cases x)
        (simp_all add: fetch_def orchestrator_route_def g with_admin_def run_catch run_bind
          split: js_error.split)
  qed
qed

lemma no_active_job: "select_active_job w = None \<longleftrightarrow> active_jobs w = 0"
  by (auto simp: select_active_job_def active_jobs_def count_rows_zero find_None_iff)

lemma start_job_active:
  "active_jobs w \<le> 1 \<Longrightarrow> active_jobs (snd (run (start_job env uuid body) w)) \<le> 1"
  by (cases body)
     (auto simp: start_job_def with_object_def Let_def query_def date_now_def insert_job_def
       no_active_job active_jobs_def split: option.split)

lemma fetch_keeps:
  assumes "world_inv w" "length uuid = 36"
  shows "world_inv (snd (run (fetch env uuid r) w))" "evolves w (snd (run (fetch env uuid r) w))"
  using ctl.safe_run[OF safe_fetch[OF assms(2)] assms(1)] by (metis prod.collapse)+

lemma scheduled_keeps:
  assumes "world_inv w"
  shows "world_inv (snd (run scheduled w))" "evolves w (snd (run scheduled w))"
  using ctl.safe_run[OF safe_scheduled assms] by (metis prod.collapse)+

lemma fetch_active:
  assumes "world_inv w" "length uuid = 36" "active_jobs w \<le> 1"
  shows "active_jobs (snd (run (fetch env uuid r) w)) \<le> 1"
proof (cases "starts_job r")
  case True
  from run_fetch_start[OF this, of env uuid w] show ?thesis
    using start_job_active[OF assms(3), of env uuid "req_body r"] assms(3) by presburger
next
  case False
  obtain x w' where r: "run (fetch env uuid r) w = (x, w')" by (cases "run (fetch env uuid r) w")
  have "length (jobs w') = length (jobs w)"
    using len.safe_run[OF len_fetch[OF False] _ r] by simp
  then show ?thesis
    using active_jobs_evolve[OF fetch_keeps(2)[OF assms(1,2), of env r]] assms(3) r by simp
qed

lemma scheduled_active:
  assumes "world_inv w" shows "active_jobs (snd (run scheduled w)) \<le> active_jobs w"
proof -
  obtain x w' where r: "run scheduled w = (x, w')" by (cases "run scheduled w")
  have "length (jobs w') = length (jobs w)"
    using len.safe_run[OF len_scheduled _ r] by simp
  then show ?thesis using active_jobs_evolve[OF scheduled_keeps(2)[OF assms]] r by simp
qed

datatype event = HttpRequest string request | CronTick | TimePasses nat

fun handle :: "env \<Rightarrow> event \<Rightarrow> world \<Rightarrow> world" where
  "handle env (HttpRequest uuid r) w = snd (run (fetch env uuid r) w)"
| "handle env CronTick w = snd (run scheduled w)"
| "handle env (TimePasses d) w = w\<lparr>clock := clock w + int d\<rparr>"

fun fresh_ids :: "event \<Rightarrow> bool" where
  "fresh_ids (HttpRequest uuid r) = (length uuid = 36)"
| "fresh_ids _ = True"

lemma handle_ok:
  assumes "world_inv w" "active_jobs w \<le> 1" "fresh_ids e"
  shows "world_inv (handle env e w) \<and> active_jobs (handle env e w) \<le> 1"
proof (cases e)
  case (HttpRequest uuid r)
  then show ?thesis using fetch_keeps(1) fetch_active assms by simp
next
  case CronTick
  then show ?thesis using scheduled_keeps(1) scheduled_active[of w] assms by simp
next
  case (TimePasses d)
  have "tick w (w\<lparr>clock := clock w + int d\<rparr>)" by (auto simp: tick_iff)
  then show ?thesis using tick_ok assms TimePasses by (simp add: active_jobs_def)
qed

text \<open>
  C7: when requests and cron ticks are handled one after another, whatever they are and in
  whatever order, at most one job is ever queued, running or stopping.
\<close>

theorem one_active_job_when_serial:
  assumes "list_all fresh_ids es"
  shows "active_jobs (fold (handle env) es (shared (initial t))) \<le> 1"
proof -
  have "world_inv (fold (handle env) es w) \<and> active_jobs (fold (handle env) es w) \<le> 1"
    if "world_inv w" "active_jobs w \<le> 1" for w
    using assms that
  proof (induction es arbitrary: w)
    case (Cons e es)
    from Cons.prems(1) have "fresh_ids e" "list_all fresh_ids es" by simp_all
    from handle_ok[OF Cons.prems(2,3) this(1)] Cons.IH[OF this(2)] show ?case by simp
  qed simp
  from this[of "shared (initial t)"] show ?thesis
    using initial_ok[of sent_backed t] by (simp add: ctl.pool_ok_def initial_def active_jobs_def)
qed

theorem one_active_job_when_serial_witness:
  "active_jobs (fold (handle sample_env)
     [HttpRequest sample_id \<lparr>req_method = ''POST'', req_origin = ''https://bench.example'',
        req_pathname = ''/api/v1/start'', req_token_param = None,
        req_admin_header = Some ''admin-secret'', req_body = JsonObject start_body\<rparr>,
      TimePasses 60000, CronTick] (shared (initial 0))) \<le> 1"
  by (rule one_active_job_when_serial) simp

section \<open>Two start requests at once\<close>

text \<open>How a pool goes on when one of its invocations does its next action.\<close>

definition in_pool :: "response handler \<Rightarrow> (world, response option) prog" where
  "in_pool p = bind (catch (catch p
     (\<lambda>e. case e of
            Unauthorized msg \<Rightarrow> Return (Json 401 (Error (Some msg)))
          | _ \<Rightarrow> Throw e)) (\<lambda>_. Return (Json 503 (Error None)))) (\<lambda>x. Return (Some x))"

lemma in_pool_fetch:
  "bind (fetch env uuid r) (\<lambda>x. Return (Some x)) = in_pool (route env uuid r)"
  by (simp add: in_pool_def fetch_def orchestrator_route_def)

lemma in_pool_step:
  assumes "q w = (Inr x, w')" "i < length ps" "ps ! i = in_pool (bind (await q k) c)"
  shows "pool_step e h \<lparr>shared = w, running = ps\<rparr>
    \<lparr>shared = w', running = ps[i := in_pool (bind (k x) c)]\<rparr>"
  using assms pool_step.act[of i "\<lparr>shared = w, running = ps\<rparr>" _ w' "in_pool (bind (k x) c)" e h]
  by (simp add: in_pool_def await_def)

definition start_request :: request where
  "start_request = \<lparr>req_method = ''POST'', req_origin = ''https://bench.example'',
     req_pathname = ''/api/v1/start'', req_token_param = None,
     req_admin_header = Some ''admin-secret'', req_body = JsonObject start_body\<rparr>"

definition other_id :: string where
  "other_id = ''5b2ce19c-7a10-4c5d-a0e4-2a9a1c5d7f31''"

text \<open>The start handler after the request was found valid, after it saw no active job, and
  after it read the clock.\<close>

definition queue_at :: "string \<Rightarrow> int \<Rightarrow> JobStartResponse handler" where
  "queue_at uuid now =
     await (insert_job uuid now (start_params_of start_body)) (\<lambda>_.
       Return \<lparr>start_status = ''success'',
         start_message = JobQueued (par_startDelaySeconds (start_params_of start_body)),
         start_request = start_body, start_jobId = Some uuid\<rparr>)"

definition queue :: "string \<Rightarrow> JobStartResponse handler" where
  "queue uuid = await date_now (queue_at uuid)"

definition look :: "string \<Rightarrow> JobStartResponse handler" where
  "look uuid =
     await (query select_active_job) (\<lambda>active.
       case active of
         Some j \<Rightarrow> Return (invalid start_body (JobStillActive (JOB_ID j)))
       | None \<Rightarrow> queue uuid)"

definition pending :: "JobStartResponse handler \<Rightarrow> (world, response option) prog" where
  "pending p = in_pool (bind p (\<lambda>x. Return (Json 200 (Started x))))"

lemma start_request_looks:
  "bind (fetch sample_env uuid start_request) (\<lambda>x. Return (Some x)) = pending (look uuid)"
  unfolding in_pool_fetch pending_def
proof (rule arg_cong[of _ _ in_pool])
  have "route sample_env uuid start_request =
      respond Started (start_job sample_env uuid (JsonObject start_body))"
    by (simp add: route_def post_route_def start_request_def with_admin_def require_admin_eq
        presented_token_def Let_def) (simp add: sample_env_def)
  also have "start_job sample_env uuid (JsonObject start_body) = look uuid"
    unfolding look_def queue_def queue_at_def[abs_def]
    by (simp add: start_job_def with_object_def Let_def start_body_accepted)
  finally show "route sample_env uuid start_request =
      bind (look uuid) (\<lambda>x. Return (Json 200 (Started x)))"
    by (simp add: respond_def)
qed

lemma pending_Return: "pending (Return x) = Return (Some (Json 200 (Started x)))"
  by (simp add: pending_def in_pool_def)

lemma reach_start:
  assumes "reachable sample_env \<lparr>shared = w, running = ps\<rparr>" "length uuid = 36"
  shows "reachable sample_env \<lparr>shared = w, running = ps @ [pending (look uuid)]\<rparr>"
  using reachable_step[OF assms(1) pool_step.arrive[of "invocation sample_env"
      "bind (fetch sample_env uuid start_request) (\<lambda>x. Return (Some x))"]]
    invocation.request[OF assms(2), of sample_env start_request]
  by (simp add: start_request_looks)

lemma reach_next:
  assumes "reachable env \<lparr>shared = w, running = ps\<rparr>" "i < length ps" "ps ! i = pending (await q k)"
    and "q w = (Inr x, w')"
  shows "reachable env \<lparr>shared = w', running = ps[i := pending (k x)]\<rparr>"
  using reachable_step[OF assms(1) in_pool_step[of q w x w' i ps k], OF assms(4,2)] assms(3)
  unfolding pending_def by blast

lemma reach_look:
  assumes "reachable env \<lparr>shared = w, running = ps\<rparr>" "i < length ps" "ps ! i = pending (look uuid)"
    and "select_active_job w = None"
  shows "reachable env \<lparr>shared = w, running = ps[i := pending (queue uuid)]\<rparr>"
  using reach_next[OF assms(1-2) assms(3)[unfolded look_def], of None w] assms(4)
  by (simp add: query_def)

lemma reach_queue:
  assumes "reachable env \<lparr>shared = w, running = ps\<rparr>" "i < length ps" "ps ! i = pending (queue uuid)"
  shows "reachable env \<lparr>shared = w, running = ps[i := pending (queue_at uuid (clock w))]\<rparr>"
  using reach_next[OF assms(1-2) assms(3)[unfolded queue_def], of "clock w" w]
  by (simp add: date_now_def)

lemma reach_insert:
  assumes "reachable env \<lparr>shared = w, running = ps\<rparr>" "i < length ps"
    and "ps ! i = pending (queue_at uuid now)"
    and "insert_job uuid now (start_params_of start_body) w = (Inr (), w')"
  shows "reachable env \<lparr>shared = w', running = ps[i := Return (Some (Json 200 (Started
    \<lparr>start_status = ''success'',
     start_message = JobQueued (par_startDelaySeconds (start_params_of start_body)),
     start_request = start_body, start_jobId = Some uuid\<rparr>)))]\<rparr>"
  using reach_next[OF assms(1-2) assms(3)[unfolded queue_at_def] assms(4)]
  by (simp add: pending_Return)

definition queued :: "string \<Rightarrow> job" where
  "queued uuid = job_row uuid 0 (start_params_of start_body) 0"

text \<open>
  C29: the check for an active job and the insert are two statements, so two operators who
  press start at the same moment both succeed: there is a reachable state with two active
  jobs, both of them announced as queued. The rule that only one job is active at a time
  holds for requests handled one by one and not in general.
\<close>

theorem concurrent_starts_queue_two_jobs:
  "\<exists>s. reachable sample_env s \<and> active_jobs (shared s) = 2 \<and>
     (\<exists>a b. answered s (Json 200 (Started a)) \<and> start_jobId a = Some sample_id \<and>
        start_status a = ''success'' \<and> answered s (Json 200 (Started b)) \<and>
        start_jobId b = Some other_id \<and> start_status b = ''success'')"
proof -
  define w0 :: world where "w0 = \<lparr>clock = 0, jobs = [], spawns = [], metrics = []\<rparr>"
  define w1 where "w1 = w0\<lparr>jobs := [queued sample_id]\<rparr>"
  define w2 where "w2 = w0\<lparr>jobs := [queued sample_id, queued other_id]\<rparr>"
  define ans where "ans uuid = \<lparr>start_status = ''success'',
         start_message = JobQueued (par_startDelaySeconds (start_params_of start_body)),
         start_request = start_body, start_jobId = Some uuid\<rparr>" for uuid
  have none: "select_active_job w0 = None" by (simp add: select_active_job_def w0_def)
  have now: "clock w0 = 0" "clock w1 = 0" by (simp_all add: w0_def w1_def)
  have ids: "length sample_id = 36" "length other_id = 36" "other_id \<noteq> sample_id"
    by (simp_all add: sample_id_def other_id_def)
  have ins: "insert_job sample_id 0 (start_params_of start_body) w0 = (Inr (), w1)"
    "insert_job other_id 0 (start_params_of start_body) w1 = (Inr (), w2)"
    using ids(3) by (simp_all add: insert_job_def w0_def w1_def w2_def queued_def job_row_def
        current_timestamp_def)
  have "reachable sample_env \<lparr>shared = w0, running = []\<rparr>"
    using reachable_initial[of sample_env 0] by (simp add: initial_def w0_def)
  from reach_start[OF reach_start[OF this ids(1)] ids(2)]
  have "reachable sample_env \<lparr>shared = w0, running = [pending (look sample_id), pending (look other_id)]\<rparr>"
    by simp
  from reach_look[OF this, of 0 sample_id]
  have "reachable sample_env \<lparr>shared = w0, running = [pending (queue sample_id), pending (look other_id)]\<rparr>"
    by (simp add: none)
  from reach_look[OF this, of 1 other_id]
  have "reachable sample_env \<lparr>shared = w0, running = [pending (queue sample_id), pending (queue other_id)]\<rparr>"
    by (simp add: none)
  from reach_queue[OF this, of 0 sample_id]
  have "reachable sample_env \<lparr>shared = w0, running = [pending (queue_at sample_id 0), pending (queue other_id)]\<rparr>"
    by (simp add: now)
  from reach_insert[OF this, of 0 sample_id 0, OF _ _ ins(1)]
  have "reachable sample_env \<lparr>shared = w1, running = [Return (Some (Json 200 (Started (ans sample_id)))),
      pending (queue other_id)]\<rparr>"
    by (simp add: ans_def)
  from reach_queue[OF this, of 1 other_id]
  have "reachable sample_env \<lparr>shared = w1, running = [Return (Some (Json 200 (Started (ans sample_id)))),
      pending (queue_at other_id 0)]\<rparr>"
    by (simp add: now)
  from reach_insert[OF this, of 1 other_id 0, OF _ _ ins(2)]
  have "reachable sample_env \<lparr>shared = w2, running = [Return (Some (Json 200 (Started (ans sample_id)))),
      Return (Some (Json 200 (Started (ans other_id))))]\<rparr>" (is "reachable _ ?s")
    by (simp add: ans_def)
  moreover have "active_jobs (shared ?s) = 2"
    by (simp add: active_jobs_def w2_def queued_def job_row_def)
  moreover have "answered ?s (Json 200 (Started (ans sample_id)))"
    "answered ?s (Json 200 (Started (ans other_id)))"
    by (auto simp: answered_def)
  moreover have "start_jobId (ans uuid) = Some uuid" "start_status (ans uuid) = ''success''" for uuid
    by (simp_all add: ans_def)
  ultimately show ?thesis by blast
qed

end
