(* ===== verification/Reaping.thy ===== *)
theory Reaping
  imports Activity
begin

text \<open>
  The reconciliation sweep (\<open>reap_jobs\<close> of \<open>src/spawn.ts\<close>) as one pass over the tables:
  \<open>reaped_spawn\<close> and \<open>reaped_job\<close> say for a single row what the sequence of statements
  does to it. The sweep is equivalent to that pass; that it terminates every closed job, and
  that a second sweep finds nothing to do, follow from it.
\<close>

section \<open>The sweep as one pass\<close>

definition expired_in :: "int \<Rightarrow> world \<Rightarrow> string \<Rightarrow> bool" where
  "expired_in now w i \<longleftrightarrow>
     (\<exists>j \<in> set (jobs w). JOB_ID j = i \<and> is_expired (now - JOB_FINALISE_GRACE_MS) j)"

definition reaped_spawn :: "int \<Rightarrow> world \<Rightarrow> spawn \<Rightarrow> status" where
  "reaped_spawn now w s =
     (if is_stale (now - SPAWN_STALE_AFTER_MS) s then FAILED
      else if SPAWN_STATUS s = RUNNING \<and> expired_in now w (SPAWN_JOB s) then COMPLETED
      else SPAWN_STATUS s)"

definition live_spawns :: "int \<Rightarrow> world \<Rightarrow> string \<Rightarrow> nat" where
  "live_spawns now w i =
     count_rows (\<lambda>s. SPAWN_JOB s = i \<and> SPAWN_STATUS s = RUNNING \<and>
       \<not> is_stale (now - SPAWN_STALE_AFTER_MS) s) (spawns w)"

definition reaped_job :: "int \<Rightarrow> world \<Rightarrow> job \<Rightarrow> status" where
  "reaped_job now w j =
     (if is_expired (now - JOB_FINALISE_GRACE_MS) j
      then (if 0 < count_spawns (JOB_ID j) w then COMPLETED else FAILED)
      else if is_abandoned (now - QUEUED_WITHOUT_AGENTS_TIMEOUT_MS) w j then FAILED
      else if STATUS j = STOPPING \<and> live_spawns now w (JOB_ID j) = 0 then STOPPED
      else STATUS j)"

definition with_spawn_status :: "int \<Rightarrow> status \<Rightarrow> spawn \<Rightarrow> spawn" where
  "with_spawn_status t st s =
     (if st = SPAWN_STATUS s then s else s\<lparr>SPAWN_STATUS := st, SPAWN_UPDATED := t\<rparr>)"

definition with_job_status :: "int \<Rightarrow> status \<Rightarrow> job \<Rightarrow> job" where
  "with_job_status t st j = (if st = STATUS j then j else j\<lparr>STATUS := st, UPDATED_AT := t\<rparr>)"

definition reaped :: "world \<Rightarrow> world" where
  "reaped w =
     w\<lparr>jobs := map (\<lambda>j. with_job_status (current_timestamp w) (reaped_job (clock w) w j) j) (jobs w),
       spawns := map (\<lambda>s. with_spawn_status (current_timestamp w) (reaped_spawn (clock w) w s) s)
         (spawns w)\<rparr>"

section \<open>The loop over closed jobs\<close>

definition finalised_world :: "string list \<Rightarrow> world \<Rightarrow> world" where
  "finalised_world ids w =
     w\<lparr>jobs := map (\<lambda>r. if JOB_ID r \<in> set ids \<and> STATUS r \<in> {QUEUED, RUNNING, STOPPING}
           then r\<lparr>STATUS := if 0 < count_spawns (JOB_ID r) w then COMPLETED else FAILED,
                  UPDATED_AT := current_timestamp w\<rparr> else r) (jobs w),
       spawns := map (\<lambda>s. if SPAWN_JOB s \<in> set ids \<and> SPAWN_STATUS s = RUNNING
           then s\<lparr>SPAWN_STATUS := COMPLETED, SPAWN_UPDATED := current_timestamp w\<rparr> else s) (spawns w)\<rparr>"

lemma finalised_world_Nil: "finalised_world [] w = w"
  by (simp add: finalised_world_def)

lemma finalise_batch_frame:
  "count_spawns i (snd (finalise_batch st j w)) = count_spawns i w"
  "current_timestamp (snd (finalise_batch st j w)) = current_timestamp w"
  by (simp_all add: finalise_batch_def)

lemma finalise_batch_tables:
  "jobs (snd (finalise_batch st j w)) = map (\<lambda>r. if JOB_ID r = j \<and> STATUS r \<in> {QUEUED, RUNNING, STOPPING}
     then r\<lparr>STATUS := st, UPDATED_AT := current_timestamp w\<rparr> else r) (jobs w)"
  "spawns (snd (finalise_batch st j w)) = map (\<lambda>s. if SPAWN_JOB s = j \<and> SPAWN_STATUS s = RUNNING
     then s\<lparr>SPAWN_STATUS := COMPLETED, SPAWN_UPDATED := current_timestamp w\<rparr> else s) (spawns w)"
  "metrics (snd (finalise_batch st j w)) = metrics w" "clock (snd (finalise_batch st j w)) = clock w"
  by (auto simp: finalise_batch_def set_job_status_def[of st] set_spawn_status_def
      current_timestamp_def update_rows_def)

lemma finalised_world_Cons:
  "finalised_world ids (snd (finalise_batch (if 0 < count_spawns j w then COMPLETED else FAILED) j w)) =
     finalised_world (j # ids) w"
  by (rule world.equality)
     (simp_all only: finalised_world_def world.simps world.select_convs world.update_convs
       finalise_batch_tables finalise_batch_frame map_map,
      auto simp: finalise_batch_tables)

lemma run_finalise_loop:
  "run (finalise_loop ids rest) w = run rest (finalised_world ids w)"
proof (induction ids arbitrary: w)
  case Nil
  then show ?case by (simp add: finalised_world_Nil)
next
  case (Cons j ids)
  have "run (finalise_loop (j # ids) rest) w = run (finalise_loop ids rest)
      (snd (finalise_batch (if 0 < count_spawns j w then COMPLETED else FAILED) j w))"
    by (simp add: query_def finalise_batch_def)
  also have "\<dots> = run rest (finalised_world (j # ids) w)"
    by (simp only: Cons.IH finalised_world_Cons)
  finally show ?case .
qed

lemma count_rows_map: "count_rows P (map f xs) = count_rows (\<lambda>x. P (f x)) xs"
  by (induction xs) auto

text \<open>The four rules in turn.\<close>

definition after_stale :: "world \<Rightarrow> world" where
  "after_stale w = snd (fail_stale (clock w - SPAWN_STALE_AFTER_MS) w)"

definition after_finalise :: "world \<Rightarrow> world" where
  "after_finalise w =
     finalised_world (expired_jobs (clock w - JOB_FINALISE_GRACE_MS) w) (after_stale w)"

lemma after_stale_tables:
  "spawns (after_stale w) = map (\<lambda>s. if is_stale (clock w - SPAWN_STALE_AFTER_MS) s
     then s\<lparr>SPAWN_STATUS := FAILED, SPAWN_UPDATED := current_timestamp w\<rparr> else s) (spawns w)"
  "jobs (after_stale w) = jobs w" "metrics (after_stale w) = metrics w"
  "clock (after_stale w) = clock w" "current_timestamp (after_stale w) = current_timestamp w"
  "count_spawns i (after_stale w) = count_spawns i w"
  by (simp_all add: after_stale_def fail_stale_def)
     (simp add: set_spawn_status_def update_rows_def)

lemma expired_jobs_iff:
  assumes "distinct (map JOB_ID (jobs w))" "j \<in> set (jobs w)"
  shows "JOB_ID j \<in> set (expired_jobs limit w) \<longleftrightarrow> is_expired limit j"
proof
  assume "JOB_ID j \<in> set (expired_jobs limit w)"
  then obtain i where "i \<in> set (jobs w)" "is_expired limit i" "JOB_ID i = JOB_ID j"
    by (auto simp: expired_jobs_def)
  with distinct_key_eq[OF assms(1) _ assms(2)] show "is_expired limit j" by metis
qed (use assms(2) in \<open>auto simp: expired_jobs_def\<close>)

lemma after_finalise_jobs:
  assumes "distinct (map JOB_ID (jobs w))"
  shows "jobs (after_finalise w) =
    map (\<lambda>j. if is_expired (clock w - JOB_FINALISE_GRACE_MS) j
       then j\<lparr>STATUS := if 0 < count_spawns (JOB_ID j) w then COMPLETED else FAILED,
              UPDATED_AT := current_timestamp w\<rparr> else j) (jobs w)"
proof -
  have "(JOB_ID j \<in> set (expired_jobs (clock w - JOB_FINALISE_GRACE_MS) w) \<and>
      STATUS j \<in> {QUEUED, RUNNING, STOPPING}) = is_expired (clock w - JOB_FINALISE_GRACE_MS) j"
    if "j \<in> set (jobs w)" for j
    using expired_jobs_iff[OF assms that] by (auto simp: is_expired_def)
  then show ?thesis
    by (simp add: after_finalise_def finalised_world_def after_stale_tables cong: map_cong)
qed

lemma after_finalise_spawns:
  "spawns (after_finalise w) =
    map (\<lambda>s. with_spawn_status (current_timestamp w) (reaped_spawn (clock w) w s) s) (spawns w)"
proof -
  have e: "SPAWN_JOB s \<in> set (expired_jobs (clock w - JOB_FINALISE_GRACE_MS) w) \<longleftrightarrow>
      expired_in (clock w) w (SPAWN_JOB s)" for s
    by (force simp: expired_jobs_def expired_in_def)
  show ?thesis
    by (auto simp: after_finalise_def finalised_world_def after_stale_tables e reaped_spawn_def
        with_spawn_status_def is_stale_def)
qed

lemma after_finalise_frame:
  "metrics (after_finalise w) = metrics w" "clock (after_finalise w) = clock w"
  "current_timestamp (after_finalise w) = current_timestamp w"
  by (simp_all add: after_finalise_def finalised_world_def after_stale_tables current_timestamp_def)

lemma with_spawn_status_cols [simp]:
  "SPAWN_JOB (with_spawn_status t st s) = SPAWN_JOB s" "SPAWN_STATUS (with_spawn_status t st s) = st"
  "LAST_SEEN (with_spawn_status t st s) = LAST_SEEN s"
  by (simp_all add: with_spawn_status_def)

lemma with_job_status_cols [simp]:
  "JOB_ID (with_job_status t st j) = JOB_ID j" "STATUS (with_job_status t st j) = st"
  "START_AT (with_job_status t st j) = START_AT j" "STOP_AT (with_job_status t st j) = STOP_AT j"
  by (simp_all add: with_job_status_def)

lemma after_finalise_count:
  "count_spawns i (after_finalise w) = count_spawns i w"
  by (simp add: count_spawns_def after_finalise_spawns count_rows_map)

lemma after_finalise_running:
  "count_running i (after_finalise w) = (if expired_in (clock w) w i then 0 else live_spawns (clock w) w i)"
proof -
  have "count_running i (after_finalise w) =
      count_rows (\<lambda>s. SPAWN_JOB s = i \<and> reaped_spawn (clock w) w s = RUNNING) (spawns w)"
    by (simp add: count_running_def after_finalise_spawns count_rows_map)
  also have "\<dots> = (if expired_in (clock w) w i then 0 else live_spawns (clock w) w i)"
    unfolding live_spawns_def
    by (auto simp: count_rows_zero reaped_spawn_def intro!: count_rows_cong)
  finally show ?thesis .
qed

lemma reap_jobs_is_one_pass:
  assumes "distinct (map JOB_ID (jobs w))"
  shows "run reap_jobs w =
    (Inr \<lparr>finalised = count_rows (is_expired (clock w - JOB_FINALISE_GRACE_MS)) (jobs w),
          staleSpawns = count_rows (is_stale (clock w - SPAWN_STALE_AFTER_MS)) (spawns w),
          abandoned = count_rows (\<lambda>j. \<not> is_expired (clock w - JOB_FINALISE_GRACE_MS) j \<and>
            is_abandoned (clock w - QUEUED_WITHOUT_AGENTS_TIMEOUT_MS) w j) (jobs w)\<rparr>,
     reaped w)"
proof -
  define f where "f = after_finalise w"
  define limit where "limit = clock w - QUEUED_WITHOUT_AGENTS_TIMEOUT_MS"
  define v where "v = set_job_status FAILED (is_abandoned limit f) f"
  have run: "run reap_jobs w =
      (Inr \<lparr>finalised = length (expired_jobs (clock w - JOB_FINALISE_GRACE_MS) w),
         staleSpawns = count_rows (is_stale (clock w - SPAWN_STALE_AFTER_MS)) (spawns w),
         abandoned = count_rows (is_abandoned limit f) (jobs f)\<rparr>,
       set_job_status STOPPED (is_wound_down v) v)"
  proof -
    have "expired_jobs l (after_stale w) = expired_jobs l w" for l
      by (simp add: expired_jobs_def after_stale_tables)
    then show ?thesis
      by (simp add: reap_jobs_def date_now_def fail_stale_def query_def run_finalise_loop
          fail_abandoned_def close_stopping_def f_def after_finalise_def v_def limit_def)
         (simp add: after_stale_def fail_stale_def)
  qed
  have ab: "is_abandoned limit f j = is_abandoned limit w j" for j
    by (simp add: is_abandoned_def f_def after_finalise_count)
  have jf: "jobs f = map (\<lambda>j. if is_expired (clock w - JOB_FINALISE_GRACE_MS) j
       then j\<lparr>STATUS := if 0 < count_spawns (JOB_ID j) w then COMPLETED else FAILED,
              UPDATED_AT := current_timestamp w\<rparr> else j) (jobs w)"
    unfolding f_def by (rule after_finalise_jobs[OF assms])
  have n1: "length (expired_jobs (clock w - JOB_FINALISE_GRACE_MS) w) =
      count_rows (is_expired (clock w - JOB_FINALISE_GRACE_MS)) (jobs w)"
    by (simp add: expired_jobs_def count_rows_def)
  have n2: "count_rows (is_abandoned limit f) (jobs f) =
      count_rows (\<lambda>j. \<not> is_expired (clock w - JOB_FINALISE_GRACE_MS) j \<and> is_abandoned limit w j) (jobs w)"
    unfolding jf count_rows_map ab by (rule count_rows_cong) (auto simp: is_abandoned_def)
  have wd: "is_wound_down v j = (STATUS j = STOPPING \<and>
      (expired_in (clock w) w (JOB_ID j) \<or> live_spawns (clock w) w (JOB_ID j) = 0))" for j
    by (simp add: is_wound_down_def v_def f_def after_finalise_running)
  have ts: "current_timestamp f = current_timestamp w" "current_timestamp v = current_timestamp w"
    by (simp_all add: f_def v_def after_finalise_frame)
  have ex: "expired_in (clock w) w (JOB_ID j) = is_expired (clock w - JOB_FINALISE_GRACE_MS) j"
    if "j \<in> set (jobs w)" for j
    using that distinct_key_eq[OF assms] by (auto simp: expired_in_def)
  have jobs: "jobs (set_job_status STOPPED (is_wound_down v) v) = jobs (reaped w)"
  proof -
    have "jobs (set_job_status STOPPED (is_wound_down v) v) =
        map (\<lambda>j. if is_wound_down v j then j\<lparr>STATUS := STOPPED, UPDATED_AT := current_timestamp w\<rparr> else j)
          (map (\<lambda>j. if is_abandoned limit w j then j\<lparr>STATUS := FAILED, UPDATED_AT := current_timestamp w\<rparr> else j)
            (jobs f))"
      unfolding set_job_status_def[of STOPPED] ts
      by (simp add: update_rows_def v_def set_job_status_def[of FAILED] ts ab)
    also have "\<dots> = jobs (reaped w)"
      unfolding jf map_map reaped_def
      by (auto simp: wd ex reaped_job_def with_job_status_def is_expired_def is_abandoned_def limit_def)
    finally show ?thesis .
  qed
  have "set_job_status STOPPED (is_wound_down v) v = reaped w"
    by (rule world.equality)
       (simp_all add: jobs, simp_all add: v_def f_def after_finalise_frame after_finalise_spawns reaped_def)
  with run n2 show ?thesis unfolding n1 limit_def by simp
qed

lemma inv_distinct_jobs: "world_inv w \<Longrightarrow> distinct (map JOB_ID (jobs w))"
  by (simp add: world_inv_def)

lemma run_scheduled:
  "distinct (map JOB_ID (jobs w)) \<Longrightarrow> run scheduled w = (Inr (), reaped w)"
  by (simp add: scheduled_def run_catch run_bind reap_jobs_is_one_pass)

lemma reaped_frame:
  "clock (reaped w) = clock w" "metrics (reaped w) = metrics w"
  "map JOB_ID (jobs (reaped w)) = map JOB_ID (jobs w)" "count_spawns i (reaped w) = count_spawns i w"
  by (simp_all add: reaped_def count_spawns_def count_rows_map)

text \<open>A swept table has no row any rule applies to.\<close>

lemma reaped_no_stale:
  "s \<in> set (spawns (reaped w)) \<Longrightarrow> \<not> is_stale (clock w - SPAWN_STALE_AFTER_MS) s"
  by (auto simp: reaped_def is_stale_def reaped_spawn_def split: if_splits)

lemma reaped_no_expired:
  "j \<in> set (jobs (reaped w)) \<Longrightarrow> \<not> is_expired (clock w - JOB_FINALISE_GRACE_MS) j"
  by (auto simp: reaped_def is_expired_def reaped_job_def split: if_splits)

lemma reaped_no_abandoned:
  "j \<in> set (jobs (reaped w)) \<Longrightarrow> \<not> is_abandoned (clock w - QUEUED_WITHOUT_AGENTS_TIMEOUT_MS) (reaped w) j"
  by (auto simp: is_abandoned_def reaped_frame)
     (auto simp: reaped_def reaped_job_def is_abandoned_def split: if_splits)

lemma reaped_running:
  "count_running i (reaped w) =
     (if expired_in (clock w) w i then 0 else live_spawns (clock w) w i)"
  using after_finalise_running[of i w]
  by (simp add: count_running_def after_finalise_spawns reaped_def)

lemma reaped_live:
  "live_spawns (clock w) (reaped w) i = count_running i (reaped w)"
  unfolding live_spawns_def count_running_def using reaped_no_stale by (intro count_rows_cong) auto

lemma reaped_no_wound_down:
  assumes "distinct (map JOB_ID (jobs w))" "j \<in> set (jobs (reaped w))" "STATUS j = STOPPING"
  shows "0 < live_spawns (clock w) (reaped w) (JOB_ID j)"
proof -
  from assms(2) obtain i where i: "i \<in> set (jobs w)" "JOB_ID j = JOB_ID i"
    "STATUS j = reaped_job (clock w) w i" by (auto simp: reaped_def)
  with assms(3) have r: "reaped_job (clock w) w i = STOPPING" by simp
  then have "\<not> is_expired (clock w - JOB_FINALISE_GRACE_MS) i"
    by (auto simp: reaped_job_def split: if_splits)
  then have "\<not> expired_in (clock w) w (JOB_ID i)"
    unfolding expired_in_def using distinct_key_eq[OF assms(1) i(1)] by metis
  moreover from r have "0 < live_spawns (clock w) w (JOB_ID i)"
    by (auto simp: reaped_job_def split: if_splits)
  ultimately show ?thesis using i(2) by (simp add: reaped_live reaped_running)
qed

lemma reaped_twice:
  assumes "distinct (map JOB_ID (jobs w))" shows "reaped (reaped w) = reaped w"
proof -
  have "reaped_job (clock w) (reaped w) j = STATUS j" if "j \<in> set (jobs (reaped w))" for j
    using reaped_no_expired[OF that] reaped_no_abandoned[OF that] reaped_no_wound_down[OF assms that]
    by (auto simp: reaped_job_def)
  then have j: "map (\<lambda>j. with_job_status t (reaped_job (clock w) (reaped w) j) j) (jobs (reaped w)) =
      jobs (reaped w)" for t
    by (simp add: with_job_status_def map_idI)
  have "\<not> expired_in (clock w) (reaped w) i" for i
    using reaped_no_expired by (auto simp: expired_in_def)
  then have "reaped_spawn (clock w) (reaped w) s = SPAWN_STATUS s" if "s \<in> set (spawns (reaped w))" for s
    using reaped_no_stale[OF that] by (simp add: reaped_spawn_def)
  then have s: "map (\<lambda>s. with_spawn_status t (reaped_spawn (clock w) (reaped w) s) s) (spawns (reaped w)) =
      spawns (reaped w)" for t
    by (simp add: with_spawn_status_def map_idI)
  show ?thesis
    unfolding reaped_def[of "reaped w"] reaped_frame(1) j s by simp
qed

section \<open>Properties\<close>

text \<open>
  C4: the sweep, a loop of ten statements and more, does to every row what one pass over the
  tables does, in the order of its four rules: silent spawns fail, jobs past their window
  are completed (or failed when no agent ever joined) together with their running spawns, queued
  jobs nobody joined fail, and stopping jobs with no live spawn are stopped. Its counts are those
  of the rows the rules apply to.
\<close>

theorem sweep_is_one_pass:
  assumes "world_inv w"
  shows "run reap_jobs w =
    (Inr \<lparr>finalised = count_rows (is_expired (clock w - 30000)) (jobs w),
          staleSpawns = count_rows (is_stale (clock w - 90000)) (spawns w),
          abandoned = count_rows (\<lambda>j. \<not> is_expired (clock w - 30000) j \<and>
            is_abandoned (clock w - 300000) w j) (jobs w)\<rparr>,
     reaped w)"
  using reap_jobs_is_one_pass[OF inv_distinct_jobs[OF assms]]
  by (simp add: JOB_FINALISE_GRACE_MS_def SPAWN_STALE_AFTER_MS_def QUEUED_WITHOUT_AGENTS_TIMEOUT_MS_def)

theorem sweep_is_one_pass_witness:
  "run reap_jobs sample_world =
    (Inr \<lparr>finalised = 0, staleSpawns = 0, abandoned = 0\<rparr>, sample_world)"
proof -
  have "reaped sample_world = sample_world"
    by (simp add: reaped_def sample_defs reaped_job_def reaped_spawn_def is_expired_def
        is_abandoned_def is_stale_def expired_in_def with_job_status_def with_spawn_status_def
        JOB_FINALISE_GRACE_MS_def SPAWN_STALE_AFTER_MS_def)
  moreover have "count_rows (is_stale 960000) (spawns sample_world) = 0"
    "count_rows (is_expired 1020000) (jobs sample_world) = 0" "clock sample_world = 1050000"
    "count_rows (\<lambda>j. \<not> is_expired 1020000 j \<and> is_abandoned 750000 sample_world j) (jobs sample_world) = 0"
    by (simp_all add: sample_defs is_stale_def is_expired_def is_abandoned_def)
  ultimately show ?thesis using sweep_is_one_pass[OF sample_world_inv] by simp
qed

text \<open>
  C8: a cron tick leaves nothing hanging. Afterwards every job whose window closed more than 30
  seconds ago is in a terminal state, no spawn that was silent for 90 seconds counts as
  running, and a job that is still stopping has an agent that is still running.
\<close>

theorem sweep_leaves_nothing_hanging:
  assumes "world_inv w" "run scheduled w = (r, w')"
  shows "r = Inr () \<and>
    (\<forall>j \<in> set (jobs w'). sql_less (STOP_AT j) (of_int (clock w - 30000)) \<longrightarrow> terminal (STATUS j)) \<and>
    (\<forall>s \<in> set (spawns w'). \<not> is_stale (clock w - 90000) s) \<and>
    (\<forall>j \<in> set (jobs w'). STATUS j = STOPPING \<longrightarrow> 0 < count_running (JOB_ID j) w')"
proof -
  have w': "r = Inr ()" "w' = reaped w"
    using assms(2) run_scheduled[OF inv_distinct_jobs[OF assms(1)]] by simp_all
  have t: "terminal (STATUS j)"
    if "j \<in> set (jobs w')" "sql_less (STOP_AT j) (of_int (clock w - 30000))" for j
    using reaped_no_expired[of j w] that w'(2)
    by (cases "STATUS j") (auto simp: is_expired_def JOB_FINALISE_GRACE_MS_def)
  moreover have "\<not> is_stale (clock w - 90000) s" if "s \<in> set (spawns w')" for s
    using reaped_no_stale[of s w] that w'(2) by (simp add: SPAWN_STALE_AFTER_MS_def)
  moreover have "0 < count_running (JOB_ID j) w'" if "j \<in> set (jobs w')" "STATUS j = STOPPING" for j
    using reaped_no_wound_down[OF inv_distinct_jobs[OF assms(1)]] that w'(2) reaped_live by metis
  ultimately show ?thesis using w'(1) by blast
qed

theorem sweep_leaves_nothing_hanging_witness:
  "terminal (STATUS (hd (jobs (snd (run scheduled (sample_world\<lparr>clock := 1400000\<rparr>))))))"
proof -
  define w where "w = sample_world\<lparr>clock := 1400000\<rparr>"
  have inv: "world_inv w"
    unfolding w_def by (rule world_inv_cong[OF sample_world_inv]) (simp_all add: sample_world_def)
  have r: "run scheduled w = (Inr (), reaped w)" by (rule run_scheduled) (rule inv_distinct_jobs[OF inv])
  have "jobs (reaped w) \<noteq> []" "STOP_AT (hd (jobs (reaped w))) = Some 1330000" "clock w = 1400000"
    by (simp_all add: reaped_def w_def sample_defs)
  moreover from this have "hd (jobs (reaped w)) \<in> set (jobs (reaped w))" by simp
  ultimately have "terminal (STATUS (hd (jobs (reaped w))))"
    using sweep_leaves_nothing_hanging[OF inv r] by simp
  then show ?thesis using r by (simp add: w_def)
qed

text \<open>
  C30: the sweep is idempotent, as its comment promises: a second tick before time moves on finds
  nothing to do, reports zeros and changes no row.
\<close>

theorem sweep_idempotent:
  assumes "world_inv w" "run reap_jobs w = (r, w')"
  shows "run reap_jobs w' = (Inr \<lparr>finalised = 0, staleSpawns = 0, abandoned = 0\<rparr>, w')"
proof -
  have d: "distinct (map JOB_ID (jobs w))" by (rule inv_distinct_jobs[OF assms(1)])
  have w': "w' = reaped w" using assms(2) reap_jobs_is_one_pass[OF d] by simp
  have d': "distinct (map JOB_ID (jobs (reaped w)))" using d by (simp add: reaped_frame)
  have "count_rows (is_expired (clock w - JOB_FINALISE_GRACE_MS)) (jobs (reaped w)) = 0"
    "count_rows (is_stale (clock w - SPAWN_STALE_AFTER_MS)) (spawns (reaped w)) = 0"
    "count_rows (\<lambda>j. \<not> is_expired (clock w - JOB_FINALISE_GRACE_MS) j \<and>
       is_abandoned (clock w - QUEUED_WITHOUT_AGENTS_TIMEOUT_MS) (reaped w) j) (jobs (reaped w)) = 0"
    using reaped_no_expired reaped_no_stale reaped_no_abandoned by (auto simp: count_rows_zero)
  with reap_jobs_is_one_pass[OF d'] show ?thesis
    unfolding w' by (simp add: reaped_frame reaped_twice[OF d])
qed

theorem sweep_idempotent_witness:
  "run reap_jobs (snd (run reap_jobs sample_world)) =
    (Inr \<lparr>finalised = 0, staleSpawns = 0, abandoned = 0\<rparr>, snd (run reap_jobs sample_world))"
  by (rule sweep_idempotent[OF sample_world_inv, of "fst (run reap_jobs sample_world)"]) simp

text \<open>
  C31: the sweep does not respect an operator's stop. A stop sets the end of the window to now,
  so 30 seconds later the rule for closed windows applies first and the job ends \<open>COMPLETED\<close>,
  not \<open>STOPPED\<close>, as soon as one agent ever joined it, whether or not agents are still running.
\<close>

theorem stopped_job_swept_as_completed:
  assumes "world_inv w" "find_job i w = Some j" "STATUS j = STOPPING"
    "STOP_AT j = Some (of_int t)" "t + 30000 < clock w" "0 < count_spawns i w"
  shows "map_option STATUS (find_job i (snd (run scheduled w))) = Some COMPLETED"
proof -
  have j: "j \<in> set (jobs w)" "JOB_ID j = i"
    using assms(2) by (auto simp: find_job_def dest: find_row_Some)
  have e: "is_expired (clock w - JOB_FINALISE_GRACE_MS) j"
    unfolding is_expired_def assms(3,4) sql_less_of_int JOB_FINALISE_GRACE_MS_def
    using assms(5) by simp
  define j' where "j' = with_job_status (current_timestamp w) (reaped_job (clock w) w j) j"
  have "j' \<in> set (jobs (reaped w))" using j(1) by (simp add: reaped_def j'_def)
  moreover have "JOB_ID j' = i" "STATUS j' = COMPLETED"
    using j e assms(6) by (auto simp: j'_def reaped_job_def)
  moreover have "distinct (map JOB_ID (jobs (reaped w)))"
    using inv_distinct_jobs[OF assms(1)] by (simp add: reaped_frame)
  ultimately have "find_job i (reaped w) = Some j'"
    using find_row_distinct by (auto simp: find_job_def)
  moreover have "STATUS j' = COMPLETED" using j e assms(6) by (simp add: j'_def reaped_job_def)
  ultimately show ?thesis by (simp add: run_scheduled[OF inv_distinct_jobs[OF assms(1)]])
qed

definition stopping_world :: world where
  "stopping_world = sample_world\<lparr>clock := 1150000,
     jobs := [sample_job\<lparr>STATUS := STOPPING, STOP_AT := Some 1110000\<rparr>]\<rparr>"

theorem stopped_job_swept_as_completed_witness:
  "map_option STATUS (find_job sample_id (snd (run scheduled stopping_world))) = Some COMPLETED"
proof (rule stopped_job_swept_as_completed)
  show "world_inv stopping_world"
    by (rule world_inv_cong[OF sample_world_inv])
       (simp_all add: stopping_world_def sample_world_def sample_job_def job_core_def)
  show "find_job sample_id stopping_world =
      Some (sample_job\<lparr>STATUS := STOPPING, STOP_AT := Some 1110000\<rparr>)"
    by (simp add: stopping_world_def find_job_def sample_job_def)
  show "STOP_AT (sample_job\<lparr>STATUS := STOPPING, STOP_AT := Some 1110000\<rparr>) = Some (of_int 1110000)"
    by simp
  show "0 < count_spawns sample_id stopping_world"
    by (simp add: count_spawns_def stopping_world_def sample_defs)
qed (simp_all add: stopping_world_def)

end
