(* ===== verification/Reporting.thy ===== *)
theory Reporting
  imports Reaping
begin

text \<open>
  What the agents' callbacks and the operator's stop do to the database (\<open>src/spawn.ts\<close>,
  \<open>stop_job\<close> of \<open>src/orchestrator.ts\<close>): a report is stored whole or not at all, the last
  spawn to complete closes its job, an error fails it, and a stop takes effect at once and
  for good.
\<close>

section \<open>Interval metrics\<close>

definition bound :: "js_number field \<Rightarrow> rat option" where
  "bound f = (case f of Val x \<Rightarrow> sql_number x | _ \<Rightarrow> None)"

definition report_spawn :: "json_object \<Rightarrow> int \<Rightarrow> int \<Rightarrow> spawn \<Rightarrow> spawn" where
  "report_spawn b now ts s =
     s\<lparr>AVG_LATENCY := bound (avgLatency b), AVG_RPS := bound (actualRPS b),
       SPAWN_COUNT := bound (totalCount b), LAST_SEEN := Some now, SPAWN_UPDATED := ts\<rparr>"

definition required_fields :: "json_object \<Rightarrow> js_number field list" where
  "required_fields b =
     [tickNumber b, latency b, rps b, count b, avgLatency b, actualRPS b, totalCount b]"

lemma bind_all_cases:
  "bind_all fs = (if Undefined \<in> set fs then Inl D1Error else Inr (map bound fs))"
proof (induction fs)
  case (Cons f fs)
  then show ?case by (cases f) (simp_all add: bound_def)
qed simp

lemma run_record:
  "run (record_benchmark_metrics uuid b) w =
     (if Undefined \<in> set (required_fields b) \<or> uuid \<in> METRIC_ID ` set (metrics w) then (Inl D1Error, w)
      else (Inr (), w\<lparr>metrics := metrics w @ [metric_row uuid b (current_timestamp w)],
        spawns := update_rows (\<lambda>s. SPAWN_ID s = text_of (spawnId b))
          (report_spawn b (clock w) (current_timestamp w)) (spawns w)\<rparr>))"
  unfolding record_benchmark_metrics_def bind_all_cases required_fields_def report_spawn_def[abs_def]
  by (simp add: date_now_def metrics_batch_def)

text \<open>
  C23: an interval report is atomic. Either the call fails and the database is as before, or the
  report's token was valid, one metric row with its numbers was added, the reporting spawn, if
  it exists, carries the new averages and has been seen now, and nothing else has changed.
\<close>

theorem report_stored_whole_or_not_at_all:
  "case run (record_internal_metrics env uuid body) w of
     (Inl e, w') \<Rightarrow> w' = w
   | (Inr _, w') \<Rightarrow> \<exists>b. body = JsonObject b \<and> verify_agent_token env (token b) \<and>
       metrics w' = metrics w @ [metric_row uuid b (current_timestamp w)] \<and>
       jobs w' = jobs w \<and> clock w' = clock w \<and>
       spawns w' = map (\<lambda>s. if SPAWN_ID s = text_of (spawnId b)
         then report_spawn b (clock w) (current_timestamp w) s else s) (spawns w)"
proof (cases body)
  case (JsonObject b)
  then show ?thesis
    by (auto simp: record_internal_metrics_def with_callback_def verify_internal_request_def
        run_record update_rows_def)
qed (simp_all add: record_internal_metrics_def with_callback_def verify_internal_request_def)

text \<open>
  C36: a report that lacks one of the required numbers is rejected before anything is written,
  and the agent is answered with a 503.
\<close>

theorem report_missing_field_rejected:
  assumes "Undefined \<in> set (required_fields b)" "req_method r = ''POST''"
    "req_pathname r = ''/api/internal/spawn-metrics''" "req_body r = JsonObject b"
    "verify_agent_token env (token b)" "\<not> falsy (spawnId b)" "\<not> falsy (jobId b)"
  shows "run (fetch env uuid r) w = (Inr (Json 503 (Error None)), w)"
  using assms
  by (simp add: fetch_def orchestrator_route_def run_catch route_def post_route_def respond_def
      run_bind record_internal_metrics_def with_callback_def verify_internal_request_def run_record)

definition report_body :: json_object where
  "report_body = empty_object\<lparr>token := Val ''agent-secret'', jobId := Val sample_id,
     spawnId := Val (spawn_name sample_id ''vm-a'')\<rparr>"

theorem report_missing_field_rejected_witness:
  "run (fetch sample_env sample_id
     \<lparr>req_method = ''POST'', req_origin = ''https://bench.example'',
      req_pathname = ''/api/internal/spawn-metrics'', req_token_param = None,
      req_admin_header = None, req_body = JsonObject report_body\<rparr>) sample_world =
   (Inr (Json 503 (Error None)), sample_world)"
  by (rule report_missing_field_rejected[of report_body])
     (auto simp: report_body_def empty_object_def required_fields_def sample_token sample_id_def
       spawn_name_def)

section \<open>Completion\<close>

definition other_running :: "string \<Rightarrow> string \<Rightarrow> world \<Rightarrow> nat" where
  "other_running i j w =
     count_rows (\<lambda>s. SPAWN_JOB s = j \<and> SPAWN_STATUS s = RUNNING \<and> SPAWN_ID s \<noteq> i) (spawns w)"

lemma running_after_finish:
  assumes "st \<noteq> RUNNING"
  shows "count_running j (snd (finish_spawn st i w)) = other_running i j w"
proof -
  have "count_rows (\<lambda>s. SPAWN_JOB s = j \<and> SPAWN_STATUS s = RUNNING)
      (update_rows (\<lambda>s. SPAWN_ID s = i) (\<lambda>s. s\<lparr>SPAWN_STATUS := st, SPAWN_UPDATED := t\<rparr>) ss) =
    count_rows (\<lambda>s. SPAWN_JOB s = j \<and> SPAWN_STATUS s = RUNNING \<and> SPAWN_ID s \<noteq> i) ss" for t ss
    using assms by (induction ss) auto
  then show ?thesis
    by (simp add: finish_spawn_def count_running_def set_spawn_status_def other_running_def)
qed

lemma run_complete:
  assumes "falsy (error report)" and i: "i = text_of (spawnId report)" "j = text_of (jobId report)"
    and st: "st = (if map_option STATUS (find_job j w) \<in> {Some STOPPING, Some STOPPED}
      then STOPPED else COMPLETED)"
  shows "run (complete_benchmark_spawn report) w =
    (Inr (), if other_running i j w = 0 then snd (finish_job st j (snd (finish_spawn st i w)))
       else snd (finish_spawn st i w))"
proof -
  have "st \<noteq> RUNNING" by (simp add: st)
  note r = running_after_finish[OF this, of j i w]
  have f: "run (await (finish_spawn st i) k) v = run (k ()) (snd (finish_spawn st i v))" for k v
    by (simp add: finish_spawn_def)
  have g: "run (await (finish_job st j) Return) v = (Inr (), snd (finish_job st j v))" for v
    by (simp add: finish_job_def)
  have "run (complete_benchmark_spawn report) w =
    run (await (finish_spawn st i) (\<lambda>_. await (query (count_running j)) (\<lambda>active.
       if active \<noteq> 0 then Return () else await (finish_job st j) Return))) w"
    unfolding complete_benchmark_spawn_def Let_def i(1)[symmetric] i(2)[symmetric]
    by (simp only: assms(1) not_True_eq_False if_False run_query st)
  also have "\<dots> = (Inr (), if other_running i j w = 0
      then snd (finish_job st j (snd (finish_spawn st i w))) else snd (finish_spawn st i w))"
    by (simp add: f g r del: run_await)
  finally show ?thesis .
qed

text \<open>
  C24: when an agent reports that it is done, its spawn ends \<open>STOPPED\<close> if the operator asked the
  job to stop and \<open>COMPLETED\<close> otherwise, and the job follows it exactly when no other spawn of
  the job is still running; an earlier end of one agent leaves the job as it is.
\<close>

theorem last_completion_closes_job:
  assumes "falsy (error report)" "i = text_of (spawnId report)" "j = text_of (jobId report)"
    "find_spawn i w = Some s" "find_job j w = Some jb" "\<not> terminal (STATUS jb)"
    "st = (if STATUS jb = STOPPING then STOPPED else COMPLETED)"
  shows "\<exists>w'. run (complete_benchmark_spawn report) w = (Inr (), w') \<and>
    map_option SPAWN_STATUS (find_spawn i w') = Some st \<and>
    map_option STATUS (find_job j w') = Some (if other_running i j w = 0 then st else STATUS jb)"
proof -
  have st: "st = (if map_option STATUS (find_job j w) \<in> {Some STOPPING, Some STOPPED}
      then STOPPED else COMPLETED)"
    using assms(5-7) by (cases "STATUS jb") auto
  have j: "STATUS jb \<in> {QUEUED, RUNNING, STOPPING}" "JOB_ID jb = j" "SPAWN_ID s = i"
    using assms(4-6) by (cases "STATUS jb", auto simp: find_job_def find_spawn_def dest: find_row_Some)
  show ?thesis
    unfolding run_complete[OF assms(1-3) st]
    using assms(4,5) j
    by (auto simp: finish_spawn_def finish_job_def find_job_set_status find_spawn_set_status)
qed

definition done_body :: "string \<Rightarrow> json_object" where
  "done_body agent = empty_object\<lparr>token := Val ''agent-secret'', jobId := Val sample_id,
     spawnId := Val (spawn_name sample_id agent)\<rparr>"

theorem last_completion_closes_job_witness:
  "\<exists>w'. run (complete_benchmark_spawn (done_body ''vm-a'')) sample_world = (Inr (), w') \<and>
    map_option SPAWN_STATUS (find_spawn (spawn_name sample_id ''vm-a'') w') = Some COMPLETED \<and>
    map_option STATUS (find_job sample_id w') = Some RUNNING"
proof -
  have b: "falsy (error (done_body ''vm-a''))" "text_of (jobId (done_body ''vm-a'')) = sample_id"
    "text_of (spawnId (done_body ''vm-a'')) = spawn_name sample_id ''vm-a''"
    by (simp_all add: done_body_def empty_object_def)
  have f: "find_spawn (spawn_name sample_id ''vm-a'') sample_world = Some (sample_spawn ''vm-a'' 0)"
    "find_job sample_id sample_world = Some sample_job"
    "\<not> terminal (STATUS sample_job)" "STATUS sample_job = RUNNING"
    by (simp_all add: find_spawn_def find_job_def sample_defs)
  have "other_running (spawn_name sample_id ''vm-a'') sample_id sample_world = 1"
    by (simp add: other_running_def sample_defs spawn_name_def)
  then show ?thesis
    using last_completion_closes_job[OF b(1) b(3)[symmetric] b(2)[symmetric] f(1-3) refl] f(4)
    by simp
qed



section \<open>Stopping\<close>

text \<open>
  C25: a stop request ends the window of a job that is not over, at the moment it arrives, and
  leaves a job that is over, like every other job, untouched; the message tells which it was.
\<close>

theorem stop_takes_effect_at_once:
  assumes "\<not> falsy (jobId b)" "i = text_of (jobId b)" "world_inv w"
  shows "run (stop_job (JsonObject b)) w =
    (Inr \<lparr>stop_jobId = i, stop_status = ''STOPPING'',
       stop_message = (case find_job i w of
          None \<Rightarrow> AlreadyFinished
        | Some j \<Rightarrow> if terminal (STATUS j) then AlreadyFinished else StopRequested)\<rparr>,
     w\<lparr>jobs := map (\<lambda>j. if JOB_ID j = i \<and> \<not> terminal (STATUS j)
         then j\<lparr>STATUS := STOPPING, STOP_AT := Some (of_int (clock w)),
                UPDATED_AT := current_timestamp w\<rparr> else j) (jobs w)\<rparr>)"
proof -
  have t: "(st \<notin> {COMPLETED, STOPPED, FAILED}) = (\<not> terminal st)" for st by (cases st) auto
  define P where "P = (\<lambda>r :: job. JOB_ID r = i \<and> \<not> terminal (STATUS r))"
  have stop: "request_stop now i w = (Inr (count_rows P (jobs w)),
      w\<lparr>jobs := update_rows P (\<lambda>r. r\<lparr>STATUS := STOPPING, STOP_AT := Some (of_int now),
        UPDATED_AT := current_timestamp w\<rparr>) (jobs w)\<rparr>)" for now
    by (simp only: request_stop_def Let_def t P_def)
  have "count_rows P (jobs w) \<noteq> 0 \<longleftrightarrow>
      (case find_job i w of None \<Rightarrow> False | Some j \<Rightarrow> \<not> terminal (STATUS j))"
  proof (cases "find_job i w")
    case None
    then have "\<forall>r \<in> set (jobs w). \<not> P r" by (auto simp: find_job_def find_row_None P_def)
    with None show ?thesis by (simp add: count_rows_zero)
  next
    case (Some j)
    have "(\<exists>r \<in> set (jobs w). P r) = (\<not> terminal (STATUS j))"
      unfolding P_def using found_job[OF assms(3)] find_jobD[OF Some] Some by (metis option.inject)
    with Some show ?thesis by (auto simp: count_rows_zero)
  qed
  then have "(if count_rows P (jobs w) \<noteq> 0 then StopRequested else AlreadyFinished) =
      (case find_job i w of None \<Rightarrow> AlreadyFinished
       | Some j \<Rightarrow> if terminal (STATUS j) then AlreadyFinished else StopRequested)"
    by (cases "find_job i w") simp_all
  moreover have "run (stop_job (JsonObject b)) w =
    (Inr \<lparr>stop_jobId = i, stop_status = ''STOPPING'',
       stop_message = (if count_rows P (jobs w) \<noteq> 0 then StopRequested else AlreadyFinished)\<rparr>,
     w\<lparr>jobs := update_rows P (\<lambda>j. j\<lparr>STATUS := STOPPING, STOP_AT := Some (of_int (clock w)),
                UPDATED_AT := current_timestamp w\<rparr>) (jobs w)\<rparr>)"
    using assms(1) by (simp add: stop_job_def with_object_def date_now_def assms(2)[symmetric] stop)
  ultimately show ?thesis by (simp only: update_rows_def P_def)
qed

theorem stop_takes_effect_at_once_witness:
  "run (stop_job (JsonObject (empty_object\<lparr>jobId := Val sample_id\<rparr>))) sample_world =
    (Inr \<lparr>stop_jobId = sample_id, stop_status = ''STOPPING'', stop_message = StopRequested\<rparr>,
     sample_world\<lparr>jobs := [sample_job\<lparr>STATUS := STOPPING, STOP_AT := Some 1050000, UPDATED_AT := 1050\<rparr>]\<rparr>)"
proof -
  define b where "b = empty_object\<lparr>jobId := Val sample_id\<rparr>"
  have b: "\<not> falsy (jobId b)" "text_of (jobId b) = sample_id"
    by (simp_all add: b_def sample_id_def)
  have f: "find_job sample_id sample_world = Some sample_job" "clock sample_world = 1050000"
    "jobs sample_world = [sample_job]" "STATUS sample_job = RUNNING" "JOB_ID sample_job = sample_id"
    by (simp_all add: find_job_def sample_defs)
  show ?thesis
    using stop_takes_effect_at_once[OF b(1) b(2)[symmetric] sample_world_inv]
    unfolding b_def[symmetric] f current_timestamp_def list.map option.case
    by (simp add: f(4,5))
qed

end
