(* ===== verification/Polling.thy ===== *)
theory Polling
  imports Guarantees Samples
begin

text \<open>
  What a poll promises an agent (\<open>agent_poll\<close> of \<open>src/agents.ts\<close>). The abstract view of a
  job is its board, the list of the agents that hold a slot, in slot order; the contract of
  the conditional insert is stated over boards in the locale \<open>slot_allocator\<close> and the SQL
  statement is an instance of it. The second part is the whole handler, run alone, on each
  of its branches.
\<close>

section \<open>The contract of slot allocation\<close>

definition nub :: "'a list \<Rightarrow> 'a list" where
  "nub xs = rev (remdups (rev xs))"

lemma nub_snoc [simp]: "nub [] = []" "nub (xs @ [x]) = (if x \<in> set xs then nub xs else nub xs @ [x])"
  by (simp_all add: nub_def)

lemma set_nub [simp]: "set (nub xs) = set xs"
  by (simp add: nub_def)

lemma distinct_nub [simp]: "distinct (nub xs)"
  by (simp add: nub_def)

locale slot_allocator =
  fixes ok :: "'s \<Rightarrow> bool" and claim :: "'a \<Rightarrow> 's \<Rightarrow> 's" and holders :: "'s \<Rightarrow> 'a list"
    and capacity :: nat
  assumes ok_claim: "ok s \<Longrightarrow> ok (claim a s)"
    and holders_claim: "ok s \<Longrightarrow> holders (claim a s) =
      (if length (holders s) < capacity \<and> a \<notin> set (holders s) then holders s @ [a] else holders s)"
begin

lemma ok_claims: "ok s \<Longrightarrow> ok (fold claim as s)"
  by (induction as arbitrary: s) (auto intro: ok_claim)

lemma claim_twice: "ok s \<Longrightarrow> holders (claim a (claim a s)) = holders (claim a s)"
  by (simp add: holders_claim ok_claim)

text \<open>First come, first served: the slots go to the first agents, each once.\<close>

lemma first_come:
  assumes "ok s" "holders s = []"
  shows "holders (fold claim as s) = take capacity (nub as)"
proof (induction as rule: rev_induct)
  case Nil
  with assms show ?case by simp
next
  case (snoc a as)
  have "holders (fold claim (as @ [a]) s) =
      (if length (take capacity (nub as)) < capacity \<and> a \<notin> set (take capacity (nub as))
       then take capacity (nub as) @ [a] else take capacity (nub as))"
    using holders_claim[OF ok_claims[OF assms(1), of as], of a] by (simp only: snoc) simp
  also have "\<dots> = take capacity (nub (as @ [a]))"
  proof (cases "length (nub as) < capacity")
    case True
    then show ?thesis by simp
  next
    case False
    then show ?thesis by simp
  qed
  finally show ?case .
qed

end

section \<open>The conditional insert allocates slots\<close>

definition board :: "string \<Rightarrow> world \<Rightarrow> string list" where
  "board i w = map AGENT_ID (spawns_of i w)"

definition open_for :: "string \<Rightarrow> nat \<Rightarrow> world \<Rightarrow> bool" where
  "open_for i n w \<longleftrightarrow> world_inv w \<and> (\<exists>j \<in> set (jobs w). JOB_ID j = i \<and> AGENTS j = int n)"

lemma length_board: "length (board i w) = count_spawns i w"
  by (simp add: board_def count_spawns_length)

lemma on_board:
  assumes "open_for i n w"
  shows "spawn_name i a \<in> SPAWN_ID ` set (spawns w) \<longleftrightarrow> a \<in> set (board i w)"
proof
  assume "spawn_name i a \<in> SPAWN_ID ` set (spawns w)"
  then obtain s where s: "s \<in> set (spawns w)" "SPAWN_ID s = spawn_name i a" by auto
  from assms s(1) have "length (SPAWN_JOB s) = 36" "length i = 36"
    "SPAWN_ID s = spawn_name (SPAWN_JOB s) (AGENT_ID s)"
    by (auto simp: open_for_def world_inv_def wf_spawn_def wf_job_def)
  with s show "a \<in> set (board i w)"
    using spawn_name_inject[of i "SPAWN_JOB s" a "AGENT_ID s"]
    by (auto simp: board_def spawns_of_def)
next
  assume "a \<in> set (board i w)"
  then obtain s where "s \<in> set (spawns w)" "SPAWN_JOB s = i" "AGENT_ID s = a"
    by (auto simp: board_def spawns_of_def)
  with assms show "spawn_name i a \<in> SPAWN_ID ` set (spawns w)"
    by (auto simp: open_for_def world_inv_def wf_spawn_def intro!: rev_image_eqI)
qed

lemma claim_on_board:
  assumes "open_for i n w"
  shows "fst (claim_slot (spawn_name i a) i a reg now (int n) w) = Inr ()"
    and "open_for i n (snd (claim_slot (spawn_name i a) i a reg now (int n) w))"
    and "board i (snd (claim_slot (spawn_name i a) i a reg now (int n) w)) =
      (if length (board i w) < n \<and> a \<notin> set (board i w) then board i w @ [a] else board i w)"
proof -
  from assms obtain j where w: "world_inv w" and j: "j \<in> set (jobs w)" "JOB_ID j = i" "AGENTS j = int n"
    by (auto simp: open_for_def)
  note cases = claim_slot_cases[OF w j(1), of "spawn_name i a" a reg now "int n"]
  have "fst (claim_slot (spawn_name i a) i a reg now (int n) w) = Inr () \<and>
    open_for i n (snd (claim_slot (spawn_name i a) i a reg now (int n) w)) \<and>
    board i (snd (claim_slot (spawn_name i a) i a reg now (int n) w)) =
      (if length (board i w) < n \<and> a \<notin> set (board i w) then board i w @ [a] else board i w)"
  proof (rule cases)
    assume "claim_slot (spawn_name i a) (JOB_ID j) a reg now (int n) w = (Inr (), w)"
      and "int (count_spawns (JOB_ID j) w) < int n \<Longrightarrow> spawn_name i a \<in> SPAWN_ID ` set (spawns w)"
    then show ?thesis using assms on_board[OF assms, of a] j by (auto simp: length_board)
  next
    fix s
    assume s: "claim_slot (spawn_name i a) (JOB_ID j) a reg now (int n) w =
        (Inr (), w\<lparr>spawns := spawns w @ [s]\<rparr>)"
      "int (count_spawns (JOB_ID j) w) < int n" "spawn_name i a \<notin> SPAWN_ID ` set (spawns w)"
      "SPAWN_ID s = spawn_name i a" "SPAWN_JOB s = JOB_ID j" "AGENT_ID s = a"
      "SLOT s = count_spawns (JOB_ID j) w"
    then have "world_inv (w\<lparr>spawns := spawns w @ [s]\<rparr>)"
      using inv_new_spawn[OF w j(1)] j by simp
    then have "open_for i n (w\<lparr>spawns := spawns w @ [s]\<rparr>)" using j by (auto simp: open_for_def)
    moreover have "board i (w\<lparr>spawns := spawns w @ [s]\<rparr>) = board i w @ [a]"
      using s j by (simp add: board_def spawns_of_def)
    ultimately show ?thesis using s j on_board[OF assms, of a] by (simp add: length_board)
  qed
  then show "fst (claim_slot (spawn_name i a) i a reg now (int n) w) = Inr ()"
    "open_for i n (snd (claim_slot (spawn_name i a) i a reg now (int n) w))"
    "board i (snd (claim_slot (spawn_name i a) i a reg now (int n) w)) =
      (if length (board i w) < n \<and> a \<notin> set (board i w) then board i w @ [a] else board i w)"
    by blast+
qed

interpretation slots: slot_allocator "open_for i n"
    "\<lambda>a w. snd (claim_slot (spawn_name i a) i a reg now (int n) w)" "board i" n
  by unfold_locales (simp_all add: claim_on_board)

section \<open>The whole handler, on each branch\<close>

lemma run_hand_out:
  "run (hand_out j i k) w = (Inr (Run (assignment_of j i k)),
     if STATUS j = QUEUED then snd (mark_running (JOB_ID j) w) else w)"
  by (simp add: hand_out_def mark_running_def)

lemma run_poll:
  assumes "verify_agent_token env (token b)" "\<not> falsy (agentId b)"
    "select_open_job w = Some j" "\<not> column_number (STOP_AT j) \<le> js_int (clock w)"
  shows "run (agent_poll env (JsonObject b)) w = run (join_job j (clock w) b) w"
  using assms by (simp add: agent_poll_def poll_authorised_def query_def date_now_def)

lemma run_join_new:
  assumes "find_spawn i w = None" and i: "i = spawn_name (JOB_ID j) (text_of (agentId b))"
  shows "run (join_job j now b) w =
     (case claim_slot i (JOB_ID j) (text_of (agentId b)) (or_default (region b) ''unknown'') now
        (AGENTS j) w of
        (Inl e, w') \<Rightarrow> (Inl e, w')
      | (Inr _, w') \<Rightarrow>
          (case find_spawn i w' of
             None \<Rightarrow> (Inr (Idle (Some (SlotsFilled (JOB_ID j) (AGENTS j)))), w')
           | Some s \<Rightarrow> run (hand_out j i (SLOT s)) w'))"
  using assms by (simp add: join_job_def Let_def query_def split: prod.split sum.split option.split)

lemma run_join_again:
  assumes "find_spawn i w = Some s" and i: "i = spawn_name (JOB_ID j) (text_of (agentId b))"
  shows "run (join_job j now b) w =
     (if SPAWN_STATUS s \<noteq> RUNNING then (Inr (Idle None), w)
      else run (hand_out j i (SLOT s)) (snd (touch_spawn now i w)))"
  using assms by (simp add: join_job_def Let_def query_def touch_spawn_def)

lemma board_mark_running [simp]: "board i (snd (mark_running j w)) = board i w"
  by (simp add: mark_running_def board_def spawns_of_def)

lemma board_touch [simp]: "board i (snd (touch_spawn now k w)) = board i w"
proof -
  have "filter (\<lambda>s. SPAWN_JOB s = i) (update_rows (\<lambda>s. SPAWN_ID s = k)
      (\<lambda>s. s\<lparr>LAST_SEEN := Some now\<rparr>) (spawns w)) =
    update_rows (\<lambda>s. SPAWN_ID s = k) (\<lambda>s. s\<lparr>LAST_SEEN := Some now\<rparr>)
      (filter (\<lambda>s. SPAWN_JOB s = i) (spawns w))"
    by (rule filter_update_rows) simp
  then show ?thesis by (simp add: touch_spawn_def board_def spawns_of_def map_update_rows)
qed

lemma not_on_board: "find_spawn i w = None \<longleftrightarrow> i \<notin> SPAWN_ID ` set (spawns w)"
  by (simp add: find_spawn_def find_row_None)

lemma job_running_after:
  assumes "world_inv w" "j \<in> set (jobs w)" "STATUS j \<in> set ACTIVE_STATUSES"
    and w': "w' = (if STATUS j = QUEUED then snd (mark_running (JOB_ID j) (w\<lparr>spawns := ss\<rparr>))
      else w\<lparr>spawns := ss\<rparr>)"
  shows "map_option STATUS (find_job (JOB_ID j) w') = Some RUNNING" "spawns w' = ss"
proof -
  have f: "find_job (JOB_ID j) (w\<lparr>spawns := ss\<rparr>) = Some j"
    using found_job[OF assms(1,2)] by (simp add: find_job_def)
  have "STATUS j = QUEUED \<or> STATUS j = RUNNING" using assms(3) by (auto simp: ACTIVE_STATUSES_def)
  with f show "map_option STATUS (find_job (JOB_ID j) w') = Some RUNNING"
    unfolding w' by (auto simp: mark_running_def find_job_set_status)
  show "spawns w' = ss" unfolding w' by (simp add: mark_running_def)
qed

text \<open>
  C11: an authorised agent that is new to the open job gets its next free slot: the answer
  carries that slot's share of the rate, the board grows by the agent, and the job is
  \<open>RUNNING\<close> afterwards.
\<close>

theorem poll_claims_next_slot:
  assumes "world_inv w" "verify_agent_token env (token b)" "\<not> falsy (agentId b)"
    "select_open_job w = Some j" "\<not> column_number (STOP_AT j) \<le> js_int (clock w)"
    "text_of (agentId b) \<notin> set (board (JOB_ID j) w)"
    "int (length (board (JOB_ID j) w)) < AGENTS j"
  shows "\<exists>w'. run (agent_poll env (JsonObject b)) w =
      (Inr (Run (assignment_of j (spawn_name (JOB_ID j) (text_of (agentId b)))
         (length (board (JOB_ID j) w)))), w') \<and>
    board (JOB_ID j) w' = board (JOB_ID j) w @ [text_of (agentId b)] \<and>
    map_option STATUS (find_job (JOB_ID j) w') = Some RUNNING"
proof -
  define i where "i = spawn_name (JOB_ID j) (text_of (agentId b))"
  define s where "s = spawn_row i (JOB_ID j) (text_of (agentId b))
    (or_default (region b) ''unknown'') (clock w) w"
  define w1 where "w1 = w\<lparr>spawns := spawns w @ [s]\<rparr>"
  define w2 where "w2 = (if STATUS j = QUEUED then snd (mark_running (JOB_ID j) w1) else w1)"
  from open_job_in[OF assms(4)] have j: "j \<in> set (jobs w)" "STATUS j \<in> set ACTIVE_STATUSES" by auto
  from assms(1) j have "1 \<le> AGENTS j" by (auto simp: world_inv_def wf_job_def)
  with assms(1) j have "open_for (JOB_ID j) (nat (AGENTS j)) w" by (auto simp: open_for_def)
  then have new: "i \<notin> SPAWN_ID ` set (spawns w)" using on_board assms(6) by (auto simp: i_def)
  have claim: "claim_slot i (JOB_ID j) (text_of (agentId b)) (or_default (region b) ''unknown'')
      (clock w) (AGENTS j) w = (Inr (), w1)"
    using assms(7) new slot_free[OF assms(1) j(1)]
    by (simp add: claim_slot_def length_board s_def w1_def)
  have s: "SPAWN_ID s = i" "SPAWN_JOB s = JOB_ID j" "AGENT_ID s = text_of (agentId b)"
    "SLOT s = length (board (JOB_ID j) w)"
    by (simp_all add: s_def spawn_row_def length_board)
  have "find_spawn i w = None" using new by (simp add: not_on_board)
  moreover have "find_spawn i w1 = Some s"
    using \<open>find_spawn i w = None\<close> s(1) by (simp add: find_spawn_def w1_def find_row_append)
  ultimately have "run (agent_poll env (JsonObject b)) w = (Inr (Run (assignment_of j i (SLOT s))), w2)"
    unfolding run_poll[OF assms(2-5)] by (simp add: run_join_new i_def[symmetric] claim run_hand_out w2_def)
  moreover have "map_option STATUS (find_job (JOB_ID j) w2) = Some RUNNING"
    "spawns w2 = spawns w @ [s]"
    using job_running_after[OF assms(1) j w2_def[unfolded w1_def]] by simp_all
  moreover from this have "board (JOB_ID j) w2 = board (JOB_ID j) w @ [text_of (agentId b)]"
    using s by (simp add: board_def spawns_of_def)
  ultimately show ?thesis using s(4) unfolding i_def by auto
qed

lemma sample_board:
  "board sample_id sample_world = [''vm-a'', ''vm-b'']"
  "board sample_id full_world = [''vm-a'', ''vm-b'', ''vm-c'']"
  by (simp_all add: board_def spawns_of_def sample_defs)

lemma sample_poll:
  "verify_agent_token sample_env (token (poll_body a))" "agentId (poll_body a) = Val a"
  by (simp_all add: poll_body_def sample_token)

lemma sample_window: "\<not> column_number (STOP_AT sample_job) \<le> js_int (clock sample_world)"
  by (simp add: sample_defs js_int_def less_eq_js_number_def)

theorem poll_claims_next_slot_witness:
  "\<exists>w'. run (agent_poll sample_env (JsonObject (poll_body ''vm-z''))) sample_world =
      (Inr (Run (assignment_of sample_job (spawn_name sample_id ''vm-z'') 2)), w') \<and>
    board sample_id w' = [''vm-a'', ''vm-b'', ''vm-z''] \<and>
    map_option STATUS (find_job sample_id w') = Some RUNNING"
proof -
  have j: "JOB_ID sample_job = sample_id" "AGENTS sample_job = 3" by (simp_all add: sample_job_def)
  from poll_claims_next_slot[OF sample_world_inv sample_poll(1) _ sample_open_job(1) sample_window,
      of "''vm-z''"]
  show ?thesis by (simp add: j sample_board sample_poll numeral_2_eq_2)
qed

text \<open>
  C13: an agent that already holds a slot of the open job gets the same slot back, with the
  same share, and takes no second one: the board is unchanged and the agent's \<open>LAST_SEEN\<close> is
  refreshed.
\<close>

theorem poll_reconnects:
  assumes "world_inv w" "verify_agent_token env (token b)" "\<not> falsy (agentId b)"
    "select_open_job w = Some j" "\<not> column_number (STOP_AT j) \<le> js_int (clock w)"
    "s \<in> set (spawns w)" "SPAWN_JOB s = JOB_ID j" "AGENT_ID s = text_of (agentId b)"
    "SPAWN_STATUS s = RUNNING"
  shows "\<exists>w'. run (agent_poll env (JsonObject b)) w =
      (Inr (Run (assignment_of j (SPAWN_ID s) (SLOT s))), w') \<and>
    board (JOB_ID j) w' = board (JOB_ID j) w \<and>
    find_spawn (SPAWN_ID s) w' = Some (s\<lparr>LAST_SEEN := Some (clock w)\<rparr>)"
proof -
  have i: "SPAWN_ID s = spawn_name (JOB_ID j) (text_of (agentId b))"
    using assms(1,6,7,8) by (auto simp: world_inv_def wf_spawn_def)
  define w1 where "w1 = snd (touch_spawn (clock w) (SPAWN_ID s) w)"
  define w2 where "w2 = (if STATUS j = QUEUED then snd (mark_running (JOB_ID j) w1) else w1)"
  have f: "find_spawn (SPAWN_ID s) w = Some s"
    using assms(1,6) find_row_distinct[of SPAWN_ID "spawns w" s] by (simp add: find_spawn_def world_inv_def)
  then have "run (agent_poll env (JsonObject b)) w = (Inr (Run (assignment_of j (SPAWN_ID s) (SLOT s))), w2)"
    unfolding run_poll[OF assms(2-5)] run_join_again[OF f i]
    using assms(9) by (simp add: run_hand_out w2_def w1_def)
  moreover have "board (JOB_ID j) w2 = board (JOB_ID j) w" by (simp add: w2_def w1_def)
  moreover have "find_spawn (SPAWN_ID s) w2 = Some (s\<lparr>LAST_SEEN := Some (clock w)\<rparr>)"
    using f find_row_Some[of SPAWN_ID "SPAWN_ID s" "spawns w" s]
    by (simp add: w2_def w1_def mark_running_def touch_spawn_def find_spawn_def
        seen_update.find_after_update)
  ultimately show ?thesis by blast
qed

theorem poll_reconnects_witness:
  "\<exists>w'. run (agent_poll sample_env (JsonObject (poll_body ''vm-b''))) sample_world =
      (Inr (Run (assignment_of sample_job (spawn_name sample_id ''vm-b'') 1)), w') \<and>
    board sample_id w' = [''vm-a'', ''vm-b''] \<and>
    find_spawn (spawn_name sample_id ''vm-b'') w' =
      Some ((sample_spawn ''vm-b'' 1)\<lparr>LAST_SEEN := Some 1050000\<rparr>)"
proof -
  have j: "JOB_ID sample_job = sample_id" "clock sample_world = 1050000"
    by (simp_all add: sample_job_def sample_world_def)
  have s: "sample_spawn ''vm-b'' 1 \<in> set (spawns sample_world)" by (simp add: sample_world_def)
  from poll_reconnects[OF sample_world_inv sample_poll(1) _ sample_open_job(1) sample_window s,
      of "''vm-b''"]
  show ?thesis by (simp add: j sample_spawn_cols sample_board sample_poll)
qed

text \<open>
  C32: once every slot of the open job is taken, a further agent is told so and stays idle, and
  nothing in the database changes.
\<close>

theorem poll_full_job:
  assumes "world_inv w" "verify_agent_token env (token b)" "\<not> falsy (agentId b)"
    "select_open_job w = Some j" "\<not> column_number (STOP_AT j) \<le> js_int (clock w)"
    "text_of (agentId b) \<notin> set (board (JOB_ID j) w)"
    "AGENTS j \<le> int (length (board (JOB_ID j) w))"
  shows "run (agent_poll env (JsonObject b)) w =
    (Inr (Idle (Some (SlotsFilled (JOB_ID j) (AGENTS j)))), w)"
proof -
  define i where "i = spawn_name (JOB_ID j) (text_of (agentId b))"
  from open_job_in[OF assms(4)] have j: "j \<in> set (jobs w)" by auto
  from assms(1) j have "1 \<le> AGENTS j" by (auto simp: world_inv_def wf_job_def)
  with assms(1) j have "open_for (JOB_ID j) (nat (AGENTS j)) w" by (auto simp: open_for_def)
  then have new: "find_spawn i w = None" using on_board assms(6) by (auto simp: i_def not_on_board)
  have claim: "claim_slot i (JOB_ID j) (text_of (agentId b)) (or_default (region b) ''unknown'')
      (clock w) (AGENTS j) w = (Inr (), w)"
    using assms(7) by (simp add: claim_slot_def length_board)
  show ?thesis
    unfolding run_poll[OF assms(2-5)] run_join_new[OF new i_def] by (simp add: claim new)
qed

theorem poll_full_job_witness:
  "run (agent_poll sample_env (JsonObject (poll_body ''vm-z''))) full_world =
    (Inr (Idle (Some (SlotsFilled sample_id 3))), full_world)"
proof -
  have j: "JOB_ID sample_job = sample_id" "AGENTS sample_job = 3" by (simp_all add: sample_job_def)
  have c: "\<not> column_number (STOP_AT sample_job) \<le> js_int (clock full_world)"
    using sample_window by (simp add: full_world_def)
  from poll_full_job[OF full_world_inv sample_poll(1) _ sample_open_job(2) c, of "''vm-z''"]
  show ?thesis by (simp add: j sample_board sample_poll)
qed

text \<open>
  C33: an authorised agent is left idle, with the database untouched, when no job is open, when
  the window of the open job is over, and when the agent's own spawn of it has ended.
\<close>

theorem poll_stays_idle:
  assumes "verify_agent_token env (token b)" "\<not> falsy (agentId b)"
    "case select_open_job w of
       None \<Rightarrow> True
     | Some j \<Rightarrow> column_number (STOP_AT j) \<le> js_int (clock w) \<or>
         (\<exists>s. find_spawn (spawn_name (JOB_ID j) (text_of (agentId b))) w = Some s \<and>
              SPAWN_STATUS s \<noteq> RUNNING)"
  shows "run (agent_poll env (JsonObject b)) w = (Inr (Idle None), w)"
proof (cases "select_open_job w")
  case None
  with assms(1,2) show ?thesis by (simp add: agent_poll_def poll_authorised_def query_def)
next
  case (Some j)
  show ?thesis
  proof (cases "column_number (STOP_AT j) \<le> js_int (clock w)")
    case True
    with assms(1,2) Some show ?thesis
      by (simp add: agent_poll_def poll_authorised_def query_def date_now_def)
  next
    case False
    with assms(3) Some obtain s where
      s: "find_spawn (spawn_name (JOB_ID j) (text_of (agentId b))) w = Some s" "SPAWN_STATUS s \<noteq> RUNNING"
      by auto
    then show ?thesis
      unfolding run_poll[OF assms(1,2) Some False] run_join_again[OF s(1) refl] by simp
  qed
qed

theorem poll_stays_idle_witness:
  "run (agent_poll sample_env (JsonObject (poll_body ''vm-a''))) (sample_world\<lparr>clock := 1330000\<rparr>) =
    (Inr (Idle None), sample_world\<lparr>clock := 1330000\<rparr>)"
proof (rule poll_stays_idle)
  show "verify_agent_token sample_env (token (poll_body ''vm-a''))"
    "\<not> falsy (agentId (poll_body ''vm-a''))"
    by (simp_all add: sample_poll)
  have "select_open_job (sample_world\<lparr>clock := 1330000\<rparr>) = Some sample_job"
    using sample_open_job(1) by (simp add: select_open_job_def)
  moreover have "column_number (STOP_AT sample_job) \<le> js_int 1330000"
    by (simp add: sample_job_def js_int_def less_eq_js_number_def)
  ultimately show "case select_open_job (sample_world\<lparr>clock := 1330000\<rparr>) of
       None \<Rightarrow> True
     | Some j \<Rightarrow> column_number (STOP_AT j) \<le> js_int (clock (sample_world\<lparr>clock := 1330000\<rparr>)) \<or>
         (\<exists>s. find_spawn (spawn_name (JOB_ID j) (text_of (agentId (poll_body ''vm-a''))))
              (sample_world\<lparr>clock := 1330000\<rparr>) = Some s \<and> SPAWN_STATUS s \<noteq> RUNNING)"
    by simp
qed

text \<open>
  C5: the conditional insert implements first come, first served: from a job with no spawns,
  any sequence of claims leaves exactly the first \<open>AGENTS\<close> distinct agents on the board, in
  the order they came, in the slots \<open>0, 1, 2, ...\<close>.
\<close>

theorem claims_first_come_first_served:
  assumes "world_inv w" "j \<in> set (jobs w)" "AGENTS j = int n" "board (JOB_ID j) w = []"
    and w': "w' = fold (\<lambda>a w. snd (claim_slot (spawn_name (JOB_ID j) a) (JOB_ID j) a reg now
      (AGENTS j) w)) as w"
  shows "board (JOB_ID j) w' = take n (nub as) \<and>
    map SLOT (spawns_of (JOB_ID j) w') = [0..<length (take n (nub as))]"
proof -
  have ok: "open_for (JOB_ID j) n w" using assms by (auto simp: open_for_def)
  have b: "board (JOB_ID j) w' = take n (nub as)"
    unfolding w' assms(3) by (rule slots.first_come[OF ok assms(4)])
  have "open_for (JOB_ID j) n w'" unfolding w' assms(3) by (rule slots.ok_claims[OF ok])
  then have "map SLOT (spawns_of (JOB_ID j) w') = [0..<length (board (JOB_ID j) w')]"
    by (auto simp: open_for_def world_inv_def slots_ok_def length_board)
  with b show ?thesis by simp
qed

theorem claims_first_come_first_served_witness:
  "board sample_id (fold (\<lambda>a w. snd (claim_slot (spawn_name sample_id a) sample_id a ''weur''
      1050000 3 w)) [''p'', ''q'', ''p'', ''r'', ''s''] (sample_world\<lparr>spawns := []\<rparr>)) =
    [''p'', ''q'', ''r'']"
proof -
  have j: "JOB_ID sample_job = sample_id" "AGENTS sample_job = int 3"
    "sample_job \<in> set (jobs (sample_world\<lparr>spawns := []\<rparr>))"
    by (simp_all add: sample_defs)
  have w: "world_inv (sample_world\<lparr>spawns := []\<rparr>)"
    by (simp add: world_inv_def wf_job_def slots_ok_def spawns_of_def count_spawns_def
        sample_defs MAX_AGENTS_PER_JOB_def)
  have b: "board (JOB_ID sample_job) (sample_world\<lparr>spawns := []\<rparr>) = []"
    by (simp add: board_def spawns_of_def)
  from claims_first_come_first_served[OF w j(3,2) b refl, of "''weur''" 1050000
      "[''p'', ''q'', ''p'', ''r'', ''s'']"]
  show ?thesis by (simp add: j nub_def eval_nat_numeral)
qed

end
