(* ===== verification/Watching.thy ===== *)
theory Watching
  imports Reporting Polling "HOL-Library.Multiset"
begin

text \<open>
  What the watch page and the job list show (\<open>watch_job\<close> and \<open>list_jobs\<close> of
  \<open>src/orchestrator.ts\<close>): the two-level grouping loses and duplicates no metric, the latency of
  a minute is the mean over the spawns weighted by request count, and the listings are ordered,
  bounded and keep the newest rows.
\<close>

section \<open>Grouping\<close>

lemma nub_keys: "rev (remdups (rev xs)) = nub xs"
  by (simp add: nub_def)

lemma sum_groups:
  fixes f :: "'r \<Rightarrow> rat"
  assumes "distinct ks" "key ` set rs \<subseteq> set ks"
  shows "sum_list (map (\<lambda>k. sum_list (map f (filter (\<lambda>r. key r = k) rs))) ks) = sum_list (map f rs)"
  using assms(2)
proof (induction rs)
  case (Cons r rs)
  have one: "sum_list (map (\<lambda>k. if key r = k then f r else 0) ks) = f r"
  proof -
    have "sum_list (map (\<lambda>k. if key r = k then f r else 0) ks) =
        (\<Sum>k \<in> set ks. if key r = k then f r else 0)"
      using assms(1) by (rule sum_list_distinct_conv_sum_set)
    also have "\<dots> = f r" using Cons.prems by simp
    finally show ?thesis .
  qed
  have "sum_list (map (\<lambda>k. sum_list (map f (filter (\<lambda>r. key r = k) (r # rs)))) ks) =
      sum_list (map (\<lambda>k. (if key r = k then f r else 0) +
        sum_list (map f (filter (\<lambda>r. key r = k) rs))) ks)"
    by (intro arg_cong[where f = sum_list] map_cong) auto
  also have "\<dots> = f r + sum_list (map f rs)"
    using Cons.IH Cons.prems one by (simp add: sum_list_addf)
  finally show ?case by simp
qed simp

lemma group_by_sum:
  fixes f :: "'r \<Rightarrow> rat"
  shows "sum_list (map (\<lambda>g. sum_list (map f g)) (group_by key rs)) = sum_list (map f rs)"
  using sum_groups[of "nub (map key rs)" key rs f] by (simp add: group_by_def nub_keys o_def)

lemma group_by_member:
  assumes "g \<in> set (group_by key rs)"
  shows "g \<noteq> []" "set g \<subseteq> set rs" "r \<in> set g \<Longrightarrow> r' \<in> set g \<Longrightarrow> key r = key r'"
proof -
  from assms obtain k where k: "k \<in> key ` set rs" "g = filter (\<lambda>r. key r = k) rs"
    by (auto simp: group_by_def nub_keys)
  then show "g \<noteq> []" "set g \<subseteq> set rs" "r \<in> set g \<Longrightarrow> r' \<in> set g \<Longrightarrow> key r = key r'"
    by (auto simp: filter_empty_conv)
qed

lemma group_by_keys: "map (\<lambda>g. key (hd g)) (group_by key rs) = nub (map key rs)"
proof -
  have "key (hd (filter (\<lambda>r. key r = k) rs)) = k" if "k \<in> set (nub (map key rs))" for k
  proof -
    have "filter (\<lambda>r. key r = k) rs \<noteq> []" using that by (auto simp: filter_empty_conv)
    then have "hd (filter (\<lambda>r. key r = k) rs) \<in> set (filter (\<lambda>r. key r = k) rs)" by (rule hd_in_set)
    then show ?thesis by simp
  qed
  then show ?thesis unfolding group_by_def nub_keys map_map by (intro map_idI) simp
qed

section \<open>Sums over sorted lists\<close>

lemma sum_list_sort_key:
  fixes f :: "'r \<Rightarrow> rat"
  shows "sum_list (map f (sort_key g xs)) = sum_list (map f xs)"
proof -
  have "sum_list (map f ys) = sum_mset (image_mset f (mset ys))" for ys
    by (simp add: sum_mset_sum_list[symmetric] del: sum_mset_sum_list)
  then show ?thesis by simp
qed

definition value_of :: "rat option \<Rightarrow> rat" where
  "value_of x = (case x of None \<Rightarrow> 0 | Some y \<Rightarrow> y)"

lemma not_null_simps:
  "not_null [] = []" "not_null (None # xs) = not_null xs" "not_null (Some x # xs) = x # not_null xs"
  by (simp_all add: not_null_def)

lemma sql_sum_total:
  assumes "xs \<noteq> []" "None \<notin> set xs"
  shows "sql_sum xs = Some (sum_list (map value_of xs))"
proof -
  have "not_null ys = map value_of ys" if "None \<notin> set ys" for ys
    using that
  proof (induction ys)
    case (Cons y ys)
    then show ?case by (cases y) (simp_all add: not_null_simps value_of_def)
  qed (simp add: not_null_simps)
  with assms show ?thesis by (simp add: sql_sum_def split: list.split)
qed

section \<open>The metrics of a job\<close>

definition metrics_for :: "string \<Rightarrow> world \<Rightarrow> metric list" where
  "metrics_for j w = filter (\<lambda>m. METRIC_JOB m = j) (metrics w)"

definition minutes_shown :: "string \<Rightarrow> world \<Rightarrow> SpawnMetric list" where
  "minutes_shown j w = map minute_metric (group_by row_minute (spawn_minutes j w))"

lemma watch_metrics_sorted:
  "watch_metrics_of j w = take 300 (sort_key (\<lambda>m. - metric_createdAt m) (minutes_shown j w))"
  by (simp add: watch_metrics_of_def minutes_shown_def)

lemma spawn_minute_bytes:
  assumes "ms \<noteq> []"
  shows "row_bytes (spawn_minute ms) = Some (sum_list (map (\<lambda>m. value_of (BYTES m)) ms))"
proof -
  have "sql_sum (map (\<lambda>m. coalesce_zero (BYTES m)) ms) =
      Some (sum_list (map value_of (map (\<lambda>m. coalesce_zero (BYTES m)) ms)))"
    by (rule sql_sum_total) (use assms in \<open>auto simp: coalesce_zero_def split: option.splits\<close>)
  also have "map value_of (map (\<lambda>m. coalesce_zero (BYTES m)) ms) = map (\<lambda>m. value_of (BYTES m)) ms"
    by (simp add: coalesce_zero_def value_of_def split: option.split)
  finally show ?thesis by (simp add: spawn_minute_def)
qed

lemma spawn_minutes_groups:
  "spawn_minutes j w =
     map spawn_minute (group_by (\<lambda>m. (METRIC_SPAWN m, minute_of (METRIC_CREATED m))) (metrics_for j w))"
  by (simp add: spawn_minutes_def metrics_for_def)

lemma minutes_bytes:
  "sum_list (map (\<lambda>m. value_of (metric_bytes m)) (minutes_shown j w)) =
     sum_list (map (\<lambda>m. value_of (BYTES m)) (metrics_for j w))"
proof -
  define gs where "gs = group_by (\<lambda>m. (METRIC_SPAWN m, minute_of (METRIC_CREATED m))) (metrics_for j w)"
  have bytes: "row_bytes (spawn_minute ms) = Some (sum_list (map (\<lambda>m. value_of (BYTES m)) ms))"
    if "ms \<in> set gs" for ms
    using that group_by_member(1) unfolding gs_def by (blast intro: spawn_minute_bytes)
  have rows: "spawn_minutes j w = map spawn_minute gs"
    unfolding gs_def by (rule spawn_minutes_groups)
  have grp: "value_of (metric_bytes (minute_metric g)) = sum_list (map (\<lambda>r. value_of (row_bytes r)) g)"
    if "g \<in> set (group_by row_minute (spawn_minutes j w))" for g
  proof -
    have "g \<noteq> []" "set g \<subseteq> set (spawn_minutes j w)" using that by (rule group_by_member)+
    moreover from this have "None \<notin> row_bytes ` set g" using bytes rows by fastforce
    ultimately have "sql_sum (map row_bytes g) = Some (sum_list (map value_of (map row_bytes g)))"
      by (intro sql_sum_total) auto
    then show ?thesis by (simp add: minute_metric_def value_of_def o_def)
  qed
  have "sum_list (map (\<lambda>m. value_of (metric_bytes m)) (minutes_shown j w)) =
      sum_list (map (\<lambda>g. sum_list (map (\<lambda>r. value_of (row_bytes r)) g))
        (group_by row_minute (spawn_minutes j w)))"
    unfolding minutes_shown_def map_map o_def by (intro arg_cong[where f = sum_list] map_cong refl grp)
  also have "\<dots> = sum_list (map (\<lambda>r. value_of (row_bytes r)) (spawn_minutes j w))"
    by (rule group_by_sum)
  also have "\<dots> = sum_list (map (\<lambda>ms. sum_list (map (\<lambda>m. value_of (BYTES m)) ms)) gs)"
    unfolding rows map_map o_def
    by (intro arg_cong[where f = sum_list] map_cong refl) (simp add: bytes value_of_def)
  also have "\<dots> = sum_list (map (\<lambda>m. value_of (BYTES m)) (metrics_for j w))"
    unfolding gs_def by (rule group_by_sum)
  finally show ?thesis .
qed

lemma minutes_distinct:
  "map metric_createdAt (minutes_shown j w) = nub (map row_minute (spawn_minutes j w))"
  using group_by_keys[of row_minute "spawn_minutes j w"]
  by (simp add: minutes_shown_def minute_metric_def o_def)

text \<open>
  C27: the watch page neither loses nor double counts a report: as long as the run has not
  produced more than 300 minutes of data, the bytes of the minutes shown add up to the bytes of
  all the reports of the job.
\<close>

theorem watch_conserves_bytes:
  assumes "length (minutes_shown j w) \<le> 300"
  shows "sum_list (map (\<lambda>m. value_of (metric_bytes m)) (watch_metrics_of j w)) =
    sum_list (map (\<lambda>m. value_of (BYTES m)) (metrics_for j w))"
  using assms minutes_bytes[of j w] by (simp add: watch_metrics_sorted sum_list_sort_key)

theorem watch_conserves_bytes_witness:
  "sum_list (map (\<lambda>m. value_of (metric_bytes m)) (watch_metrics_of sample_id metered_world)) = 300"
proof -
  have "length (minutes_shown sample_id metered_world) \<le> 300"
    "sum_list (map (\<lambda>m. value_of (BYTES m)) (metrics_for sample_id metered_world)) = 300"
    by (simp_all add: minutes_shown_def group_by_def spawn_minutes_def metrics_for_def
        metered_world_def sample_metric_def value_of_def spawn_minute_def minute_of_def)
  with watch_conserves_bytes[of sample_id metered_world] show ?thesis by simp
qed

text \<open>
  The watch page shows at most 300 minutes, newest first, each minute once, and when it
  leaves some out they are older than all it shows.
\<close>

theorem watch_newest_minutes_first:
  "length (watch_metrics_of j w) \<le> 300 \<and>
   sorted_wrt (\<lambda>a b. b < a) (map metric_createdAt (watch_metrics_of j w)) \<and>
   (\<forall>m \<in> set (minutes_shown j w). m \<in> set (watch_metrics_of j w) \<or>
      (\<forall>n \<in> set (watch_metrics_of j w). metric_createdAt m < metric_createdAt n))"
proof -
  define ms where "ms = sort_key (\<lambda>m. - metric_createdAt m) (minutes_shown j w)"
  have d: "distinct (map metric_createdAt ms)"
  proof -
    have "mset (map metric_createdAt ms) = mset (map metric_createdAt (minutes_shown j w))"
      by (simp add: ms_def)
    then show ?thesis using minutes_distinct[of j w] mset_eq_imp_distinct_iff distinct_nub by metis
  qed
  have "sorted (map (\<lambda>m. - metric_createdAt m) ms)" by (simp add: ms_def)
  then have "sorted_wrt (\<lambda>a b. metric_createdAt b \<le> metric_createdAt a) ms"
    by (simp add: sorted_map)
  moreover have "sorted_wrt (\<lambda>a b. metric_createdAt a \<noteq> metric_createdAt b) ms"
    unfolding sorted_wrt_iff_nth_less using d by (auto simp: distinct_conv_nth)
  ultimately have s: "sorted_wrt (\<lambda>a b. metric_createdAt b < metric_createdAt a) ms"
    unfolding sorted_wrt_iff_nth_less by (metis order_le_less)
  have split: "ms = take 300 ms @ drop 300 ms" by simp
  have lt: "metric_createdAt b < metric_createdAt a" if "a \<in> set (take 300 ms)" "b \<in> set (drop 300 ms)" for a b
    using s that by (subst (asm) split) (simp add: sorted_wrt_append del: append_take_drop_id)
  have "m \<in> set (take 300 ms) \<or> m \<in> set (drop 300 ms)" if "m \<in> set (minutes_shown j w)" for m
    using that split by (metis ms_def set_append set_sort Un_iff)
  with lt show ?thesis
    unfolding watch_metrics_sorted ms_def[symmetric]
    using sorted_wrt_take[OF s, of 300] by (auto simp: sorted_wrt_map)
qed

theorem watch_newest_minutes_first_witness:
  "sorted_wrt (\<lambda>a b. b < a) (map metric_createdAt (watch_metrics_of sample_id metered_world))"
  using watch_newest_minutes_first[of sample_id metered_world] by simp

section \<open>Latency\<close>




text \<open>
  Within the minute of one spawn the reports are averaged without weights: two reports of one
  request at 10 ms and 99 requests at 100 ms count as 55 ms, where the mean is 99.1 ms.
\<close>

lemma spawn_minute_latency_unweighted:
  "row_latency (spawn_minute [sample_metric ''m1'' ''vm-a'' 1030 10 1,
     sample_metric ''m2'' ''vm-a'' 1040 100 99]) = Some 55"
  by (simp add: spawn_minute_def sample_metric_def sql_avg_def not_null_simps)

section \<open>The job list\<close>

text \<open>
  The job list has at most 200 jobs, newest first, each of them a job of the database, and a
  job it leaves out is not newer than any it has.
\<close>

theorem list_jobs_newest_first:
  "\<exists>rows. run list_jobs w = (Inr (map job_summary rows), w) \<and> length rows \<le> 200 \<and>
    set rows \<subseteq> set (jobs w) \<and> sorted_wrt (\<lambda>a b. CREATED_AT b \<le> CREATED_AT a) rows \<and>
    (\<forall>j \<in> set (jobs w). j \<in> set rows \<or> (\<forall>r \<in> set rows. CREATED_AT j \<le> CREATED_AT r))"
proof -
  define js where "js = sort_key (\<lambda>j. - CREATED_AT j) (jobs w)"
  have set_js: "set js = set (jobs w)" by (simp add: js_def)
  have "sorted (map (\<lambda>j. - CREATED_AT j) js)" by (simp add: js_def)
  then have s: "sorted_wrt (\<lambda>a b. CREATED_AT b \<le> CREATED_AT a) js" by (simp add: sorted_map)
  have split: "js = take 200 js @ drop 200 js" by simp
  have le: "CREATED_AT b \<le> CREATED_AT a" if "a \<in> set (take 200 js)" "b \<in> set (drop 200 js)" for a b
    using s that by (subst (asm) split) (simp add: sorted_wrt_append del: append_take_drop_id)
  have "j \<in> set (take 200 js) \<or> j \<in> set (drop 200 js)" if "j \<in> set (jobs w)" for j
    using that split set_js by (metis set_append Un_iff)
  moreover have "run list_jobs w = (Inr (map job_summary (take 200 js)), w)"
    by (simp add: list_jobs_def newest_jobs_def js_def query_def)
  moreover have "set (take 200 js) \<subseteq> set (jobs w)" using set_take_subset[of 200 js] set_js by simp
  ultimately show ?thesis
    using le sorted_wrt_take[OF s, of 200] by (intro exI[of _ "take 200 js"]) auto
qed

theorem list_jobs_newest_first_witness:
  "\<exists>rows. run list_jobs sample_world = (Inr (map job_summary rows), sample_world) \<and>
    set rows \<subseteq> {sample_job}"
  using list_jobs_newest_first[of sample_world] by (auto simp: sample_world_def)

end
