(* ===== verification/Waiting.thy ===== *)
theory Waiting
  imports Polling Reporting
begin

text \<open>
  An agent between its assignment and the start of load. It holds a slot and sends nothing until
  \<open>START_AT\<close>; what the sweep and the later polls and reports make of that silence.
\<close>

section \<open>What a poll that hands out work leaves behind\<close>

lemma poll_ran:
  assumes "run (agent_poll env (JsonObject b)) w = (Inr (Run g), w')"
  obtains j where "verify_agent_token env (token b)" "\<not> falsy (agentId b)"
    "select_open_job w = Some j" "\<not> column_number (STOP_AT j) \<le> js_int (clock w)"
    "run (join_job j (clock w) b) w = (Inr (Run g), w')"
proof -
  have v: "verify_agent_token env (token b)" and f: "\<not> falsy (agentId b)"
    using assms by (auto simp: agent_poll_def poll_authorised_def split: if_splits)
  from assms v f obtain j where j: "select_open_job w = Some j"
    by (cases "select_open_job w") (auto simp: agent_poll_def poll_authorised_def query_def)
  have c: "\<not> column_number (STOP_AT j) \<le> js_int (clock w)"
    using assms v f j by (auto simp: agent_poll_def poll_authorised_def query_def date_now_def)
  show ?thesis using that[OF v f j c] assms run_poll[OF v f j c] by simp
qed

lemma find_spawn_mark_running [simp]: "find_spawn i (snd (mark_running k w)) = find_spawn i w"
  by (simp add: mark_running_def)

lemma poll_leaves_spawn:
  assumes "world_inv w" "run (agent_poll env (JsonObject b)) w = (Inr (Run g), w')"
  shows "\<exists>s. find_spawn (run_spawnId g) w' = Some s \<and> SPAWN_STATUS s = RUNNING \<and>
    LAST_SEEN s = Some (clock w) \<and>
    run_spawnId g = spawn_name (run_jobId g) (text_of (agentId b))"
proof -
  from assms(2) obtain j where j: "select_open_job w = Some j"
    and run: "run (join_job j (clock w) b) w = (Inr (Run g), w')" by (rule poll_ran)
  from open_job_in[OF j] have jw: "j \<in> set (jobs w)" by auto
  define i where "i = spawn_name (JOB_ID j) (text_of (agentId b))"
  show ?thesis
  proof (cases "find_spawn i w")
    case (Some s)
    have s: "SPAWN_STATUS s = RUNNING" "g = assignment_of j i (SLOT s)"
      "find_spawn i w' = find_spawn i (snd (touch_spawn (clock w) i w))"
      using run unfolding run_join_again[OF Some i_def] by (auto simp: run_hand_out split: if_splits)
    moreover have "find_spawn i (snd (touch_spawn (clock w) i w)) = Some (s\<lparr>LAST_SEEN := Some (clock w)\<rparr>)"
      using Some find_row_Some[of SPAWN_ID i "spawns w" s]
      by (simp add: touch_spawn_def find_spawn_def seen_update.find_after_update)
    ultimately show ?thesis by (simp add: i_def assignment_of_def)
  next
    case None
    show ?thesis
    proof (cases "int (count_spawns (JOB_ID j) w) < AGENTS j \<and> i \<notin> SPAWN_ID ` set (spawns w)")
      case True
      define s where "s = spawn_row i (JOB_ID j) (text_of (agentId b)) (or_default (region b) ''unknown'') (clock w) w"
      have "claim_slot i (JOB_ID j) (text_of (agentId b)) (or_default (region b) ''unknown'') (clock w) (AGENTS j) w =
          (Inr (), w\<lparr>spawns := spawns w @ [s]\<rparr>)"
        using True slot_free[OF assms(1) jw] by (simp add: claim_slot_def s_def spawn_row_def)
      moreover have f: "find_spawn i (w\<lparr>spawns := spawns w @ [s]\<rparr>) = Some s"
        using None by (simp add: find_spawn_def find_row_append s_def spawn_row_def)
      ultimately have "g = assignment_of j i (SLOT s)" "find_spawn i w' = Some s"
        using run unfolding run_join_new[OF None i_def] by (auto simp: run_hand_out split: if_splits)
      then show ?thesis by (simp add: i_def assignment_of_def s_def spawn_row_def)
    next
      case False
      then have "claim_slot i (JOB_ID j) (text_of (agentId b)) (or_default (region b) ''unknown'') (clock w) (AGENTS j) w =
          (Inr (), w)"
        by (auto simp: claim_slot_def)
      with run None show ?thesis unfolding run_join_new[OF None i_def] by simp
    qed
  qed
qed

lemma stale_swept:
  assumes "world_inv w" "find_spawn i w = Some s" "SPAWN_STATUS s = RUNNING"
    "LAST_SEEN s = Some t" "t + 90000 < clock w"
  shows "\<exists>s'. find_spawn i (snd (run scheduled w)) = Some s' \<and> SPAWN_STATUS s' = FAILED"
proof -
  from find_spawnD[OF assms(2)] have s: "s \<in> set (spawns w)" "SPAWN_ID s = i" by auto
  define s' where "s' = with_spawn_status (current_timestamp w) (reaped_spawn (clock w) w s) s"
  have "is_stale (clock w - SPAWN_STALE_AFTER_MS) s"
    using assms(3-5) by (simp add: is_stale_def SPAWN_STALE_AFTER_MS_def)
  then have "SPAWN_STATUS s' = FAILED" by (simp add: s'_def reaped_spawn_def)
  moreover have "SPAWN_ID s' = i" using s(2) by (simp add: s'_def with_spawn_status_def)
  moreover have "s' \<in> set (spawns (reaped w))" using s(1) by (simp add: reaped_def s'_def)
  moreover have "map SPAWN_ID (spawns (reaped w)) = map SPAWN_ID (spawns w)"
    by (simp add: reaped_def with_spawn_status_def)
  then have "distinct (map SPAWN_ID (spawns (reaped w)))" using assms(1) by (simp add: world_inv_def)
  ultimately have "find_spawn i (reaped w) = Some s'"
    using find_row_distinct[of SPAWN_ID "spawns (reaped w)" s'] by (simp add: find_spawn_def)
  with \<open>SPAWN_STATUS s' = FAILED\<close> show ?thesis
    by (simp add: run_scheduled[OF inv_distinct_jobs[OF assms(1)]])
qed

section \<open>Properties\<close>

text \<open>
  C12: an agent that was given work and then says nothing for more than 90 seconds, as every agent
  does while it waits for a start further away than that, is failed by the next sweep, and when
  it polls for the same job again it is left idle: its share of the load is lost.
\<close>

theorem waiting_agent_locked_out:
  assumes "world_inv w" "run (agent_poll env (JsonObject b)) w = (Inr (Run g), w1)"
    "clock w + 90000 < now" "w2 = snd (run scheduled (w1\<lparr>clock := now\<rparr>))"
    "select_open_job w2 = Some j" "JOB_ID j = run_jobId g"
  shows "map_option SPAWN_STATUS (find_spawn (run_spawnId g) w2) = Some FAILED \<and>
    run (agent_poll env (JsonObject b)) w2 = (Inr (Idle None), w2)"
proof -
  obtain s where s: "find_spawn (run_spawnId g) w1 = Some s" "SPAWN_STATUS s = RUNNING"
    "LAST_SEEN s = Some (clock w)" "run_spawnId g = spawn_name (run_jobId g) (text_of (agentId b))"
    using poll_leaves_spawn[OF assms(1,2)] by blast
  from ctl.safe_run[OF safe_agent_poll assms(1,2)] have "world_inv w1" by simp
  then have inv: "world_inv (w1\<lparr>clock := now\<rparr>)"
    by (rule world_inv_cong) (simp_all add: \<open>world_inv w1\<close>[unfolded world_inv_def])
  have "find_spawn (run_spawnId g) (w1\<lparr>clock := now\<rparr>) = Some s" using s(1) by (simp add: find_spawn_def)
  from stale_swept[OF inv this s(2,3)] assms(3,4) obtain s' where
    s': "find_spawn (run_spawnId g) w2 = Some s'" "SPAWN_STATUS s' = FAILED" by auto
  have v: "verify_agent_token env (token b)" "\<not> falsy (agentId b)"
    using poll_ran[OF assms(2)] by metis+
  have "run (agent_poll env (JsonObject b)) w2 = (Inr (Idle None), w2)"
  proof (cases "column_number (STOP_AT j) \<le> js_int (clock w2)")
    case True
    with v assms(5) show ?thesis
      by (simp add: agent_poll_def poll_authorised_def query_def date_now_def)
  next
    case False
    from s'(2) show ?thesis
      unfolding run_poll[OF v assms(5) False]
        run_join_again[OF s'(1), unfolded s(4) assms(6)[symmetric], OF refl] by simp
  qed
  with s' show ?thesis by simp
qed

text \<open>A job with the longest start delay the page offers, ten minutes, ten seconds after its start.\<close>

definition waiting_job :: job where
  "waiting_job = sample_job\<lparr>START_AT := Some 1640000, STOP_AT := Some 1940000\<rparr>"

definition waiting_world :: world where
  "waiting_world = sample_world\<lparr>jobs := [waiting_job]\<rparr>"

lemma waiting_poll:
  "run (agent_poll sample_env (JsonObject (poll_body ''vm-a''))) waiting_world =
     (Inr (Run (assignment_of waiting_job (spawn_name sample_id ''vm-a'') 0)),
      waiting_world\<lparr>spawns := [sample_spawn ''vm-a'' 0\<lparr>LAST_SEEN := Some 1050000\<rparr>, sample_spawn ''vm-b'' 1]\<rparr>)"
proof -
  define i where "i = spawn_name sample_id ''vm-a''"
  have o: "select_open_job waiting_world = Some waiting_job"
    by (simp add: select_open_job_def waiting_world_def waiting_job_def sample_job_def ACTIVE_STATUSES_def)
  have c: "\<not> column_number (STOP_AT waiting_job) \<le> js_int (clock waiting_world)"
    by (simp add: waiting_job_def waiting_world_def sample_world_def js_int_def less_eq_js_number_def)
  have p: "\<not> falsy (agentId (poll_body ''vm-a''))" by (simp add: sample_poll)
  have f: "find_spawn i waiting_world = Some (sample_spawn ''vm-a'' 0)"
    by (simp add: find_spawn_def waiting_world_def sample_world_def sample_spawn_cols i_def)
  have a: "i = spawn_name (JOB_ID waiting_job) (text_of (agentId (poll_body ''vm-a'')))"
    by (simp add: i_def sample_poll waiting_job_def sample_job_def)
  show ?thesis
    unfolding run_poll[OF sample_poll(1) p o c] run_join_again[OF f a]
    by (simp add: sample_spawn_cols run_hand_out waiting_job_def sample_job_def touch_spawn_def)
       (simp add: waiting_world_def sample_world_def sample_spawn_cols spawn_name_def i_def)
qed

theorem waiting_agent_locked_out_witness:
  "\<exists>g w1 w2. run (agent_poll sample_env (JsonObject (poll_body ''vm-a''))) waiting_world = (Inr (Run g), w1) \<and>
     w2 = snd (run scheduled (w1\<lparr>clock := 1150000\<rparr>)) \<and>
     \<not> column_number (START_AT waiting_job) \<le> js_int (clock w2) \<and>
     run (agent_poll sample_env (JsonObject (poll_body ''vm-a''))) w2 = (Inr (Idle None), w2)"
proof -
  define g where "g = assignment_of waiting_job (spawn_name sample_id ''vm-a'') 0"
  define w1 where "w1 = waiting_world\<lparr>spawns := [sample_spawn ''vm-a'' 0\<lparr>LAST_SEEN := Some 1050000\<rparr>, sample_spawn ''vm-b'' 1]\<rparr>"
  define w2 where "w2 = snd (run scheduled (w1\<lparr>clock := 1150000\<rparr>))"
  have inv: "world_inv waiting_world"
    by (rule world_inv_cong[OF sample_world_inv])
       (simp_all add: waiting_world_def waiting_job_def sample_world_def sample_job_def job_core_def)
  have poll: "run (agent_poll sample_env (JsonObject (poll_body ''vm-a''))) waiting_world = (Inr (Run g), w1)"
    unfolding g_def w1_def by (rule waiting_poll)
  have w2: "w2 = reaped (w1\<lparr>clock := 1150000\<rparr>)"
    unfolding w2_def by (subst run_scheduled) (simp_all add: w1_def waiting_world_def)
  have "reaped_job 1150000 w waiting_job = RUNNING" for w
    by (simp add: reaped_job_def waiting_job_def sample_job_def is_expired_def is_abandoned_def
        JOB_FINALISE_GRACE_MS_def)
  then have "jobs w2 = [waiting_job]"
    by (simp add: w2 reaped_def w1_def waiting_world_def with_job_status_def)
       (simp add: waiting_job_def sample_job_def)
  then have o: "select_open_job w2 = Some waiting_job"
    by (simp add: select_open_job_def ACTIVE_STATUSES_def) (simp add: waiting_job_def sample_job_def)
  have c: "clock waiting_world + 90000 < 1150000" by (simp add: waiting_world_def sample_world_def)
  have j: "JOB_ID waiting_job = run_jobId g" by (simp add: g_def assignment_of_def)
  have "\<not> column_number (START_AT waiting_job) \<le> js_int (clock w2)"
    by (simp add: w2 reaped_frame waiting_job_def js_int_def less_eq_js_number_def)
  with waiting_agent_locked_out[OF inv poll c w2_def o j] poll w2_def show ?thesis by blast
qed

end
