(* ===== verification/Browser.thy ===== *)
theory Browser
  imports Starting
begin

text \<open>
  The operator's browser (\<open>assets/app.js\<close>): the admin token is taken from the address of the
  first page opened with it, kept in \<open>localStorage\<close>, and sent with every call of the API. What
  the page relies on from the control plane is the locale \<open>operator_api\<close>; the Worker is an
  instance of it. The network, the JSON encoding and the parsing of an address are the
  platform's: an address is its base and its query parameters, a body arrives as it was sent,
  and a header value arrives trimmed of HTTP white space, or makes the call throw when it
  contains a character no header may.
\<close>

section \<open>The page and its storage\<close>

definition TOKEN_KEY :: string where
  "TOKEN_KEY = ''r2bench.adminToken''"

record address =
  addr_base :: string
  addr_params :: "(string \<times> string) list"

record browser =
  location :: address
  localStorage :: "string \<rightharpoonup> string"

definition captureTokenFromUrl :: "browser \<Rightarrow> browser" where
  "captureTokenFromUrl b =
     (case map_of (addr_params (location b)) ''token'' of
        None \<Rightarrow> b
      | Some t \<Rightarrow> b\<lparr>localStorage := (localStorage b)(TOKEN_KEY \<mapsto> t),
          location := (location b)\<lparr>addr_params :=
            filter (\<lambda>(name, _). name \<noteq> ''token'') (addr_params (location b))\<rparr>\<rparr>)"

definition adminToken :: "browser \<Rightarrow> string" where
  "adminToken b = (case localStorage b TOKEN_KEY of None \<Rightarrow> [] | Some t \<Rightarrow> t)"

section \<open>Calling the API\<close>

text \<open>The options of a call; \<open>method\<close> defaults to \<open>GET\<close> in \<open>fetch\<close>.\<close>

record api_options =
  opt_method :: "string option"
  opt_headers :: "(string \<times> string) list"
  opt_body :: "json_object body option"

record http_request =
  http_method :: string
  http_path :: string
  http_headers :: "(string \<times> string) list"
  http_body :: "json_object body option"

text \<open>A response: its status and, when the body is JSON, the parsed body.\<close>

record web_response =
  web_status :: nat
  web_data :: "content option"

definition web_ok :: "web_response \<Rightarrow> bool" where
  "web_ok r \<longleftrightarrow> 200 \<le> web_status r \<and> web_status r \<le> 299"

text \<open>The errors the helper throws; \<open>NetworkError\<close> is \<open>fetch\<close> itself failing.\<close>

datatype api_error =
    NetworkError
  | StoredTokenRejected
  | NoTokenStored
  | WithMessage string
  | WithStatus nat

text \<open>Assigning a property of an object: an existing key keeps its place.\<close>

fun set_key :: "string \<Rightarrow> string \<Rightarrow> (string \<times> string) list \<Rightarrow> (string \<times> string) list" where
  "set_key k v [] = [(k, v)]"
| "set_key k v ((k', v') # rest) = (if k' = k then (k, v) # rest else (k', v') # set_key k v rest)"

definition api_request :: "browser \<Rightarrow> string \<Rightarrow> api_options \<Rightarrow> http_request" where
  "api_request b path opts =
     (let token = adminToken b;
          h1 = (if token \<noteq> [] then set_key ''x-admin-token'' token (opt_headers opts) else opt_headers opts);
          h2 = (if opt_body opts \<noteq> None then set_key ''Content-Type'' ''application/json'' h1 else h1)
      in \<lparr>http_method = (case opt_method opts of None \<Rightarrow> ''GET'' | Some m \<Rightarrow> m), http_path = path,
          http_headers = h2, http_body = opt_body opts\<rparr>)"

text \<open>\<open>data?.message\<close>, for the bodies the Worker sends with an error status.\<close>

fun message_field :: "content \<Rightarrow> string option" where
  "message_field (Error m) = m"
| "message_field PathNotFound = Some ''Path not found''"
| "message_field _ = None"

text \<open>\<open>response = None\<close>: the network call failed.\<close>

definition api_result :: "browser \<Rightarrow> web_response option \<Rightarrow> api_error + content option" where
  "api_result b response =
     (case response of
        None \<Rightarrow> Inl NetworkError
      | Some r \<Rightarrow>
          if web_status r = 401
          then Inl (if adminToken b \<noteq> [] then StoredTokenRejected else NoTokenStored)
          else if \<not> web_ok r
          then Inl (case Option.bind (web_data r) message_field of
                      Some m \<Rightarrow> WithMessage m
                    | None \<Rightarrow> WithStatus (web_status r))
          else Inr (web_data r))"

text \<open>The whole call, over a network \<open>send\<close>; it leaves the browser as it was.\<close>

definition api ::
    "(http_request \<Rightarrow> web_response option) \<Rightarrow> string \<Rightarrow> api_options \<Rightarrow> browser \<Rightarrow>
     (api_error + content option) \<times> browser" where
  "api send path opts b = (api_result b (send (api_request b path opts)), b)"

section \<open>What the page relies on\<close>

text \<open>
  The contract of the control plane the helper is written against: on the paths it serves, a
  call that carries the admin token is not answered with a 401.
\<close>

locale operator_api =
  fixes send :: "http_request \<Rightarrow> web_response option" and secret :: string
    and served :: "string \<Rightarrow> bool"
  assumes secret_nonempty: "served path \<Longrightarrow> secret \<noteq> []"
    and secret_accepted: "served (http_path h) \<Longrightarrow>
      map_of (http_headers h) ''x-admin-token'' = Some secret \<Longrightarrow> send h = Some r \<Longrightarrow> web_status r \<noteq> 401"
begin

lemma signed_in_never_refused:
  assumes "adminToken b = secret" "opt_headers opts = []" "served path"
  shows "fst (api send path opts b) \<notin> {Inl StoredTokenRejected, Inl NoTokenStored}"
proof -
  have "map_of (http_headers (api_request b path opts)) ''x-admin-token'' = Some secret"
    "http_path (api_request b path opts) = path"
    using assms(1,2) secret_nonempty[OF assms(3)] by (simp_all add: api_request_def Let_def)
  then have "web_status r \<noteq> 401" if "send (api_request b path opts) = Some r" for r
    using secret_accepted that assms(3) by metis
  then show ?thesis
    by (auto simp: api_def api_result_def split: option.split)
qed

end

section \<open>The Worker behind the page\<close>

definition http_space :: "char \<Rightarrow> bool" where
  "http_space c \<longleftrightarrow> (of_char c :: nat) \<in> {9, 10, 13, 32}"

definition http_trim :: "string \<Rightarrow> string" where
  "http_trim s = rev (dropWhile http_space (rev (dropWhile http_space s)))"

definition header_safe :: "string \<Rightarrow> bool" where
  "header_safe s \<longleftrightarrow> list_all (\<lambda>c. (of_char c :: nat) \<notin> {0, 10, 13}) (http_trim s)"

text \<open>
  The request as the Worker gets it; a call without a body has an empty one, which is not JSON.
  What the assets service answers is a parameter.
\<close>

definition received :: "string \<Rightarrow> http_request \<Rightarrow> request" where
  "received origin h =
     \<lparr>req_method = http_method h, req_origin = origin, req_pathname = http_path h,
      req_token_param = None,
      req_admin_header = map_option http_trim (map_of (http_headers h) ''x-admin-token''),
      req_body = (case http_body h of None \<Rightarrow> NotJson | Some b \<Rightarrow> b)\<rparr>"

definition answer_of :: "(string \<Rightarrow> web_response) \<Rightarrow> response \<Rightarrow> web_response" where
  "answer_of assets x =
     (case x of
        Json st c \<Rightarrow> \<lparr>web_status = st, web_data = Some c\<rparr>
      | StartFailed st _ \<Rightarrow> \<lparr>web_status = st, web_data = None\<rparr>
      | Asset url \<Rightarrow> assets url)"

definition worker_send ::
    "(string \<Rightarrow> web_response) \<Rightarrow> env \<Rightarrow> string \<Rightarrow> string \<Rightarrow> world \<Rightarrow> http_request \<Rightarrow> web_response option" where
  "worker_send assets env uuid origin w h =
     (if \<not> list_all (\<lambda>(_, v). header_safe v) (http_headers h) \<or>
         (http_body h \<noteq> None \<and> http_method h \<in> {''GET'', ''HEAD''}) then None
      else (case fst (run (fetch env uuid (received origin h)) w) of
              Inl _ \<Rightarrow> None
            | Inr x \<Rightarrow> Some (answer_of assets x)))"

lemma operator_errors:
  "fst (run (start_job env uuid body) w) \<noteq> Inl (Unauthorized m)"
  "fst (run (watch_job body) w) \<noteq> Inl (Unauthorized m)"
  "fst (run (stop_job body) w) \<noteq> Inl (Unauthorized m)"
  "fst (run list_jobs w) \<noteq> Inl (Unauthorized m)"
proof -
  have o: "fst (run (with_object body k) w) \<noteq> Inl (Unauthorized m)"
    if "\<And>b. fst (run (k b) w) \<noteq> Inl (Unauthorized m)" for k :: "json_object \<Rightarrow> 'a handler" and w
    using that by (cases body) (simp_all add: with_object_def)
  show "fst (run (start_job env uuid body) w) \<noteq> Inl (Unauthorized m)"
    unfolding start_job_def Let_def
    by (rule o) (simp add: query_def date_now_def insert_job_def split: option.split)
  show "fst (run (watch_job body) w) \<noteq> Inl (Unauthorized m)"
    unfolding watch_job_def watch_request_def Let_def
    by (cases body) (simp_all add: with_object_def query_def split: option.split)
  show "fst (run (stop_job body) w) \<noteq> Inl (Unauthorized m)"
    unfolding stop_job_def
    by (cases body) (simp_all add: with_object_def date_now_def request_stop_def Let_def)
  show "fst (run list_jobs w) \<noteq> Inl (Unauthorized m)"
    by (simp add: list_jobs_def query_def)
qed

text \<open>The operator paths of the API are answered in JSON, and with the right token not by a 401.\<close>

definition api_paths :: "string list" where
  "api_paths = [''/api/v1/jobs'', ''/api/v1/config'', ''/api/v1/start'', ''/api/v1/watch'', ''/api/v1/stop'']"

fun served_json :: "response \<Rightarrow> bool" where
  "served_json (Json st _) \<longleftrightarrow> st \<noteq> 401"
| "served_json _ \<longleftrightarrow> False"

definition not_refused :: "response handler \<Rightarrow> bool" where
  "not_refused p \<longleftrightarrow> (\<forall>w. case fst (run p w) of
       Inl e \<Rightarrow> (\<forall>m. e \<noteq> Unauthorized m)
     | Inr x \<Rightarrow> served_json x)"

lemma not_refused_respond:
  assumes "\<And>w m. fst (run p w) \<noteq> Inl (Unauthorized m)"
  shows "not_refused (respond f p)"
  unfolding not_refused_def
proof (intro allI)
  fix w
  show "case fst (run (respond f p) w) of Inl e \<Rightarrow> (\<forall>m. e \<noteq> Unauthorized m) | Inr x \<Rightarrow> served_json x"
    using assms[of w] by (cases "run p w") (auto simp: respond_def run_bind split: sum.split)
qed

lemma not_refused_Json: "st \<noteq> 401 \<Longrightarrow> not_refused (Return (Json st c))"
  by (simp add: not_refused_def)

lemma operator_route_not_refused:
  assumes "require_admin r env = Inr ()" "req_pathname r \<in> set api_paths"
  shows "not_refused (route env uuid r)"
  using assms(2)
  by (auto simp: route_def get_route_def post_route_def Let_def with_admin_def assms(1) api_paths_def
      not_found_def intro!: not_refused_respond not_refused_Json operator_errors)

lemma fetch_served_json:
  assumes "not_refused (route env uuid r)"
  shows "\<exists>x. fst (run (fetch env uuid r) w) = Inr x \<and> served_json x"
proof -
  obtain res w' where r: "run (route env uuid r) w = (res, w')" by (cases "run (route env uuid r) w")
  have n: "case res of Inl e \<Rightarrow> (\<forall>m. e \<noteq> Unauthorized m) | Inr x \<Rightarrow> served_json x"
    using assms r unfolding not_refused_def by (metis fst_conv)
  show ?thesis
  proof (cases res)
    case (Inl e)
    with n show ?thesis by (cases e) (simp_all add: fetch_def orchestrator_route_def run_catch r)
  next
    case (Inr z)
    with n show ?thesis by (simp add: fetch_def orchestrator_route_def run_catch r)
  qed
qed

text \<open>
  A token as Terraform generates it: printable characters without a blank.
\<close>

definition token_text :: "string \<Rightarrow> bool" where
  "token_text t \<longleftrightarrow> t \<noteq> [] \<and> list_all (\<lambda>c. 33 \<le> (of_char c :: nat) \<and> (of_char c :: nat) \<le> 126) t"

lemma token_text_trim: "token_text t \<Longrightarrow> http_trim t = t"
proof -
  assume t: "token_text t"
  have ns: "\<not> http_space c" if "c \<in> set t" for c
    using t that by (auto simp: token_text_def list_all_iff http_space_def dest!: bspec)
  have "dropWhile http_space t = t" using ns by (cases t) auto
  moreover have "dropWhile http_space (rev t) = rev t"
    using ns last_in_set by (auto simp: dropWhile_eq_self_iff hd_rev)
  ultimately show ?thesis by (simp add: http_trim_def)
qed

definition served_with :: "env \<Rightarrow> string \<Rightarrow> string \<Rightarrow> bool" where
  "served_with env t path \<longleftrightarrow> ADMIN_TOKEN env = Some t \<and> token_text t \<and> path \<in> set api_paths"

lemma worker_accepts:
  assumes "served_with env t (http_path h)" "map_of (http_headers h) ''x-admin-token'' = Some t"
    and s: "worker_send assets env uuid origin w h = Some r"
  shows "web_status r \<noteq> 401"
proof -
  from s obtain x where x: "fst (run (fetch env uuid (received origin h)) w) = Inr x"
    "r = answer_of assets x"
    by (auto simp: worker_send_def split: if_splits sum.splits)
  have "require_admin (received origin h) env = Inr ()"
    using assms(1,2) by (simp add: require_admin_eq received_def presented_token_def served_with_def token_text_trim)
  then have "not_refused (route env uuid (received origin h))"
    using assms(1) by (intro operator_route_not_refused) (simp_all add: received_def served_with_def)
  from fetch_served_json[OF this, of w] have "served_json x" using x(1) by auto
  with x(2) show ?thesis by (cases x) (simp_all add: answer_of_def)
qed

interpretation bench: operator_api "worker_send assets env uuid origin w" t "served_with env t"
  for assets env uuid origin w t
proof unfold_locales
  show "t \<noteq> []" if "served_with env t path" for path
    using that by (simp add: served_with_def token_text_def)
qed (rule worker_accepts)

section \<open>A session of the page\<close>

text \<open>The operator opens addresses and the pages call the API, with whatever the network answers.\<close>

datatype ui_event =
    Open address
  | Call string api_options "http_request \<Rightarrow> web_response option"

fun ui_step :: "ui_event \<Rightarrow> browser \<Rightarrow> browser" where
  "ui_step (Open a) b = captureTokenFromUrl (b\<lparr>location := a\<rparr>)"
| "ui_step (Call path opts send) b = snd (api send path opts b)"

definition opened_token :: "ui_event \<Rightarrow> string option" where
  "opened_token e = (case e of Open a \<Rightarrow> map_of (addr_params a) ''token'' | _ \<Rightarrow> None)"

lemma ui_step_token:
  "adminToken (ui_step e b) = (case opened_token e of None \<Rightarrow> adminToken b | Some t \<Rightarrow> t)"
  by (cases e) (auto simp: captureTokenFromUrl_def adminToken_def api_def opened_token_def split: option.split)

lemma ui_step_address:
  "''token'' \<notin> fst ` set (addr_params (location b)) \<Longrightarrow>
   ''token'' \<notin> fst ` set (addr_params (location (ui_step e b)))"
  by (cases e) (auto simp: captureTokenFromUrl_def api_def map_of_eq_None_iff split: option.split)

definition last_some :: "'a option list \<Rightarrow> 'a option" where
  "last_some xs = (case rev (List.map_filter (\<lambda>x. x) xs) of [] \<Rightarrow> None | x # _ \<Rightarrow> Some x)"

lemma last_some_snoc:
  "last_some (xs @ [x]) = (case x of None \<Rightarrow> last_some xs | Some y \<Rightarrow> Some y)"
  by (auto simp: last_some_def List.map_filter_def split: option.split)

section \<open>Properties\<close>

text \<open>
  C20: the token the page sends is, after any session, the one in the last address opened with a
  \<open>?token=\<close>, whatever other pages were opened and whatever the calls in between were answered
  (a 401 does not discard it); and no address stays in the address bar with a token in it.
\<close>

theorem last_token_opened_is_kept:
  assumes "''token'' \<notin> fst ` set (addr_params (location b))"
  shows "adminToken (fold ui_step events b) =
      (case last_some (map opened_token events) of None \<Rightarrow> adminToken b | Some t \<Rightarrow> t) \<and>
    ''token'' \<notin> fst ` set (addr_params (location (fold ui_step events b)))"
proof (induction events rule: rev_induct)
  case Nil
  with assms show ?case by (simp add: last_some_def List.map_filter_def)
next
  case (snoc e events)
  then show ?case by (simp add: ui_step_token ui_step_address last_some_snoc split: option.split)
qed

definition first_page :: browser where
  "first_page = \<lparr>location = \<lparr>addr_base = ''/'', addr_params = []\<rparr>, localStorage = Map.empty\<rparr>"

definition dashboard :: address where
  "dashboard = \<lparr>addr_base = ''/watch.html'', addr_params = [(''jobId'', ''j''), (''token'', ''admin-secret'')]\<rparr>"

definition no_options :: api_options where
  "no_options = \<lparr>opt_method = None, opt_headers = [], opt_body = None\<rparr>"

theorem last_token_opened_is_kept_witness:
  "adminToken (fold ui_step
     [Open dashboard,
      Call ''/api/v1/jobs'' no_options (\<lambda>_. Some \<lparr>web_status = 401, web_data = None\<rparr>),
      Open \<lparr>addr_base = ''/jobs.html'', addr_params = []\<rparr>] first_page) = ''admin-secret''"
  using last_token_opened_is_kept[of first_page
      "[Open dashboard,
        Call ''/api/v1/jobs'' no_options (\<lambda>_. Some \<lparr>web_status = 401, web_data = None\<rparr>),
        Open \<lparr>addr_base = ''/jobs.html'', addr_params = []\<rparr>]"]
  by (simp add: first_page_def dashboard_def opened_token_def last_some_def List.map_filter_def)

text \<open>
  C19: the page and the Worker fit together. Once the operator has opened an address with the
  Worker's admin token, no call of the API is refused for its token, in any state of the
  database, whatever was opened or called before and whatever is called next; only opening
  another token can change that.
\<close>

theorem signed_in_operator_never_refused:
  assumes "ADMIN_TOKEN env = Some t" "token_text t"
    and "map_of (addr_params a) ''token'' = Some t"
    and "list_all (\<lambda>e. opened_token e = None) events"
    and "path \<in> set api_paths" "opt_headers opts = []"
  shows "fst (api (worker_send assets env uuid origin w) path opts (fold ui_step events (ui_step (Open a) b)))
    \<notin> {Inl StoredTokenRejected, Inl NoTokenStored}"
proof (rule bench.signed_in_never_refused[OF _ assms(6)])
  have "adminToken (fold ui_step events c) = adminToken c" for c
    using assms(4) by (induction events arbitrary: c) (auto simp: ui_step_token)
  moreover have "adminToken (ui_step (Open a) b) = t"
    using assms(3) by (simp add: ui_step_token opened_token_def del: ui_step.simps)
  ultimately show "adminToken (fold ui_step events (ui_step (Open a) b)) = t" by simp
  show "served_with env t path" using assms(1,2,5) by (simp add: served_with_def)
qed

theorem signed_in_operator_never_refused_witness:
  "fst (api (worker_send (\<lambda>_. \<lparr>web_status = 200, web_data = None\<rparr>) sample_env ''u'' ''https://bench'' sample_world)
      ''/api/v1/jobs'' no_options (ui_step (Open dashboard) first_page))
    \<notin> {Inl StoredTokenRejected, Inl NoTokenStored}"
  using signed_in_operator_never_refused[of sample_env "''admin-secret''" dashboard "[]"
      "''/api/v1/jobs''" no_options "\<lambda>_. \<lparr>web_status = 200, web_data = None\<rparr>" "''u''" "''https://bench''"
      sample_world first_page]
  by (simp add: sample_env_def dashboard_def token_text_def api_paths_def no_options_def)

end
