(* ===== verification/Pages.thy ===== *)
theory Pages
  imports Browser
begin

text \<open>
  The start page of the operator (the script of \<open>assets/index.html\<close>): its presets, the form as
  the deployment's configuration fills it, the browser's own validation of the inputs, the hint
  under the form, and what pressing Start does. Input values are strings, as in the document;
  labels and styling are left out.
\<close>

section \<open>The form\<close>

record preset =
  p_targetRPS :: nat
  p_agents :: nat
  p_workersPerAgent :: nat
  p_duration :: nat
  p_startDelaySeconds :: nat
  p_unthrottled :: bool

definition PRESETS :: "(string \<times> preset) list" where
  "PRESETS =
     [(''smoke'', \<lparr>p_targetRPS = 2000, p_agents = 1, p_workersPerAgent = 64, p_duration = 2,
         p_startDelaySeconds = 30, p_unthrottled = False\<rparr>),
      (''standard'', \<lparr>p_targetRPS = 80000, p_agents = 8, p_workersPerAgent = 512, p_duration = 15,
         p_startDelaySeconds = 30, p_unthrottled = False\<rparr>)]"

text \<open>
  The inputs' values, the \<open>max\<close> of the workers input, and the script's variable
  \<open>provisionedAgents\<close>.
\<close>

record start_form =
  in_targetRPS :: string
  in_agents :: string
  in_workersPerAgent :: string
  in_duration :: string
  in_startDelaySeconds :: string
  in_unthrottled :: bool
  workers_max :: "js_number option"
  provisioned :: "js_number option"

definition initial_form :: start_form where
  "initial_form =
     \<lparr>in_targetRPS = ''2000'', in_agents = ''1'', in_workersPerAgent = ''64'', in_duration = ''2'',
      in_startDelaySeconds = ''30'', in_unthrottled = False, workers_max = None, provisioned = None\<rparr>"

text \<open>Assigning a number to a value writes it in decimal.\<close>

definition applyPreset :: "string \<Rightarrow> start_form \<Rightarrow> start_form" where
  "applyPreset name f =
     (case map_of PRESETS name of
        None \<Rightarrow> f
      | Some p \<Rightarrow> f\<lparr>in_targetRPS := decimal (p_targetRPS p), in_agents := decimal (p_agents p),
          in_workersPerAgent := decimal (p_workersPerAgent p), in_duration := decimal (p_duration p),
          in_startDelaySeconds := decimal (p_startDelaySeconds p), in_unthrottled := p_unthrottled p\<rparr>)"

text \<open>
  The configuration, once it is answered; an error, or a body that is \<open>null\<close>, is ignored. The
  counts of a configuration are whole, so they too are written in decimal.
\<close>

definition loadDeploymentConfig :: "api_error + content option \<Rightarrow> start_form \<Rightarrow> start_form" where
  "loadDeploymentConfig answer f =
     (case answer of
        Inr (Some (Config cfg)) \<Rightarrow>
          (let f1 = (case maxWorkersPerAgent cfg of
                       None \<Rightarrow> f
                     | Some m \<Rightarrow> if m = 0 then f else f\<lparr>workers_max := Some m\<rparr>);
               f2 = f1\<lparr>provisioned := provisionedAgents cfg\<rparr>
           in case provisionedAgents cfg of
                None \<Rightarrow> f2
              | Some n \<Rightarrow>
                  if n = 0 then f2
                  else (applyPreset (if n = js_int 1 then ''smoke'' else ''standard'') f2)
                         \<lparr>in_agents := decimal (nat (js_to_int n))\<rparr>)
      | Inr (Some _) \<Rightarrow> f\<lparr>provisioned := None\<rparr>
      | _ \<Rightarrow> f)"

text \<open>
  The validation of a required number input with \<open>min\<close>, \<open>max\<close> and \<open>step="1"\<close>, which the browser
  does before the form is submitted.
\<close>

definition input_valid :: "int \<Rightarrow> js_number option \<Rightarrow> string \<Rightarrow> bool" where
  "input_valid mn mx v \<longleftrightarrow>
     (let x = string_to_number v
      in v \<noteq> [] \<and> is_finite x \<and> math_floor x = x \<and> js_int mn \<le> x \<and>
         (case mx of None \<Rightarrow> True | Some m \<Rightarrow> x \<le> m))"

definition form_valid :: "start_form \<Rightarrow> bool" where
  "form_valid f \<longleftrightarrow>
     input_valid 1 None (in_targetRPS f) \<and> input_valid 1 (Some (js_int 512)) (in_agents f) \<and>
     input_valid 1 (workers_max f) (in_workersPerAgent f) \<and>
     input_valid 1 (Some (js_int 120)) (in_duration f) \<and>
     input_valid 0 (Some (js_int 600)) (in_startDelaySeconds f)"

section \<open>The hint\<close>

text \<open>The hint's text, and its warning with the two counts the text names.\<close>

datatype hint = RunsFlatOut | PerAgent js_number | TargetTooLow

text \<open>\<open>Math.floor(Number(v)) || 0\<close>\<close>

definition whole_or_zero :: "string \<Rightarrow> js_number" where
  "whole_or_zero v = (let n = math_floor (string_to_number v) in if n = NaN then 0 else n)"

definition updatePerAgentHint :: "start_form \<Rightarrow> hint \<times> (js_number \<times> js_number) option" where
  "updatePerAgentHint f =
     (let total = whole_or_zero (in_targetRPS f); n = whole_or_zero (in_agents f)
      in (if in_unthrottled f then RunsFlatOut
          else if 0 < n \<and> n \<le> total then PerAgent (math_floor (total div n))
          else TargetTooLow,
          case provisioned f of
            None \<Rightarrow> None
          | Some p \<Rightarrow> if p \<noteq> 0 \<and> p < n then Some (p, n) else None))"

section \<open>Pressing Start\<close>

text \<open>\<open>JSON.stringify\<close> of a number: one that is not finite becomes \<open>null\<close>.\<close>

definition json_number :: "js_number \<Rightarrow> js_number field" where
  "json_number x = (if is_finite x then Val x else Null)"

definition form_body :: "start_form \<Rightarrow> json_object" where
  "form_body f =
     empty_object\<lparr>targetRPS := json_number (string_to_number (in_targetRPS f)),
       agents := json_number (string_to_number (in_agents f)),
       workersPerAgent := json_number (string_to_number (in_workersPerAgent f)),
       duration := json_number (string_to_number (in_duration f)),
       startDelaySeconds := json_number (string_to_number (in_startDelaySeconds f)),
       unthrottled := Val (in_unthrottled f)\<rparr>"

definition start_options :: "start_form \<Rightarrow> api_options" where
  "start_options f =
     \<lparr>opt_method = Some ''POST'', opt_headers = [], opt_body = Some (JsonObject (form_body f))\<rparr>"

text \<open>Where the page goes, or what it shows: the error of the call, or the answer's message.\<close>

datatype start_outcome = GoToWatch string | StartRefused message | StartFailure api_error | NoAnswer

definition start_outcome_of :: "api_error + content option \<Rightarrow> start_outcome" where
  "start_outcome_of answer =
     (case answer of
        Inl e \<Rightarrow> StartFailure e
      | Inr (Some (Started res)) \<Rightarrow>
          (case start_jobId res of
             None \<Rightarrow> StartRefused (start_message res)
           | Some j \<Rightarrow> if j = [] then StartRefused (start_message res) else GoToWatch j)
      | Inr _ \<Rightarrow> NoAnswer)"

definition submit_start ::
    "(http_request \<Rightarrow> web_response option) \<Rightarrow> browser \<Rightarrow> start_form \<Rightarrow> start_outcome" where
  "submit_start send b f = start_outcome_of (fst (api send ''/api/v1/start'' (start_options f) b))"

section \<open>The form and the Worker's checks\<close>

lemma input_validE:
  assumes "input_valid mn mx v"
  obtains n where "string_to_number v = js_int n" "mn \<le> n"
    "\<And>m. mx = Some m \<Longrightarrow> js_int n \<le> m"
proof -
  have x: "is_finite (math_floor (string_to_number v))" "math_floor (string_to_number v) = string_to_number v"
    using assms by (simp_all add: input_valid_def Let_def)
  then obtain n where n: "string_to_number v = js_int n" using finite_floor_int by metis
  with assms that show ?thesis by (auto simp: input_valid_def Let_def split: option.splits)
qed

lemma whole_or_zero_int [simp]: "string_to_number v = js_int n \<Longrightarrow> whole_or_zero v = js_int n"
  by (simp add: whole_or_zero_def Let_def js_int_def)

lemma form_params:
  assumes "string_to_number (in_targetRPS f) = js_int t" "string_to_number (in_agents f) = js_int n"
    "string_to_number (in_workersPerAgent f) = js_int k" "string_to_number (in_duration f) = js_int d"
    "string_to_number (in_startDelaySeconds f) = js_int s"
  shows "start_params_of (form_body f) =
    \<lparr>par_targetRPS = js_int t, par_agents = js_int n, par_workersPerAgent = js_int k,
     par_duration = js_int d, par_startDelaySeconds = js_int s, par_unthrottled = in_unthrottled f\<rparr>"
  using assms by (simp add: start_params_of_def form_body_def empty_object_def json_number_def floor_or_def)

lemma rejected_params:
  assumes "1 \<le> t" "1 \<le> k" "1 \<le> d" "0 \<le> s" "n \<le> MAX_AGENTS_PER_JOB" "t < n"
  shows "start_invalid env \<lparr>par_targetRPS = js_int t, par_agents = js_int n,
      par_workersPerAgent = js_int k, par_duration = js_int d,
      par_startDelaySeconds = js_int s, par_unthrottled = False\<rparr> = Some TargetBelowAgents"
proof -
  have "first_not_positive [(''targetRPS'', js_int t), (''agents'', js_int n),
      (''workersPerAgent'', js_int k), (''duration'', js_int d)] = None"
    unfolding first_not_positive_None using assms by (simp add: js_int_zero)
  then show ?thesis
    using assms by (simp add: start_invalid_def js_int_zero del: first_not_positive.simps)
qed

text \<open>The form once the configuration of a deployment has been read.\<close>

definition configured_form :: "env \<Rightarrow> start_form" where
  "configured_form env = loadDeploymentConfig (Inr (Some (Config (deployment_config env)))) initial_form"

lemma configured_max:
  "max_workers_per_agent env \<noteq> Some 0 \<Longrightarrow> workers_max (configured_form env) = max_workers_per_agent env"
  by (auto simp: configured_form_def loadDeploymentConfig_def deployment_config_def initial_form_def
      applyPreset_def Let_def split: option.split)

section \<open>A call answered by the Worker\<close>

lemma header_safe_token: "token_text t \<Longrightarrow> header_safe t"
  by (simp add: header_safe_def token_text_trim) (force simp: token_text_def list_all_iff)

lemma json_type_safe: "header_safe ''application/json''"
  by (rule header_safe_token) (simp add: token_text_def)

lemma call_answered:
  assumes "adminToken b = t" "token_text t" "opt_headers opts = []"
    "opt_body opts \<noteq> None \<Longrightarrow> opt_method opts = Some ''POST''"
    "fst (run (fetch env uuid (received origin (api_request b path opts))) w) = Inr (Json 200 c)"
  shows "fst (api (worker_send assets env uuid origin w) path opts b) = Inr (Some c)"
proof -
  have "t \<noteq> []" using assms(2) by (auto simp: token_text_def)
  then have "worker_send assets env uuid origin w (api_request b path opts) =
      Some \<lparr>web_status = 200, web_data = Some c\<rparr>"
    using assms header_safe_token[OF assms(2)] json_type_safe
    by (auto simp: worker_send_def answer_of_def api_request_def Let_def)
  then show ?thesis by (simp add: api_def api_result_def web_ok_def)
qed

lemma fetch_answers:
  assumes "route env uuid r = respond f p" "run p w = (Inr x, w')"
  shows "run (fetch env uuid r) w = (Inr (Json 200 (f x)), w')"
  using assms by (simp add: fetch_def orchestrator_route_def respond_def run_catch run_bind)

lemma signed_in:
  assumes "ADMIN_TOKEN env = Some t" "token_text t" "adminToken b = t" "opt_headers opts = []"
  shows "require_admin (received origin (api_request b path opts)) env = Inr ()"
  using assms by (simp add: require_admin_eq received_def presented_token_def token_text_trim
      api_request_def Let_def)

lemma config_answered:
  assumes "ADMIN_TOKEN env = Some t" "token_text t" "adminToken b = t"
  shows "fst (api (worker_send assets env uuid origin w) ''/api/v1/config'' no_options b) =
    Inr (Some (Config (deployment_config env)))"
proof (rule call_answered[OF assms(3,2)])
  have "require_admin (received origin (api_request b ''/api/v1/config'' no_options)) env = Inr ()"
    by (rule signed_in[OF assms]) (simp add: no_options_def)
  then have "route env uuid (received origin (api_request b ''/api/v1/config'' no_options)) =
      Return (Json 200 (Config (deployment_config env)))"
    by (simp add: route_def get_route_def with_admin_def)
       (simp add: received_def api_request_def no_options_def Let_def)
  then show "fst (run (fetch env uuid (received origin (api_request b ''/api/v1/config'' no_options))) w) =
      Inr (Json 200 (Config (deployment_config env)))"
    by (simp add: fetch_def orchestrator_route_def run_catch)
qed (simp_all add: no_options_def)

lemma start_routed:
  assumes "ADMIN_TOKEN env = Some t" "token_text t" "adminToken b = t"
  shows "route env uuid (received origin (api_request b ''/api/v1/start'' (start_options f))) =
    respond Started (start_job env uuid (JsonObject (form_body f)))"
proof -
  have "require_admin (received origin (api_request b ''/api/v1/start'' (start_options f))) env = Inr ()"
    by (rule signed_in[OF assms]) (simp add: start_options_def)
  then show ?thesis
    by (simp add: route_def post_route_def with_admin_def Let_def)
       (simp add: received_def api_request_def start_options_def Let_def)
qed

section \<open>Properties\<close>

text \<open>
  C22: the page warns of exactly what the Worker refuses. Once the configuration is loaded and as
  long as the cap is not the degenerate 0, a form that passes the browser's validation is
  accepted by the Worker's checks exactly when the hint below it does not say that the target is
  too low, and the rate per agent that the hint shows is the share of the job's last slot.
\<close>

theorem hint_agrees_with_worker:
  assumes "form_valid f" "workers_max f = workers_max (configured_form env)"
    "max_workers_per_agent env \<noteq> Some 0"
  shows "(start_invalid env (start_params_of (form_body f)) = None \<longleftrightarrow>
      fst (updatePerAgentHint f) \<noteq> TargetTooLow) \<and>
    (\<forall>x. fst (updatePerAgentHint f) = PerAgent x \<longrightarrow>
       whole_or_zero (in_targetRPS f) \<le> js_int (2 ^ 51) \<longrightarrow>
       x = rps_for_slot (whole_or_zero (in_targetRPS f)) (whole_or_zero (in_agents f))
             (js_int (js_to_int (whole_or_zero (in_agents f)) - 1)))"
proof -
  from assms(1) have v: "input_valid 1 None (in_targetRPS f)"
    "input_valid 1 (Some (js_int 512)) (in_agents f)"
    "input_valid 1 (workers_max f) (in_workersPerAgent f)"
    "input_valid 1 (Some (js_int 120)) (in_duration f)"
    "input_valid 0 (Some (js_int 600)) (in_startDelaySeconds f)"
    by (simp_all add: form_valid_def)
  obtain t where t: "string_to_number (in_targetRPS f) = js_int t" "1 \<le> t"
    using v(1) by (rule input_validE)
  obtain n where n: "string_to_number (in_agents f) = js_int n" "1 \<le> n" "n \<le> 512"
    using v(2) by (rule input_validE) auto
  obtain k where k: "string_to_number (in_workersPerAgent f) = js_int k" "1 \<le> k"
    "\<And>m. workers_max f = Some m \<Longrightarrow> js_int k \<le> m"
    using v(3) by (rule input_validE) auto
  obtain d where d: "string_to_number (in_duration f) = js_int d" "1 \<le> d"
    using v(4) by (rule input_validE)
  obtain s where s: "string_to_number (in_startDelaySeconds f) = js_int s" "0 \<le> s"
    using v(5) by (rule input_validE)
  note p = form_params[OF t(1) n(1) k(1) d(1) s(1)]
  have cap: "\<not> c < js_int k" if "max_workers_per_agent env = Some c" for c
  proof -
    have "js_int k \<le> c" using k(3) that assms(2) configured_max[OF assms(3)] by simp
    then show ?thesis by (cases c) (auto simp: js_int_def less_eq_js_number_def)
  qed
  have "start_invalid env (start_params_of (form_body f)) = None \<longleftrightarrow> in_unthrottled f \<or> n \<le> t"
  proof (cases "in_unthrottled f \<or> n \<le> t")
    case True
    then show ?thesis
      unfolding p using accepted_params[OF t(2) n(2) _ k(2) d(2) s(2) True cap] n(3)
      by (simp add: MAX_AGENTS_PER_JOB_def)
  next
    case False
    then show ?thesis
      unfolding p using rejected_params[OF t(2) k(2) d(2) s(2), of n env] n(3)
      by (simp add: MAX_AGENTS_PER_JOB_def)
  qed
  moreover have hint: "fst (updatePerAgentHint f) =
      (if in_unthrottled f then RunsFlatOut
       else if n \<le> t then PerAgent (math_floor (js_int t div js_int n)) else TargetTooLow)"
    using t n by (simp add: updatePerAgentHint_def Let_def js_int_zero)
  moreover have "math_floor (js_int t div js_int n) = rps_for_slot (js_int t) (js_int n) (js_int (n - 1))"
    if "t \<le> 2 ^ 51"
  proof -
    have b: "0 \<le> t" "0 < n" "t + n \<le> 2 ^ 52" using that t(2) n(2,3) by simp_all
    have "\<not> n - 1 < t mod n" using b(2) pos_mod_bound[of n t] by linarith
    then show ?thesis
      unfolding rps_for_slot_int[OF b] js_int_floor_div[OF b] by (simp add: slot_rate_def)
  qed
  ultimately show ?thesis using t(1) n(1) by auto
qed

definition filled_form :: start_form where
  "filled_form = initial_form\<lparr>in_targetRPS := ''100'', in_agents := ''8'', workers_max := Some (js_int 512)\<rparr>"

theorem hint_agrees_with_worker_witness:
  "start_invalid sample_env (start_params_of (form_body filled_form)) = None \<and>
   fst (updatePerAgentHint filled_form) \<noteq> TargetTooLow"
proof -
  have d: "decimal 100 = ''100''" "decimal 8 = ''8''" "decimal 64 = ''64''" "decimal 2 = ''2''"
    "decimal 30 = ''30''" by code_simp+
  have n: "string_to_number ''100'' = js_int 100" "string_to_number ''8'' = js_int 8"
    "string_to_number ''64'' = js_int 64" "string_to_number ''2'' = js_int 2"
    "string_to_number ''30'' = js_int 30"
    using string_to_number_decimal[of 100] string_to_number_decimal[of 8] string_to_number_decimal[of 64]
      string_to_number_decimal[of 2] string_to_number_decimal[of 30]
    by (simp_all add: d)
  have c: "max_workers_per_agent sample_env \<noteq> Some 0" by (simp add: sample_cap js_int_zero)
  have v: "form_valid filled_form"
    by (simp add: form_valid_def input_valid_def filled_form_def initial_form_def n Let_def)
  have m: "workers_max filled_form = workers_max (configured_form sample_env)"
    unfolding configured_max[OF c] by (simp add: filled_form_def sample_cap)
  have "fst (updatePerAgentHint filled_form) \<noteq> TargetTooLow"
    by (simp add: updatePerAgentHint_def filled_form_def initial_form_def whole_or_zero_int[OF n(1)]
        whole_or_zero_int[OF n(2)] js_int_zero)
  with hint_agrees_with_worker[OF v m c] show ?thesis by simp
qed

lemma preset_params:
  assumes "string_to_number (in_agents f) = js_int n"
  shows "in_targetRPS f = decimal t \<Longrightarrow> t \<le> 2 ^ 53 \<Longrightarrow> in_workersPerAgent f = decimal k \<Longrightarrow> k \<le> 2 ^ 53 \<Longrightarrow>
    in_duration f = decimal d \<Longrightarrow> d \<le> 2 ^ 53 \<Longrightarrow> in_startDelaySeconds f = decimal s \<Longrightarrow> s \<le> 2 ^ 53 \<Longrightarrow>
    start_params_of (form_body f) = \<lparr>par_targetRPS = js_int (int t), par_agents = js_int n,
      par_workersPerAgent = js_int (int k), par_duration = js_int (int d),
      par_startDelaySeconds = js_int (int s), par_unthrottled = in_unthrottled f\<rparr>"
  using assms by (intro form_params) (simp_all add: string_to_number_decimal)

text \<open>What the presets come to on a deployment of \<open>n\<close> agents.\<close>

definition preset_of :: "int \<Rightarrow> int \<times> int \<times> int" where
  "preset_of n = (if n = 1 then (2000, 64, 2) else (80000, 512, 15))"

lemma configured_params:
  assumes "positive_var (DEPLOYMENT_AGENTS env) = Some (js_int n)" "1 \<le> n" "n \<le> 512"
    "preset_of n = (t, k, d)"
  shows "start_params_of (form_body (configured_form env)) =
    \<lparr>par_targetRPS = js_int t, par_agents = js_int n, par_workersPerAgent = js_int k,
     par_duration = js_int d, par_startDelaySeconds = js_int 30, par_unthrottled = False\<rparr>"
proof -
  define f where "f = configured_form env"
  have f: "in_agents f = decimal (nat n)" "in_targetRPS f = decimal (nat t)"
    "in_workersPerAgent f = decimal (nat k)" "in_duration f = decimal (nat d)"
    "in_startDelaySeconds f = decimal 30" "in_unthrottled f = False"
    using assms
    by (auto simp: f_def configured_form_def loadDeploymentConfig_def deployment_config_def Let_def
        js_int_zero applyPreset_def PRESETS_def preset_of_def split: if_splits)
  have "string_to_number (in_agents f) = js_int n"
    using assms(2,3) string_to_number_decimal[of "nat n"] by (simp add: f(1))
  from preset_params[OF this f(2) _ f(3) _ f(4) _ f(5)] show ?thesis
    using assms(4) by (auto simp: f_def[symmetric] f(6) preset_of_def split: if_splits)
qed

text \<open>
  C21: the pages, the helper, the Worker and the database play together. On a deployment that
  declares its agents, the operator who is signed in opens the start page, leaves the form as
  the configuration fills it and presses Start: the page goes on to watch the new job, and the
  database has exactly that job more, with one slot for every agent there is.
\<close>

theorem start_page_queues_fleet:
  assumes "ADMIN_TOKEN env = Some t" "token_text t" "adminToken b = t"
    and n: "positive_var (DEPLOYMENT_AGENTS env) = Some (js_int n)" "1 \<le> n" "n \<le> 512"
      "preset_of n = (target, workers, minutes)"
    and cap: "\<And>c. max_workers_per_agent env = Some c \<Longrightarrow> \<not> c < js_int workers"
    and w: "select_active_job w = None" "uuid \<notin> JOB_ID ` set (jobs w)" "uuid \<noteq> []"
      "0 \<le> clock w" "clock w \<le> 2 ^ 52"
    and f: "f = loadDeploymentConfig (fst (api (worker_send assets env uuid' origin w') ''/api/v1/config'' no_options b))
      initial_form"
  shows "submit_start (worker_send assets env uuid origin w) b f = GoToWatch uuid \<and>
    jobs (snd (run (fetch env uuid (received origin (api_request b ''/api/v1/start'' (start_options f)))) w)) =
      jobs w @ [\<lparr>JOB_ID = uuid, RPS = target, CONCURRENCY = n, AGENTS = n, WORKERS_PER_AGENT = workers,
        DURATION = minutes, START_AT = Some (of_int (clock w + 30 * 1000)),
        STOP_AT = Some (of_int (clock w + 30 * 1000 + minutes * 60000)), UNTHROTTLED = 0, STATUS = QUEUED,
        CREATED_AT = current_timestamp w, UPDATED_AT = current_timestamp w\<rparr>]"
proof -
  have f': "f = configured_form env"
    unfolding f configured_form_def config_answered[OF assms(1-3)] ..
  have p: "start_params_of (form_body f) =
    \<lparr>par_targetRPS = js_int target, par_agents = js_int n, par_workersPerAgent = js_int workers,
     par_duration = js_int minutes, par_startDelaySeconds = js_int 30, par_unthrottled = False\<rparr>"
    unfolding f' by (rule configured_params[OF n])
  have ok: "start_invalid env (start_params_of (form_body f)) = None"
    unfolding p using n(2-4) cap
    by (intro accepted_params) (auto simp: MAX_AGENTS_PER_JOB_def preset_of_def split: if_splits)
  have c: "clock w + 30 * 1000 + minutes * 60000 \<le> 2 ^ 53"
    using n(4) w(5) by (auto simp: preset_of_def split: if_splits)
  note run = run_start_job[OF ok p w(1,2,4) c]
  note ans = fetch_answers[OF start_routed[OF assms(1-3)] run]
  have "fst (api (worker_send assets env uuid origin w) ''/api/v1/start'' (start_options f) b) =
      Inr (Some (Started \<lparr>start_status = ''success'', start_message = JobQueued (js_int 30),
        start_request = form_body f, start_jobId = Some uuid\<rparr>))"
    by (rule call_answered[OF assms(3,2)]) (simp_all add: ans, simp_all add: start_options_def)
  then have "submit_start (worker_send assets env uuid origin w) b f = GoToWatch uuid"
    using w(3) by (simp add: submit_start_def start_outcome_of_def)
  then show ?thesis unfolding ans by simp
qed

theorem start_page_queues_fleet_witness:
  "submit_start (worker_send (\<lambda>_. \<lparr>web_status = 200, web_data = None\<rparr>) sample_env sample_id
      ''https://bench'' (shared (initial 0))) (captureTokenFromUrl (first_page\<lparr>location := dashboard\<rparr>))
      (loadDeploymentConfig (fst (api (worker_send (\<lambda>_. \<lparr>web_status = 200, web_data = None\<rparr>) sample_env
        ''u'' ''https://bench'' (shared (initial 0))) ''/api/v1/config'' no_options
        (captureTokenFromUrl (first_page\<lparr>location := dashboard\<rparr>)))) initial_form) = GoToWatch sample_id"
proof -
  define b where "b = captureTokenFromUrl (first_page\<lparr>location := dashboard\<rparr>)"
  have b: "adminToken b = ''admin-secret''"
    by (simp add: b_def captureTokenFromUrl_def dashboard_def adminToken_def)
  have "decimal 3 = ''3''" by code_simp
  then have n: "positive_var (DEPLOYMENT_AGENTS sample_env) = Some (js_int 3)"
    using positive_var_decimal[of 3] by (simp add: sample_env_def)
  have "ADMIN_TOKEN sample_env = Some ''admin-secret''" "token_text ''admin-secret''"
    by (simp_all add: sample_env_def token_text_def)
  from start_page_queues_fleet[OF this b n _ _ _ _ _ _ _ _ _ refl, of 80000 512 15 "shared (initial 0)" sample_id]
  show ?thesis unfolding b_def[symmetric]
    by (simp add: preset_of_def sample_cap initial_def select_active_job_def sample_id_def)
qed

end
