(* ===== verification/Specification.thy ===== *)
theory Specification
  imports System Polling
begin

text \<open>
  What the control plane promises as a whole, without tables, statements or interleavings: a
  list of campaigns, each with its board of agents and its place in the lifecycle, which
  changes by three kinds of step. The deployed system refines it: along any of its executions
  the abstraction of the database moves only by such steps.
\<close>

section \<open>The abstract machine\<close>

record campaign =
  c_id :: string
  c_target :: int
  c_agents :: int
  c_status :: status
  c_board :: "string list"

inductive spec_step :: "campaign list \<Rightarrow> campaign list \<Rightarrow> bool" where
  open_campaign: "c_id c \<notin> c_id ` set cs \<Longrightarrow> c_status c = QUEUED \<Longrightarrow> c_board c = [] \<Longrightarrow>
    1 \<le> c_target c \<Longrightarrow> 1 \<le> c_agents c \<Longrightarrow> c_agents c \<le> 512 \<Longrightarrow> spec_step cs (cs @ [c])"
| move_on: "c_status c < st \<Longrightarrow> spec_step (xs @ c # ys) (xs @ c\<lparr>c_status := st\<rparr> # ys)"
| enlist: "a \<notin> set (c_board c) \<Longrightarrow> int (length (c_board c)) < c_agents c \<Longrightarrow>
    spec_step (xs @ c # ys) (xs @ c\<lparr>c_board := c_board c @ [a]\<rparr> # ys)"

abbreviation spec_reach :: "campaign list \<Rightarrow> campaign list \<Rightarrow> bool" where
  "spec_reach \<equiv> spec_step\<^sup>*\<^sup>*"

text \<open>What a sequence of steps can do to one campaign.\<close>

definition grows_to :: "campaign \<Rightarrow> campaign \<Rightarrow> bool" where
  "grows_to c d \<longleftrightarrow> d = c\<lparr>c_status := c_status d, c_board := c_board d\<rparr> \<and>
     c_status c \<le> c_status d \<and> prefix (c_board c) (c_board d) \<and>
     distinct (c_board d) \<and> int (length (c_board d)) \<le> c_agents c"

lemma reach_board:
  "distinct (c_board c @ as) \<Longrightarrow> int (length (c_board c @ as)) \<le> c_agents c \<Longrightarrow>
    spec_reach (xs @ c # ys) (xs @ c\<lparr>c_board := c_board c @ as\<rparr> # ys)"
proof (induction as arbitrary: c)
  case (Cons a as)
  have "spec_step (xs @ c # ys) (xs @ c\<lparr>c_board := c_board c @ [a]\<rparr> # ys)"
    using Cons.prems by (intro enlist) auto
  moreover have "spec_reach (xs @ c\<lparr>c_board := c_board c @ [a]\<rparr> # ys)
      (xs @ c\<lparr>c_board := c_board c @ a # as\<rparr> # ys)"
    using Cons.IH[of "c\<lparr>c_board := c_board c @ [a]\<rparr>"] Cons.prems by simp
  ultimately show ?case by (rule converse_rtranclp_into_rtranclp)
qed simp

lemma reach_campaign:
  assumes "grows_to c d" shows "spec_reach (xs @ c # ys) (xs @ d # ys)"
proof -
  from assms obtain as where as: "c_board d = c_board c @ as" by (auto simp: grows_to_def prefix_def)
  define b where "b = c\<lparr>c_board := c_board d\<rparr>"
  have 1: "spec_reach (xs @ c # ys) (xs @ b # ys)"
    unfolding b_def as using assms by (intro reach_board) (simp_all add: grows_to_def as)
  have d: "d = b\<lparr>c_status := c_status d\<rparr>"
    using assms unfolding b_def grows_to_def by (cases c; cases d) simp
  have "spec_reach (xs @ b # ys) (xs @ d # ys)"
  proof (cases "c_status c = c_status d")
    case True
    then have "d = b" using assms unfolding b_def grows_to_def by (cases c; cases d) simp
    then show ?thesis by simp
  next
    case False
    then have "c_status b < c_status d" using assms by (simp add: b_def grows_to_def less_le)
    then have "spec_step (xs @ b # ys) (xs @ d # ys)" by (subst d) (rule move_on)
    then show ?thesis by (rule r_into_rtranclp)
  qed
  with 1 show ?thesis by (rule rtranclp_trans)
qed

lemma reach_all:
  "list_all2 grows_to cs ds \<Longrightarrow> spec_reach (xs @ cs) (xs @ ds)"
proof (induction arbitrary: xs rule: list_all2_induct)
  case (Cons c cs d ds)
  from reach_campaign[OF Cons.hyps(1)] have "spec_reach (xs @ c # cs) (xs @ d # cs)" .
  also have "spec_reach (xs @ d # cs) (xs @ d # ds)" using Cons.IH[of "xs @ [d]"] by simp
  finally show ?case .
qed simp

definition fresh_campaign :: "campaign \<Rightarrow> bool" where
  "fresh_campaign d \<longleftrightarrow> 1 \<le> c_target d \<and> 1 \<le> c_agents d \<and> c_agents d \<le> 512 \<and>
     distinct (c_board d) \<and> int (length (c_board d)) \<le> c_agents d"

lemma queued_least: "QUEUED \<le> st"
  by (cases st) (simp_all add: less_eq_status_def)

lemma reach_opened:
  "distinct (map c_id (cs @ ds)) \<Longrightarrow> list_all fresh_campaign ds \<Longrightarrow> spec_reach cs (cs @ ds)"
proof (induction ds rule: rev_induct)
  case (snoc d ds)
  define c where "c = d\<lparr>c_status := QUEUED, c_board := []\<rparr>"
  have "spec_step (cs @ ds) ((cs @ ds) @ [c])"
    using snoc.prems by (intro open_campaign) (auto simp: c_def fresh_campaign_def)
  moreover have "spec_reach ((cs @ ds) @ [c]) ((cs @ ds) @ [d])"
    using snoc.prems(2)
    by (intro reach_campaign) (simp add: grows_to_def c_def fresh_campaign_def queued_least)
  moreover have "spec_reach cs (cs @ ds)" using snoc by simp
  ultimately show ?case by simp
qed simp

section \<open>The abstraction\<close>

definition abs_job :: "world \<Rightarrow> job \<Rightarrow> campaign" where
  "abs_job w j = \<lparr>c_id = JOB_ID j, c_target = RPS j, c_agents = AGENTS j, c_status = STATUS j,
     c_board = board (JOB_ID j) w\<rparr>"

lemma c_id_abs [simp]: "c_id \<circ> abs_job w = JOB_ID"
  by (simp add: fun_eq_iff abs_job_def)

definition campaigns :: "world \<Rightarrow> campaign list" where
  "campaigns w = map (abs_job w) (jobs w)"

lemma board_distinct:
  assumes "world_inv w" shows "distinct (board i w)"
proof -
  have "distinct (map SPAWN_ID (spawns_of i w))"
    using assms by (auto simp: world_inv_def spawns_of_def intro: distinct_map_filter)
  moreover have "map SPAWN_ID (spawns_of i w) = map (spawn_name i) (board i w)"
    using assms by (auto simp: world_inv_def wf_spawn_def spawns_of_def board_def)
  ultimately show ?thesis by (simp add: distinct_map)
qed

lemma board_grows:
  assumes "evolves w w'" shows "prefix (board i w) (board i w')"
proof -
  define ss where "ss = take (length (spawns w)) (spawns w')"
  have "list_all2 spawn_evolves (spawns w) ss"
    using assms by (simp add: evolves_def extends_def ss_def)
  then have "map AGENT_ID (filter (\<lambda>s. SPAWN_JOB s = i) ss) = board i w"
    unfolding board_def spawns_of_def
    by (induction rule: list_all2_induct) (auto simp: spawn_evolves_def)
  moreover have "spawns w' = ss @ drop (length (spawns w)) (spawns w')" by (simp add: ss_def)
  then have "board i w' = map AGENT_ID (filter (\<lambda>s. SPAWN_JOB s = i) ss) @
      map AGENT_ID (filter (\<lambda>s. SPAWN_JOB s = i) (drop (length (spawns w)) (spawns w')))"
    unfolding board_def spawns_of_def by (metis filter_append map_append)
  ultimately show ?thesis by simp
qed

lemma board_fits:
  assumes "world_inv w" "j \<in> set (jobs w)"
  shows "int (length (board (JOB_ID j) w)) \<le> AGENTS j"
  using assms by (simp add: world_inv_def slots_ok_def length_board)

lemma evolves_spec:
  assumes "world_inv w" "world_inv w'" "evolves w w'"
  shows "spec_reach (campaigns w) (campaigns w')"
proof -
  define old new where "old = take (length (jobs w)) (jobs w')" and "new = drop (length (jobs w)) (jobs w')"
  have jobs: "jobs w' = old @ new" by (simp add: old_def new_def)
  have js: "list_all2 job_evolves (jobs w) old"
    using assms(3) by (simp add: evolves_def extends_def old_def)
  have "grows_to (abs_job w j) (abs_job w' j')" if "job_evolves j j'" "j' \<in> set (jobs w')" for j j'
    using job_evolvesD[OF that(1)] board_grows[OF assms(3)] board_distinct[OF assms(2)]
      board_fits[OF assms(2) that(2)]
    by (simp add: grows_to_def abs_job_def)
  with js have "list_all2 grows_to (campaigns w) (map (abs_job w') old)"
    unfolding campaigns_def list.rel_map jobs by (auto elim!: list.rel_mono_strong)
  then have "spec_reach (campaigns w) (map (abs_job w') old)"
    using reach_all[of _ _ "[]"] by simp
  also have "spec_reach (map (abs_job w') old) (map (abs_job w') old @ map (abs_job w') new)"
  proof (rule reach_opened)
    show "distinct (map c_id (map (abs_job w') old @ map (abs_job w') new))"
      using assms(2) by (simp add: world_inv_def jobs)
    have "fresh_campaign (abs_job w' j)" if "j \<in> set new" for j
    proof -
      from that have j: "j \<in> set (jobs w')" by (simp add: jobs)
      then have "wf_job j" using assms(2) by (simp add: world_inv_def)
      with board_distinct[OF assms(2)] board_fits[OF assms(2) j] show ?thesis
        by (simp add: fresh_campaign_def abs_job_def wf_job_def MAX_AGENTS_PER_JOB_def)
    qed
    then show "list_all fresh_campaign (map (abs_job w') new)" by (simp add: list_all_iff)
  qed
  finally show ?thesis by (simp add: campaigns_def jobs)
qed

end
