(* ===== verification/Spec2Isabelle.thy ===== *)
theory Spec2Isabelle
  imports Watching Waiting Pages Specification
begin

text \<open>
  A verification library for the control plane of the R2 benchmark: the TypeScript Worker under
  \<open>src/\<close> of the repository, its D1 schema under \<open>migrations/\<close> and the helper and the start page
  of the operator, \<open>assets/app.js\<close> and \<open>assets/index.html\<close>.

  \<^bold>\<open>The program.\<close> Operators start, watch and stop benchmark jobs over HTTP; load agents on virtual
  machines poll for work, report metrics every few seconds and report completion; a cron trigger
  sweeps up what went silent. All state is in three tables. Handlers are asynchronous and the
  invocations of the Worker share nothing but the database, so they interleave at every await.

  \<^bold>\<open>Theories and code.\<close>
  \<^item> \<open>Prelude\<close>: tables as lists of rows, \<open>UPDATE\<close>, lookup and \<open>COUNT\<close>; the locale \<open>keyed_update\<close>.
  \<^item> \<open>JsNumber\<close>: JavaScript numbers as IEEE doubles (exact rationals rounded by \<open>fl\<close>), infinities and
    NaN, \<open>Math.floor\<close>, \<open>%\<close> and \<open>Number(string)\<close>, as instances of the arithmetic classes.
  \<^item> \<open>Async\<close>: handlers as resumable programs of atomic actions, \<open>run\<close> alone or interleaved in a pool
    (\<open>pool_step\<close>); the locale \<open>rely_guarantee\<close> for invariants under interference.
  \<^item> \<open>Wire_Types\<close> (\<open>types.ts\<close>, \<open>env.d.ts\<close>), \<open>Database\<close> (\<open>migrations/\<close>: rows, keys, status updates and
    how tables evolve; the lifecycle as the order of the type \<open>status\<close>).
  \<^item> \<open>Agents\<close> (\<open>agents.ts\<close>: token check, rate split, poll handler), \<open>Spawn\<close> (\<open>spawn.ts\<close>: metric and
    completion reports, the sweep), \<open>Watch\<close> and \<open>Orchestrator\<close> (\<open>orchestrator.ts\<close>: configuration, operator
    authentication, start, watch, list, stop, callbacks, routing), \<open>Worker\<close> (\<open>index.ts\<close>).
    One definition per function and per SQL statement, named as in the code where it has a name.
  \<^item> \<open>Browser\<close> (\<open>assets/app.js\<close>): the token taken from the address, kept and sent; the locale
    \<open>operator_api\<close> is what the page relies on, interpreted on the Worker. \<open>Pages\<close> (the script of
    \<open>assets/index.html\<close>): presets, configuration, input validation, hint and the Start button.

  \<^bold>\<open>What is proved.\<close>
  \<^item> \<open>Invariants\<close>, \<open>Guarantees\<close>: \<open>world_inv\<close> (unique keys, validated jobs, spawns of known jobs, slots
    \<open>0, 1, 2, ...\<close> within the agents of the job) and \<open>evolves\<close> (jobs and spawns never disappear, statuses
    only move forward) for every atomic action of every handler, under interference.
  \<^item> \<open>System\<close>: every reachable state of the interleaved system; answers sent out stay backed by rows;
    the rates handed out stay within the target. \<open>Specification\<close>: the abstract machine of campaigns and
    the refinement. The properties that span components are in this theory, with a concrete run.
  \<^item> \<open>Starting\<close>: authentication, routing, configuration, and starting a job. \<open>Activity\<close>: at most one active
    job when requests are serial, and the interleaving that breaks it. \<open>Reaping\<close>: the sweep as one
    pass over the tables, what it leaves, idempotence. \<open>Reporting\<close>: metric, completion and error reports
    and stops. \<open>Polling\<close>: every branch of the poll, and slot allocation as a refinement of a board of
    agents (locale \<open>slot_allocator\<close>). \<open>Waiting\<close>: the silence of an agent before the start of load.
    \<open>Watching\<close>: the aggregation behind the charts. \<open>Samples\<close>: the concrete deployment of the witnesses.

  \<^bold>\<open>Modelling decisions.\<close>
  \<^item> A handler is cut into atomic actions at its awaits. A D1 statement is one action, a \<open>batch\<close> is one
    action that happens whole or not at all, \<open>Date.now()\<close> is an action that reads the clock of the
    world. The clock only moves forward; an invocation may be lost at any point.
  \<^item> Fields of a request body are typed as \<open>types.ts\<close> declares them, with absent, \<open>null\<close> and a value
    distinguished. Strings are lists of characters below 256. There is no negative zero.
  \<^item> Columns and aggregates are exact rationals or integers; binding a number that is not finite stores \<open>NULL\<close>, binding
    \<open>undefined\<close> is an error of the statement. Identifiers are compared as text. Ties of an \<open>ORDER BY\<close>, and
    \<open>LIMIT\<close> without one, are resolved in insertion order. Timestamps are seconds of the epoch.
  \<^item> \<open>crypto.randomUUID()\<close> is an argument of the handler, any string of 36 characters (one already in
    use violates the key and fails the statement); \<open>ASSETS.fetch\<close> is an answer that names the page;
    the parts of a URL come parsed. Message texts are constructors with the interpolated values.
  \<^item> Bounds: rates and windows are exact while numbers stay within \<open>2 ^ 52\<close> or \<open>2 ^ 53\<close>, stated as hypotheses.
    No fuel is used: every handler is a finite program, its loop over expired jobs is recursion on the
    list it has read.

  \<^bold>\<open>Not modelled.\<close> Console output; the generated \<open>worker-configuration.d.ts\<close>; tests and their configuration
  (\<open>vitest.config.mts\<close>); markup and styling, and the scripts of the watch and job list pages, which draw what
  the API answers; the Go programs (load agent, seeder, request signing), which talk to the Worker over HTTP
  only; Terraform and shell scripts.
\<close>

section \<open>A run of the system\<close>

text \<open>One operator starts a job and one agent polls: a reachable state with work handed out.\<close>

definition first_job :: job where
  "first_job = queued sample_id"

definition poll_request :: "string \<Rightarrow> request" where
  "poll_request agent = \<lparr>req_method = ''POST'', req_origin = ''https://bench.example'',
     req_pathname = ''/api/agent/poll'', req_token_param = None, req_admin_header = None,
     req_body = JsonObject (poll_body agent)\<rparr>"

lemma first_job_cols:
  "JOB_ID first_job = sample_id" "RPS first_job = 100" "AGENTS first_job = 3"
  "STATUS first_job = QUEUED" "STOP_AT first_job = Some (of_int 150000)"
  by (simp_all add: first_job_def queued_def job_row_def start_body_params stop_at_def start_at_def
      js_int_simps)

definition queued_world :: world where
  "queued_world = \<lparr>clock = 0, jobs = [first_job], spawns = [], metrics = []\<rparr>"

lemma reach_queued:
  "\<exists>r. reachable sample_env \<lparr>shared = queued_world, running = [Return (Some r)]\<rparr>"
proof -
  have q: "queued_world = shared (initial 0)\<lparr>jobs := [queued sample_id]\<rparr>"
    by (simp add: queued_world_def first_job_def initial_def)
  have "reachable sample_env \<lparr>shared = shared (initial 0), running = []\<rparr>"
    using reachable_initial[of sample_env 0] by (simp add: initial_def)
  from reach_start[OF this length_sample_id]
  have 1: "reachable sample_env \<lparr>shared = shared (initial 0), running = [pending (look sample_id)]\<rparr>"
    by simp
  have "reachable sample_env \<lparr>shared = shared (initial 0), running = [pending (queue sample_id)]\<rparr>"
    using reach_look[OF 1, of 0 sample_id] by (simp add: initial_def select_active_job_def)
  from reach_queue[OF this, of 0 sample_id]
  have 2: "reachable sample_env \<lparr>shared = shared (initial 0), running = [pending (queue_at sample_id 0)]\<rparr>"
    by (simp add: initial_def)
  have "insert_job sample_id 0 (start_params_of start_body) (shared (initial 0)) = (Inr (), queued_world)"
    by (simp add: insert_job_def initial_def q queued_def current_timestamp_def)
  from reach_insert[OF 2, of 0 sample_id 0, OF _ _ this] show ?thesis by auto
qed

definition polled_world :: world where
  "polled_world = snd (run (fetch sample_env sample_id (poll_request ''vm-a'')) queued_world)"

definition first_work :: assignment where
  "first_work = assignment_of first_job (spawn_name sample_id ''vm-a'') 0"

lemma poll_answer:
  "run (fetch sample_env sample_id (poll_request ''vm-a'')) queued_world =
     (Inr (Json 200 (Polled (Run first_work))), polled_world)"
  "jobs polled_world = [first_job\<lparr>STATUS := RUNNING, UPDATED_AT := 0\<rparr>]"
proof -
  define i where "i = spawn_name sample_id ''vm-a''"
  have o: "select_open_job queued_world = Some first_job" "clock queued_world = 0"
    "spawns queued_world = []"
    by (simp_all add: select_open_job_def queued_world_def first_job_cols ACTIVE_STATUSES_def)
  have c: "\<not> column_number (STOP_AT first_job) \<le> js_int (clock queued_world)"
    unfolding first_job_cols column_number_of_int by (simp add: o)
  have p: "\<not> falsy (agentId (poll_body ''vm-a''))" by (simp add: sample_poll)
  have n: "find_spawn i queued_world = None" by (simp add: find_spawn_def o)
  have a: "i = spawn_name (JOB_ID first_job) (text_of (agentId (poll_body ''vm-a'')))"
    by (simp add: i_def first_job_cols sample_poll)
  have cnt: "count_spawns sample_id queued_world = 0" by (simp add: count_spawns_def o)
  have poll: "run (agent_poll sample_env (JsonObject (poll_body ''vm-a''))) queued_world =
      (Inr (Run (assignment_of first_job i 0)),
       snd (mark_running sample_id (queued_world\<lparr>spawns :=
         [spawn_row i sample_id ''vm-a'' ''unknown'' 0 queued_world]\<rparr>)))"
    unfolding run_poll[OF sample_poll(1) p o(1) c] run_join_new[OF n a]
    by (simp add: claim_slot_def o cnt first_job_cols sample_poll poll_body_def empty_object_def
        find_spawn_def spawn_row_def run_hand_out)
  then have f: "run (fetch sample_env sample_id (poll_request ''vm-a'')) queued_world =
      (Inr (Json 200 (Polled (Run first_work))),
       snd (mark_running sample_id (queued_world\<lparr>spawns :=
         [spawn_row i sample_id ''vm-a'' ''unknown'' 0 queued_world]\<rparr>)))"
    by (simp add: fetch_def orchestrator_route_def route_def post_route_def poll_request_def
        respond_def run_catch run_bind first_work_def i_def)
  then show "run (fetch sample_env sample_id (poll_request ''vm-a'')) queued_world =
     (Inr (Json 200 (Polled (Run first_work))), polled_world)"
    by (simp add: polled_world_def)
  from f show "jobs polled_world = [first_job\<lparr>STATUS := RUNNING, UPDATED_AT := 0\<rparr>]"
    by (simp add: polled_world_def mark_running_def set_job_status_def queued_world_def
        first_job_cols current_timestamp_def)
qed

lemma reach_polled:
  "\<exists>s. reachable sample_env s \<and> shared s = polled_world \<and> handed_out s first_work"
proof -
  from reach_queued obtain r where
    "reachable sample_env \<lparr>shared = queued_world, running = [Return (Some r)]\<rparr>" by blast
  from reachable_request[OF this length_sample_id poll_answer(1)]
  show ?thesis by (auto simp: handed_out_def answered_def)
qed

text \<open>The operator then stops the job.\<close>

definition stop_request :: request where
  "stop_request = \<lparr>req_method = ''POST'', req_origin = ''https://bench.example'',
     req_pathname = ''/api/v1/stop'', req_token_param = Some ''admin-secret'',
     req_admin_header = None, req_body = JsonObject (empty_object\<lparr>jobId := Val sample_id\<rparr>)\<rparr>"

definition stopped_world :: world where
  "stopped_world = snd (run (fetch sample_env sample_id stop_request) polled_world)"

lemma stop_answer:
  "\<exists>x. run (fetch sample_env sample_id stop_request) polled_world = (Inr x, stopped_world)"
  "\<exists>now t. jobs stopped_world = [first_job\<lparr>STATUS := STOPPING, STOP_AT := now, UPDATED_AT := t\<rparr>]"
proof -
  define b where "b = empty_object\<lparr>jobId := Val sample_id\<rparr>"
  have b: "\<not> falsy (jobId b)" "text_of (jobId b) = sample_id"
    by (simp_all add: b_def sample_id_def)
  have r: "route sample_env sample_id stop_request = respond Stopped (stop_job (JsonObject b))"
    by (simp add: route_def post_route_def stop_request_def with_admin_def require_admin_eq
        presented_token_def b_def) (simp add: sample_env_def)
  obtain x where x: "run (stop_job (JsonObject b)) polled_world =
      (Inr x, snd (request_stop (clock polled_world) sample_id polled_world))"
    using b by (simp add: stop_job_def with_object_def date_now_def request_stop_def Let_def)
  then have f: "run (fetch sample_env sample_id stop_request) polled_world =
      (Inr (Json 200 (Stopped x)), snd (request_stop (clock polled_world) sample_id polled_world))"
    by (simp add: fetch_def orchestrator_route_def r respond_def run_catch run_bind)
  then show "\<exists>x. run (fetch sample_env sample_id stop_request) polled_world = (Inr x, stopped_world)"
    by (simp add: stopped_world_def)
  show "\<exists>now t. jobs stopped_world = [first_job\<lparr>STATUS := STOPPING, STOP_AT := now, UPDATED_AT := t\<rparr>]"
    by (simp add: stopped_world_def f request_stop_def Let_def poll_answer(2) first_job_cols)
       (metis)
qed

lemma reach_stopped: "\<exists>s. reachable sample_env s \<and> shared s = stopped_world"
proof -
  from reach_queued obtain r where
    "reachable sample_env \<lparr>shared = queued_world, running = [Return (Some r)]\<rparr>" by blast
  from reachable_request[OF this length_sample_id poll_answer(1)] stop_answer(1)
  show ?thesis using reachable_request[OF _ length_sample_id] by fastforce
qed

section \<open>Properties of the system\<close>



text \<open>
  C9: work is only handed out against the database: to every answer that assigns an agent a rate
  there are, from then on, a job and a spawn with that job's id, the agent's own slot, and the
  rate is the share of that slot.
\<close>

theorem handed_out_work_is_backed:
  assumes "reachable env s" "handed_out s a"
  shows "\<exists>j \<in> set (jobs (shared s)). \<exists>x \<in> set (spawns (shared s)).
    JOB_ID j = run_jobId a \<and> SPAWN_ID x = run_spawnId a \<and> SPAWN_JOB x = JOB_ID j \<and>
    int (SLOT x) < AGENTS j \<and> run_workers a = WORKERS_PER_AGENT j \<and>
    run_targetRPS a = rps_for_slot (js_int (RPS j)) (js_int (AGENTS j)) (js_int (int (SLOT x)))"
  using handed_out_backed[OF assms] unfolding backed_def share_of_def by blast

theorem handed_out_work_is_backed_witness:
  "\<exists>j \<in> set (jobs polled_world). JOB_ID j = run_jobId first_work"
proof -
  from reach_polled obtain s where
    s: "reachable sample_env s" "shared s = polled_world" "handed_out s first_work" by blast
  from handed_out_work_is_backed[OF s(1,3)] s(2) show ?thesis by auto
qed

text \<open>
  C1: the fleet never drives more load than the operator asked for. However polls are
  interleaved, the rates handed out to any number of different spawns of a job sum to at most
  its target, and to exactly the target once all its slots are among them.
\<close>

theorem handed_out_rate_within_target:
  assumes "reachable env s" "j \<in> set (jobs (shared s))" "RPS j + AGENTS j \<le> 2 ^ 52"
    "list_all (\<lambda>a. handed_out s a \<and> run_jobId a = JOB_ID j) as" "distinct (map run_spawnId as)"
  shows "sum_list (map rate_of as) \<le> RPS j \<and>
    (length as = nat (AGENTS j) \<longrightarrow> sum_list (map rate_of as) = RPS j)"
proof -
  have "backed (shared s) a \<and> run_jobId a = JOB_ID j" if "a \<in> set as" for a
    using that assms(4) handed_out_backed[OF assms(1)] by (auto simp: list_all_iff)
  from rates_bounded[OF reachable_inv[OF assms(1)] assms(2,3) this assms(5)] show ?thesis by blast
qed

theorem handed_out_rate_within_target_witness:
  "rate_of first_work \<le> 100"
proof -
  define j where "j = first_job\<lparr>STATUS := RUNNING, UPDATED_AT := 0\<rparr>"
  from reach_polled obtain s where
    s: "reachable sample_env s" "shared s = polled_world" "handed_out s first_work" by blast
  have "j \<in> set (jobs (shared s))" "RPS j = 100" "AGENTS j = 3" "JOB_ID j = sample_id"
    "run_jobId first_work = sample_id"
    using s(2) poll_answer(2)
    by (simp_all add: j_def first_job_cols first_work_def assignment_of_def)
  with handed_out_rate_within_target[OF s(1), of j "[first_work]"] s(3) show ?thesis by simp
qed

text \<open>
  C6: the lifecycle of a job. From any reachable state on, a job never disappears, its target,
  fleet size and start time never change, its status only moves forward (queued, running,
  stopping, then one of the three ends), and once it has ended it stays as it ended.
\<close>

theorem job_lifecycle:
  assumes "reachable env s" "pool_reach tick (invocation env) s t" "j \<in> set (jobs (shared s))"
  shows "\<exists>j' \<in> set (jobs (shared t)). JOB_ID j' = JOB_ID j \<and> RPS j' = RPS j \<and>
    AGENTS j' = AGENTS j \<and> START_AT j' = START_AT j \<and> STATUS j \<le> STATUS j' \<and>
    (terminal (STATUS j) \<longrightarrow> STATUS j' = STATUS j)"
proof -
  have "extends job_evolves (jobs (shared s)) (jobs (shared t))"
    using reach_evolves[OF assms(1,2)] by (simp add: evolves_def)
  then obtain j' where j': "j' \<in> set (jobs (shared t))" "job_evolves j j'"
    using assms(3) by (rule extends_member)
  then show ?thesis using terminal_final by (intro bexI[of _ j']) (auto dest: job_evolvesD)
qed

theorem job_lifecycle_witness:
  "\<exists>j' \<in> set (jobs polled_world). JOB_ID j' = sample_id \<and> QUEUED \<le> STATUS j'"
proof -
  from reach_queued obtain r where
    s: "reachable sample_env \<lparr>shared = queued_world, running = [Return (Some r)]\<rparr>" by blast
  have "first_job \<in> set (jobs (shared \<lparr>shared = queued_world, running = [Return (Some r)]\<rparr>))"
    by (simp add: queued_world_def)
  from job_lifecycle[OF s reach_request[OF length_sample_id poll_answer(1)] this]
  show ?thesis by (auto simp: first_job_cols)
qed

text \<open>
  C3: the deployed system refines the abstract machine. Whatever invocations are interleaved,
  lost or delayed, between any two states of an execution the database has moved only by
  opening new campaigns, by moving a campaign forward in its lifecycle, and by enlisting new
  agents, one at a time and never more than it has slots.
\<close>

theorem system_refines_campaigns:
  assumes "reachable env s" "pool_reach tick (invocation env) s t"
  shows "spec_reach (campaigns (shared s)) (campaigns (shared t))"
  using reachable_inv[OF assms(1)] reachable_inv[OF reachable_reach[OF assms]] reach_evolves[OF assms]
  by (rule evolves_spec)

theorem system_refines_campaigns_witness:
  "spec_reach [\<lparr>c_id = sample_id, c_target = 100, c_agents = 3, c_status = QUEUED, c_board = []\<rparr>]
    (campaigns polled_world)"
proof -
  from reach_queued obtain r where
    s: "reachable sample_env \<lparr>shared = queued_world, running = [Return (Some r)]\<rparr>" by blast
  have "campaigns queued_world =
      [\<lparr>c_id = sample_id, c_target = 100, c_agents = 3, c_status = QUEUED, c_board = []\<rparr>]"
    by (simp add: campaigns_def abs_job_def queued_world_def first_job_cols board_def spawns_of_def)
  with system_refines_campaigns[OF s reach_request[OF length_sample_id poll_answer(1)]]
  show ?thesis by simp
qed

text \<open>
  C10: a stop is final. Once a job is stopping, or over, the poll handler never again selects it,
  in any state the system can go to, so no agent that polls from then on is given its work.
\<close>

theorem stopped_job_never_offered:
  assumes "reachable env s" "pool_reach tick (invocation env) s t"
    "j \<in> set (jobs (shared s))" "STATUS j \<notin> set ACTIVE_STATUSES"
  shows "case select_open_job (shared t) of None \<Rightarrow> True | Some i \<Rightarrow> JOB_ID i \<noteq> JOB_ID j"
proof (cases "select_open_job (shared t)")
  case (Some i)
  have "extends job_evolves (jobs (shared s)) (jobs (shared t))"
    using reach_evolves[OF assms(1,2)] by (simp add: evolves_def)
  then obtain j' where j': "j' \<in> set (jobs (shared t))" "job_evolves j j'"
    using assms(3) by (rule extends_member)
  have t: "distinct (map JOB_ID (jobs (shared t)))"
    using reachable_inv[OF reachable_reach[OF assms(1,2)]] by (simp add: world_inv_def)
  have i: "i \<in> set (jobs (shared t))" "STATUS i \<in> set ACTIVE_STATUSES"
    using open_job_in[OF Some] by auto
  have "STATUS j' \<notin> set ACTIVE_STATUSES"
    using assms(4) job_evolvesD(9)[OF j'(2)]
    by (cases "STATUS j"; cases "STATUS j'") (auto simp: ACTIVE_STATUSES_def less_eq_status_def)
  then have "i \<noteq> j'" using i(2) by auto
  then have "JOB_ID i \<noteq> JOB_ID j'" using distinct_key_eq[OF t i(1) j'(1)] by blast
  then show ?thesis using Some job_evolvesD(1)[OF j'(2)] by simp
qed simp

theorem stopped_job_never_offered_witness:
  "case select_open_job stopped_world of None \<Rightarrow> True | Some i \<Rightarrow> JOB_ID i \<noteq> sample_id"
proof -
  from reach_stopped obtain s where s: "reachable sample_env s" "shared s = stopped_world" by blast
  obtain j where j: "jobs stopped_world = [j]" "JOB_ID j = sample_id" "STATUS j = STOPPING"
    using stop_answer(2) by (auto simp: first_job_cols)
  then have "STATUS j \<notin> set ACTIVE_STATUSES" by (simp add: ACTIVE_STATUSES_def)
  with stopped_job_never_offered[OF s(1) pool_reach.here, of j] j(1,2) s(2) show ?thesis
    by (simp split: option.splits)
qed

end
